(* ===== verification/Zygisk_Prelude.thy ===== *)
theory Zygisk_Prelude
  imports Main "HOL-Library.Word" "HOL-Library.Sublist"
begin

unbundle bit_operations_syntax

text \<open>
  Shared vocabulary of the development: the machine types of the loader (an LP64 Android build),
  bytes and C strings, substring search as \<open>std::string_view\<close> has it, little-endian
  encodings, the decimal text of \<open>printf\<close>, and the result type in which undefined or fatal
  behaviour of the C++ code is a value (\<open>fault\<close>).  The lemma collections \<open>bytes_simps\<close>
  and \<open>res_simps\<close> carry the proofs of the components.

  A byte is a \<^typ>\<open>char\<close> (256 values, \<^term>\<open>of_char\<close> and \<^term>\<open>char_of\<close> convert),
  so a byte buffer and a \<open>std::string\<close> are both \<^typ>\<open>string\<close>.
\<close>

named_theorems bytes_simps \<open>byte and string encodings\<close>
named_theorems res_simps \<open>the fault monad\<close>

section \<open>Machine types\<close>

type_synonym u8 = "8 word"
type_synonym u32 = "32 word"
type_synonym u64 = "64 word"
type_synonym pid = int
type_synonym fd = int

section \<open>Faults\<close>

text \<open>
  What the code does where C++ leaves the behaviour undefined or the run time ends the process:
  each such place of the source is a branch that returns one of these.
\<close>

datatype fault =
    Null_Deref          \<comment> \<open>a null pointer is dereferenced\<close>
  | Uninit_Read         \<comment> \<open>the value of an uninitialised object is used\<close>
  | Out_Of_Bounds       \<comment> \<open>a buffer is written or read past its end\<close>
  | Bad_Alloc           \<comment> \<open>an allocation of an impossible size\<close>
  | Bad_Call            \<comment> \<open>a function is called through a pointer of another type\<close>
  | Div_Zero            \<comment> \<open>a division by zero\<close>
  | Exit_Process int    \<comment> \<open>\<open>exit(n)\<close>\<close>

type_synonym 'a res = "fault + 'a"

definition bind_r :: "'a res \<Rightarrow> ('a \<Rightarrow> 'b res) \<Rightarrow> 'b res" where
  "bind_r m f = (case m of Inl e \<Rightarrow> Inl e | Inr x \<Rightarrow> f x)"

lemma bind_r_Inl [simp, res_simps]: "bind_r (Inl e) f = Inl e"
  by (simp add: bind_r_def)

lemma bind_r_Inr [simp, res_simps]: "bind_r (Inr x) f = f x"
  by (simp add: bind_r_def)

lemma bind_r_eq_Inr [res_simps]: "bind_r m f = Inr y \<longleftrightarrow> (\<exists>x. m = Inr x \<and> f x = Inr y)"
  by (cases m) auto

lemma bind_r_eq_Inl [res_simps]:
  "bind_r m f = Inl e \<longleftrightarrow> m = Inl e \<or> (\<exists>x. m = Inr x \<and> f x = Inl e)"
  by (cases m) auto

lemma bind_r_assoc [res_simps]: "bind_r (bind_r m f) g = bind_r m (\<lambda>x. bind_r (f x) g)"
  by (cases m) auto

lemma if_Inl_eq_Inr: "(if b then Inl e else x) = Inr y \<Longrightarrow> x = Inr y"
  by (cases b) simp_all

lemma bind_r_cong [fundef_cong]:
  assumes "m = m'" and "\<And>x. m' = Inr x \<Longrightarrow> f x = g x"
  shows "bind_r m f = bind_r m' g"
  using assms by (cases m') auto

section \<open>C strings and string views\<close>

abbreviation NUL :: char where
  "NUL \<equiv> CHR 0x00"

text \<open>What a function that takes a \<open>const char *\<close> sees of a buffer: the bytes before the first NUL.\<close>

definition c_str :: "string \<Rightarrow> string" where
  "c_str = takeWhile (\<lambda>c. c \<noteq> NUL)"

definition starts_with :: "string \<Rightarrow> string \<Rightarrow> bool" where
  "starts_with s p \<longleftrightarrow> prefix p s"

definition ends_with :: "string \<Rightarrow> string \<Rightarrow> bool" where
  "ends_with s p \<longleftrightarrow> suffix p s"

text \<open>\<open>find_sub d s\<close>: the index of the first occurrence of \<open>d\<close> in \<open>s\<close>, as \<open>string_view::find\<close> and
  \<open>strstr\<close> compute it.\<close>

fun find_sub :: "string \<Rightarrow> string \<Rightarrow> nat option" where
  "find_sub d [] = (if d = [] then Some 0 else None)"
| "find_sub d (c # cs) =
     (if prefix d (c # cs) then Some 0 else map_option Suc (find_sub d cs))"

definition str_find :: "string \<Rightarrow> string \<Rightarrow> nat \<Rightarrow> nat option" where
  "str_find s d pos =
     (if pos \<le> length s then map_option ((+) pos) (find_sub d (drop pos s)) else None)"

definition str_substr :: "string \<Rightarrow> nat \<Rightarrow> nat \<Rightarrow> string" where
  "str_substr s pos n = take n (drop pos s)"

lemma c_str_no_nul: "NUL \<notin> set s \<Longrightarrow> c_str s = s"
  unfolding c_str_def by (induction s) auto

lemma c_str_append_nul [simp]: "c_str (s @ NUL # t) = c_str s"
  by (induction s) (auto simp: c_str_def)

lemma length_c_str: "length (c_str s) \<le> length s"
  unfolding c_str_def by (rule length_takeWhile_le)

lemma nul_notin_c_str [simp]: "NUL \<notin> set (c_str s)"
  by (auto simp: c_str_def dest: set_takeWhileD)

lemma c_str_idem [simp]: "c_str (c_str s) = c_str s"
  by (simp add: c_str_no_nul)

lemma find_sub_Nil [simp]: "find_sub [] s = Some 0"
  by (cases s) auto

lemma find_sub_Some:
  "find_sub d s = Some i \<Longrightarrow> prefix d (drop i s) \<and> i + length d \<le> length s"
proof (induction s arbitrary: i)
  case Nil
  then show ?case by (auto split: if_splits)
next
  case (Cons c cs)
  then show ?case by (auto split: if_splits dest: prefix_length_le)
qed

lemma find_sub_first: "find_sub d s = Some i \<Longrightarrow> j < i \<Longrightarrow> \<not> prefix d (drop j s)"
proof (induction s arbitrary: i j)
  case Nil
  then show ?case by (auto split: if_splits)
next
  case (Cons c cs)
  then show ?case by (cases j) (auto split: if_splits)
qed

lemma find_sub_None: "find_sub d s = None \<longleftrightarrow> \<not> sublist d s"
proof (induction s)
  case Nil
  then show ?case by auto
next
  case (Cons c cs)
  then show ?case by (auto simp: sublist_Cons_right)
qed

lemma find_sub_iff_sublist: "(\<exists>i. find_sub d s = Some i) \<longleftrightarrow> sublist d s"
  using find_sub_None [of d s] by (cases "find_sub d s") auto

section \<open>Little-endian integers\<close>

fun le_enc :: "nat \<Rightarrow> nat \<Rightarrow> string" where
  "le_enc 0 n = []"
| "le_enc (Suc k) n = char_of n # le_enc k (n div 256)"

fun le_dec :: "string \<Rightarrow> nat" where
  "le_dec [] = 0"
| "le_dec (c # cs) = of_char c + 256 * le_dec cs"

lemma length_le_enc [simp]: "length (le_enc k n) = k"
  by (induction k arbitrary: n) auto

lemma le_dec_enc [bytes_simps]: "le_dec (le_enc k n) = n mod 256 ^ k"
proof (induction k arbitrary: n)
  case 0
  then show ?case by simp
next
  case (Suc k)
  have "n mod 256 + 256 * (n div 256 mod 256 ^ k) = n mod (256 * 256 ^ k)"
    by (simp add: mod_mult2_eq)
  with Suc show ?case by simp
qed

lemma le_dec_bound: "le_dec bs < 256 ^ length bs"
proof (induction bs)
  case Nil
  then show ?case by simp
next
  case (Cons c cs)
  have "(of_char c :: nat) < 256" by simp
  with Cons have "of_char c + 256 * le_dec cs < 256 + 256 * (256 ^ length cs - 1)"
    by (intro add_less_le_mono mult_le_mono2) auto
  also have "\<dots> = 256 ^ length (c # cs)"
    by (simp add: right_diff_distrib')
  finally show ?case by simp
qed

lemma le_enc_dec [bytes_simps]: "le_enc (length bs) (le_dec bs) = bs"
proof (induction bs)
  case (Cons c cs)
  have "char_of (of_char c + 256 * le_dec cs) = c"
    by (metis char_of_char char_of_mod_256 mod_mult_self2)
  moreover have "(of_char c + 256 * le_dec cs) div 256 = le_dec cs"
    by (simp add: div_mult_self1)
  ultimately show ?case using Cons by simp
qed simp

text \<open>The bytes of the fixed-width integers, little-endian as on every ABI the loader is built for.\<close>

definition enc_u8 :: "u8 \<Rightarrow> string" where
  "enc_u8 w = le_enc 1 (unat w)"

definition enc_u32 :: "u32 \<Rightarrow> string" where
  "enc_u32 w = le_enc 4 (unat w)"

definition enc_u64 :: "u64 \<Rightarrow> string" where
  "enc_u64 w = le_enc 8 (unat w)"

definition dec_word :: "string \<Rightarrow> 'a::len word" where
  "dec_word bs = word_of_nat (le_dec bs)"

lemma length_enc [simp]:
  "length (enc_u8 w8) = 1" "length (enc_u32 w32) = 4" "length (enc_u64 w64) = 8"
  by (simp_all add: enc_u8_def enc_u32_def enc_u64_def)

lemma unat_less_pow: "unat (w :: 'a::len word) < 2 ^ LENGTH('a)"
  by (rule unsigned_less)

lemma dec_enc_u8 [simp, bytes_simps]: "dec_word (enc_u8 w) = w"
  using unat_less_pow [of w] by (simp add: dec_word_def enc_u8_def le_dec_enc)

lemma dec_enc_u32 [simp, bytes_simps]: "dec_word (enc_u32 w) = w"
  using unat_less_pow [of w] by (simp add: dec_word_def enc_u32_def le_dec_enc)

lemma dec_enc_u64 [simp, bytes_simps]: "dec_word (enc_u64 w) = w"
  using unat_less_pow [of w] by (simp add: dec_word_def enc_u64_def le_dec_enc)

section \<open>Decimal and hexadecimal text\<close>

fun show_nat :: "nat \<Rightarrow> string" where
  "show_nat n =
     (if n < 10 then [char_of (48 + n)] else show_nat (n div 10) @ [char_of (48 + n mod 10)])"

declare show_nat.simps [simp del]

definition show_int :: "int \<Rightarrow> string" where
  "show_int i = (if i < 0 then CHR ''-'' # show_nat (nat (- i)) else show_nat (nat i))"

definition hex_digit :: "nat \<Rightarrow> char" where
  "hex_digit d = (if d < 10 then char_of (48 + d) else char_of (87 + d))"

fun show_hex :: "nat \<Rightarrow> string" where
  "show_hex n = (if n < 16 then [hex_digit n] else show_hex (n div 16) @ [hex_digit (n mod 16)])"

declare show_hex.simps [simp del]

lemma show_nat_nonempty [simp]: "show_nat n \<noteq> []"
  by (subst show_nat.simps) simp

lemma show_nat_digits: "c \<in> set (show_nat n) \<Longrightarrow> (48::nat) \<le> of_char c \<and> of_char c \<le> (57::nat)"
proof (induction n rule: show_nat.induct)
  case (1 n)
  then show ?case by (subst (asm) (2) show_nat.simps) (auto split: if_splits)
qed

section \<open>List lemmas\<close>

lemma take_append_exact: "length xs = n \<Longrightarrow> take n (xs @ ys) = xs"
  by simp

lemma drop_append_exact: "length xs = n \<Longrightarrow> drop n (xs @ ys) = ys"
  by simp

lemma prefix_drop_split:
  "prefix d (drop i s) \<Longrightarrow> s = take i s @ d @ drop (i + length d) s"
  by (metis append_take_drop_id add.commute drop_drop prefix_def append_eq_conv_conj)

end
