(* ===== verification/Misc_Utils.thy ===== *)
theory Misc_Utils
  imports Zygisk_Prelude
begin

text \<open>
  The string and integer helpers of \<open>loader/src/common/misc.cpp\<close>, \<open>loader/src/include/misc.hpp\<close>
  and the rounding helper of \<open>loader/src/injector/art_method.hpp\<close>.
\<close>

section \<open>Definitions\<close>

text \<open>\<open>parse_int\<close>: the accumulator is a 32-bit \<open>int\<close>, kept at its width (the two's complement
  wrap-around is what the compiled code does on overflow).\<close>

fun parse_int_loop :: "u32 \<Rightarrow> string \<Rightarrow> u32" where
  "parse_int_loop val [] = val"
| "parse_int_loop val (c # cs) =
     (if c = NUL then val
      else if (of_char c :: nat) > 57 \<or> (of_char c :: nat) < 48 then -1
      else parse_int_loop (val * 10 + of_char c - 48) cs)"

definition parse_int :: "string \<Rightarrow> int" where
  "parse_int s = sint (parse_int_loop 0 s)"

text \<open>\<open>split_str\<close>: the loop over \<open>pos\<close>.  With an empty delimiter \<open>pos\<close> never moves, so the loop is a
  \<open>partial_function\<close> in which not returning is \<^term>\<open>None\<close>.\<close>

partial_function (option) split_str_loop ::
  "string \<Rightarrow> string \<Rightarrow> nat \<Rightarrow> string list \<Rightarrow> string list option" where
  "split_str_loop s delimiter pos ret =
     (if pos < length s then
        (case str_find s delimiter pos of
           None \<Rightarrow> Some (ret @ [drop pos s])
         | Some next \<Rightarrow>
             split_str_loop s delimiter (next + length delimiter)
               (ret @ [str_substr s pos (next - pos)]))
      else Some ret)"

definition split_str :: "string \<Rightarrow> string \<Rightarrow> string list option" where
  "split_str s delimiter = split_str_loop s delimiter 0 []"

fun join_str_loop :: "string \<Rightarrow> string list \<Rightarrow> string \<Rightarrow> string" where
  "join_str_loop ret [] delimiter = ret"
| "join_str_loop ret (s # ss) delimiter =
     join_str_loop ((if ret \<noteq> [] then ret @ delimiter else ret) @ s) ss delimiter"

definition join_str :: "string list \<Rightarrow> string \<Rightarrow> string" where
  "join_str list delimiter = join_str_loop [] list delimiter"

definition str_contains :: "string \<Rightarrow> string \<Rightarrow> bool" where
  "str_contains s ss \<longleftrightarrow> str_find s ss 0 \<noteq> None"

text \<open>\<open>StringCmp\<close>: the order of \<open>std::string_view\<close>, byte by byte.\<close>

fun StringCmp :: "string \<Rightarrow> string \<Rightarrow> bool" where
  "StringCmp a [] = False"
| "StringCmp [] (y # b) = True"
| "StringCmp (x # a) (y # b) =
     ((of_char x :: nat) < of_char y \<or> (of_char x :: nat) = of_char y \<and> StringCmp a b)"

text \<open>\<open>new_daemon_thread\<close>: what \<open>pthread_create\<close> returns for a detached thread is stored in \<open>errno\<close>, which the error
  report in between may change (\<open>report\<close>).  The result and \<open>errno\<close>.\<close>

definition new_daemon_thread :: "(bool \<Rightarrow> 'entry \<Rightarrow> 'arg \<Rightarrow> int) \<Rightarrow> (int \<Rightarrow> int) \<Rightarrow> 'entry \<Rightarrow> 'arg \<Rightarrow> int" where
  "new_daemon_thread pthread_create report entry arg =
     (let errno = pthread_create True entry arg in if errno \<noteq> 0 then report errno else errno)"

definition reversed :: "'a list \<Rightarrow> 'a list" where
  "reversed base = rev base"

definition align_to :: "u64 \<Rightarrow> u64 \<Rightarrow> u64" where
  "align_to v a = (v + a - 1) div a * a"

definition RoundUpTo :: "u64 \<Rightarrow> u64 \<Rightarrow> u64" where
  "RoundUpTo v sz = v + sz - 1 - ((v + sz - 1) AND (sz - 1))"

section \<open>Parsing decimal numbers\<close>

definition digit :: "char \<Rightarrow> bool" where
  "digit c \<longleftrightarrow> 48 \<le> (of_char c :: nat) \<and> (of_char c :: nat) \<le> 57"

lemma digit_not_NUL [simp]: "digit c \<Longrightarrow> c \<noteq> NUL"
  by (auto simp: digit_def)

lemma digit_char_of: "d < 10 \<Longrightarrow> digit (char_of (48 + d :: nat))"
  by (simp add: digit_def)

lemma digit_show_nat: "\<forall>c \<in> set (show_nat n). digit c"
  using show_nat_digits by (auto simp: digit_def)

lemma parse_int_loop_digit: "digit c \<Longrightarrow>
    parse_int_loop v (c # cs) = parse_int_loop (v * 10 + of_char c - 48) cs"
  using digit_not_NUL [of c] by (auto simp: digit_def)

lemma parse_int_loop_snoc:
  "\<forall>c \<in> set ds. digit c \<Longrightarrow> digit c' \<Longrightarrow>
   parse_int_loop v (ds @ [c']) = parse_int_loop v ds * 10 + of_char c' - 48"
  by (induction ds arbitrary: v)
    (auto simp: parse_int_loop_digit simp del: parse_int_loop.simps(2))

lemma parse_int_loop_show_nat: "parse_int_loop 0 (show_nat n) = word_of_nat n"
proof (induction n rule: show_nat.induct)
  case (1 n)
  have oc: "(of_char (char_of (48 + d :: nat)) :: u32) = 48 + word_of_nat d" if "d < 10" for d
  proof -
    have "(of_char (char_of (48 + d :: nat)) :: u32) = word_of_nat (of_char (char_of (48 + d :: nat)))"
      by (simp only: of_nat_of_char)
    also have "\<dots> = word_of_nat (48 + d)" using that by simp
    also have "\<dots> = 48 + word_of_nat d" by simp
    finally show ?thesis .
  qed
  show ?case
  proof (cases "n < 10")
    case True
    then show ?thesis
      using digit_char_of [OF True] oc [OF True]
      by (subst show_nat.simps) (simp add: parse_int_loop_digit del: parse_int_loop.simps(2))
  next
    case False
    then have IH: "parse_int_loop 0 (show_nat (n div 10)) = word_of_nat (n div 10)"
      by (rule "1.IH")
    have "word_of_nat n = (word_of_nat (n div 10 * 10 + n mod 10) :: u32)" by simp
    also have "\<dots> = word_of_nat (n div 10) * 10 + word_of_nat (n mod 10)"
      by (simp only: of_nat_add of_nat_mult of_nat_numeral)
    finally show ?thesis
      using False IH oc [of "n mod 10"]
      by (subst show_nat.simps)
        (simp add: parse_int_loop_snoc digit_show_nat digit_char_of del: parse_int_loop.simps(2))
  qed
qed

lemma sint_word_of_nat_small: "n < 2 ^ 31 \<Longrightarrow> sint (word_of_nat n :: u32) = int n"
  by (simp add: signed_of_nat signed_take_bit_int_eq_self)

lemma parse_int_show_nat: "n < 2 ^ 31 \<Longrightarrow> parse_int (show_nat n) = int n"
  by (simp add: parse_int_def parse_int_loop_show_nat sint_word_of_nat_small)

lemma parse_int_loop_non_digit:
  "\<forall>c \<in> set ds. digit c \<Longrightarrow> \<not> digit c' \<Longrightarrow> c' \<noteq> NUL \<Longrightarrow>
   parse_int_loop v (ds @ c' # cs) = -1"
  by (induction ds arbitrary: v)
    (auto simp: parse_int_loop_digit digit_def simp del: parse_int_loop.simps(2),
     auto simp: digit_def)

section \<open>Splitting and joining\<close>

lemma split_str_loop_total:
  assumes "d \<noteq> []"
  shows "\<exists>r. split_str_loop s d pos ret = Some r"
proof (induction "length s - pos" arbitrary: pos ret rule: less_induct)
  case less
  show ?case
  proof (cases "pos < length s")
    case True
    show ?thesis
    proof (cases "str_find s d pos")
      case None
      with True show ?thesis by (subst split_str_loop.simps) simp
    next
      case (Some next')
      then have "pos \<le> next'" by (auto simp: str_find_def split: if_splits)
      with assms True have "length s - (next' + length d) < length s - pos"
        by (cases d) auto
      from less [OF this] True Some show ?thesis by (subst split_str_loop.simps) simp
    qed
  next
    case False
    then show ?thesis by (subst split_str_loop.simps) simp
  qed
qed

lemma split_str_loop_diverges:
  assumes "split_str_loop s d pos ret = Some r"
  shows "d = [] \<longrightarrow> pos \<ge> length s"
proof (rule split_str_loop.raw_induct
    [where P = "\<lambda>s d pos ret r. d = [] \<longrightarrow> pos \<ge> length s", OF _ assms])
  fix f s d pos ret r
  assume IH: "\<And>s d pos ret r. f s d pos ret = Some r \<Longrightarrow> d = [] \<longrightarrow> length s \<le> pos"
    and eq: "(if pos < length s then
        (case str_find s d pos of
           None \<Rightarrow> Some (ret @ [drop pos s])
         | Some next \<Rightarrow>
             f s d (next + length d) (ret @ [str_substr s pos (next - pos)]))
      else Some ret) = Some r"
  show "d = [] \<longrightarrow> length s \<le> pos"
    using eq by (fastforce simp: str_find_def split: if_splits dest: IH)
qed

text \<open>The reference: pieces with the delimiter between them.\<close>

fun sep_by :: "string \<Rightarrow> string list \<Rightarrow> string" where
  "sep_by d [] = []"
| "sep_by d [x] = x"
| "sep_by d (x # y # zs) = x @ d @ sep_by d (y # zs)"

lemma sep_by_Cons: "zs \<noteq> [] \<Longrightarrow> sep_by d (x # zs) = x @ d @ sep_by d zs"
  by (cases zs) auto

definition split_ok :: "string \<Rightarrow> string \<Rightarrow> string list \<Rightarrow> bool" where
  "split_ok s d xs \<longleftrightarrow> (s = sep_by d xs \<or> s = sep_by d xs @ d) \<and> (\<forall>x \<in> set xs. \<not> sublist d x)"

lemma find_sub_piece: "find_sub d s = Some i \<Longrightarrow> d \<noteq> [] \<Longrightarrow> \<not> sublist d (take i s)"
proof
  assume fs: "find_sub d s = Some i" and d: "d \<noteq> []" and "sublist d (take i s)"
  then obtain p q where pq: "take i s = p @ d @ q" by (auto simp: sublist_def)
  have "length (take i s) \<le> i" by simp
  then have "length p < i" using d unfolding pq by (cases d) auto
  moreover have "prefix d (drop (length p) s)"
  proof -
    have "s = (p @ d @ q) @ drop i s" using pq by (metis append_take_drop_id)
    then have "drop (length p) s = d @ q @ drop i s" by (metis append.assoc append_eq_conv_conj)
    then show ?thesis by simp
  qed
  ultimately show False using find_sub_first [OF fs] by blast
qed

text \<open>The loop's invariant: the text before \<open>pos\<close> is the pieces found so far, each followed by the
  delimiter.\<close>

lemma sep_by_pieces: "concat (map (\<lambda>x. x @ d) xs) @ y = sep_by d (xs @ [y])"
proof (induction xs)
  case (Cons x xs)
  then show ?case by (cases "xs @ [y]") (auto simp: sep_by_Cons)
qed simp

text \<open>The loop at its end, and what one piece adds to the part of the text already split.\<close>

lemma split_ok_end:
  assumes "s = concat (map (\<lambda>x. x @ d) ret)" and "\<forall>x \<in> set ret. \<not> sublist d x"
  shows "split_ok s d ret"
proof (cases ret rule: rev_cases)
  case Nil
  with assms show ?thesis by (simp add: split_ok_def)
next
  case (snoc xs y)
  with assms show ?thesis using sep_by_pieces [of d xs y] by (simp add: split_ok_def)
qed

lemma split_piece_taken:
  assumes "find_sub d (drop pos s) = Some i"
  shows "take (pos + i + length d) s = take pos s @ take i (drop pos s) @ d"
proof -
  note fs = find_sub_Some [OF assms]
  have "drop pos s = take i (drop pos s) @ d @ drop (i + length d) (drop pos s)"
    using fs by (intro prefix_drop_split) simp
  then have "take (i + length d) (drop pos s) = take i (drop pos s) @ d"
    using fs by (metis append.assoc append_eq_conv_conj length_append length_take min.absorb2 add_leD1)
  then show ?thesis by (simp add: take_add add.assoc)
qed

lemma split_str_loop_correct:
  assumes "d \<noteq> []" and "split_str_loop s d pos ret = Some r"
    and "take pos s = concat (map (\<lambda>x. x @ d) ret)" and "pos \<le> length s"
    and "\<forall>x \<in> set ret. \<not> sublist d x"
  shows "split_ok s d r"
  using assms
proof (induction "length s - pos" arbitrary: pos ret rule: less_induct)
  case less
  show ?case
  proof (cases "pos < length s")
    case False
    then have "split_str_loop s d pos ret = Some ret" by (subst split_str_loop.simps) simp
    with False less.prems show ?thesis using split_ok_end [of s d ret] by auto
  next
    case True
    show ?thesis
    proof (cases "find_sub d (drop pos s)")
      case None
      then have "r = ret @ [drop pos s]"
        using True less.prems(2) by (simp add: split_str_loop.simps [of s d pos ret] str_find_def)
      moreover have "s = concat (map (\<lambda>x. x @ d) ret) @ drop pos s"
        using less.prems(3) by (metis append_take_drop_id)
      ultimately show ?thesis
        using None less.prems(5) sep_by_pieces [of d ret "drop pos s"] by (auto simp: split_ok_def find_sub_None)
    next
      case (Some i)
      note fs = find_sub_Some [OF Some]
      let ?p = "pos + i + length d" and ?ret = "ret @ [take i (drop pos s)]"
      have run: "split_str_loop s d ?p ?ret = Some r"
        using True less.prems(2) Some
        by (simp add: split_str_loop.simps [of s d pos ret] str_find_def str_substr_def add.assoc)
      have pre: "take ?p s = concat (map (\<lambda>x. x @ d) ?ret)"
        using less.prems(3) split_piece_taken [OF Some] by simp
      have len: "?p \<le> length s" using fs True by auto
      have "length s - ?p < length s - pos" using True less.prems(1) by (cases d) auto
      from less.hyps [OF this less.prems(1) run pre len] find_sub_piece [OF Some less.prems(1)]
        less.prems(5)
      show ?thesis by auto
    qed
  qed
qed

lemma str_contains_sublist: "str_contains s ss \<longleftrightarrow> sublist ss s"
  using find_sub_None [of ss s] by (auto simp: str_contains_def str_find_def)

section \<open>Properties\<close>

text \<open>C35: \<open>split_str\<close> always returns, except on a non-empty text with an empty delimiter, where the position never
  moves and the loop does not end.\<close>

theorem split_str_returns_iff: "split_str s d = None \<longleftrightarrow> d = [] \<and> s \<noteq> []"
proof (cases "d = []")
  case True
  have "split_str_loop [] d 0 [] = Some []" by (simp add: split_str_loop.simps)
  moreover have "split_str_loop s d 0 [] = None" if "s \<noteq> []"
    using split_str_loop_diverges [of s d 0 "[]"] True that by (cases "split_str_loop s d 0 []") auto
  ultimately show ?thesis using True by (cases "s = []") (auto simp: split_str_def)
next
  case False
  then show ?thesis using split_str_loop_total [OF False, of s 0 "[]"] by (auto simp: split_str_def)
qed

text \<open>The pieces of \<open>split_str\<close> contain no delimiter, and put together again with the delimiter between
  them they are the text, less at most one delimiter at its end.\<close>

lemma split_str_pieces:
  assumes "d \<noteq> []"
  shows "\<exists>r. split_str s d = Some r \<and> (sep_by d r = s \<or> sep_by d r @ d = s) \<and>
      (\<forall>x \<in> set r. \<not> str_contains x d)"
proof -
  obtain r where r: "split_str s d = Some r" using split_str_loop_total [OF assms, of s 0 "[]"] by (auto simp: split_str_def)
  have "split_ok s d r"
    by (rule split_str_loop_correct [OF assms r [unfolded split_str_def]]) simp_all
  with r show ?thesis by (auto simp: split_ok_def str_contains_sublist)
qed

lemma split_str_pieces_witness:
  "\<exists>r. split_str ''a:b'' '':'' = Some r \<and> (sep_by '':'' r = ''a:b'' \<or> sep_by '':'' r @ '':'' = ''a:b'')"
  using split_str_pieces [of "'':''" "''a:b''"] by auto

section \<open>The order of strings\<close>

text \<open>\<open>StringCmp\<close> is a strict linear order, as \<open>std::map\<close> asks of it, so that two keys are equivalent only if they are equal.\<close>

lemma StringCmp_irrefl: "\<not> StringCmp a a"
  by (induction a) auto

lemma StringCmp_trans: "StringCmp a b \<Longrightarrow> StringCmp b c \<Longrightarrow> StringCmp a c"
proof (induction a b arbitrary: c rule: StringCmp.induct)
  case (2 y b)
  then show ?case by (cases c) auto
next
  case (3 x a y b)
  then show ?case by (cases c) auto
qed simp

lemma StringCmp_total: "StringCmp a b \<or> a = b \<or> StringCmp b a"
proof (induction a b rule: StringCmp.induct)
  case (1 a)
  then show ?case by (cases a) simp_all
next
  case (3 x a y b)
  then show ?case by (cases "of_char x :: nat" "of_char y :: nat" rule: linorder_cases) auto
qed simp

interpretation string_cmp: linorder "\<lambda>a b. StringCmp a b \<or> a = b" StringCmp
proof
  fix a b c
  show "StringCmp a b \<longleftrightarrow> (StringCmp a b \<or> a = b) \<and> \<not> (StringCmp b a \<or> b = a)"
    using StringCmp_irrefl StringCmp_trans by blast
  show "StringCmp a a \<or> a = a" by simp
  show "(StringCmp a b \<or> a = b) \<or> (StringCmp b a \<or> b = a)" using StringCmp_total by blast
  assume ab: "StringCmp a b \<or> a = b"
  then show "a = b" if "StringCmp b a \<or> b = a" using that StringCmp_irrefl StringCmp_trans by blast
  show "StringCmp a c \<or> a = c" if "StringCmp b c \<or> b = c" using ab that StringCmp_trans by blast
qed

end
