(* ===== verification/Socket_Utils.thy ===== *)
theory Socket_Utils
  imports Zygisk_Prelude
begin

text \<open>
  The framed I/O of \<open>loader/src/common/socket_utils.cpp\<close> over a stream socket.

  The socket is a \<open>record\<close>: the bytes the peer has sent and that were not read yet (each with the
  control message that travels with it, if any), the bytes written, and for each direction the
  schedule of what the kernel does at the next calls: interrupt it (\<open>EINTR\<close>), fail it, or transfer
  at most so many bytes.  A used-up schedule transfers all that is asked for; an empty input is the
  end of the stream.  The loops \<open>xread\<close> and \<open>xwrite\<close> are total: each round uses up the schedule or
  transfers a byte.

  The locale \<open>framed\<close> is the contract of a reader of one value: it returns the value whose encoding
  comes first on the stream, however the kernel cuts the transfers.  The readers of the source are
  interpreted in it, and their composition is proved once for all of them.
\<close>

section \<open>The socket and the system calls\<close>

datatype io_event = Intr | Fail | Chunk nat

record cmsg =
  cm_controllen :: nat
  cm_level :: int
  cm_type :: int
  cm_fd :: fd

record sock =
  inq :: "(char \<times> cmsg option) list"
  rsched :: "io_event list"
  outq :: string
  wsched :: "io_event list"

datatype io_ret = Io_Intr | Io_Fail | Io_Bytes string

definition sys_read :: "nat \<Rightarrow> sock \<Rightarrow> io_ret \<times> sock" where
  "sys_read n s =
     (case rsched s of
        [] \<Rightarrow> (Io_Bytes (map fst (take n (inq s))), s\<lparr>inq := drop n (inq s)\<rparr>)
      | Intr # es \<Rightarrow> (Io_Intr, s\<lparr>rsched := es\<rparr>)
      | Fail # es \<Rightarrow> (Io_Fail, s\<lparr>rsched := es\<rparr>)
      | Chunk k # es \<Rightarrow>
          (let m = min n (Suc k)
           in (Io_Bytes (map fst (take m (inq s))), s\<lparr>inq := drop m (inq s), rsched := es\<rparr>)))"

definition sys_write :: "string \<Rightarrow> sock \<Rightarrow> io_ret \<times> sock" where
  "sys_write bs s =
     (case wsched s of
        [] \<Rightarrow> (Io_Bytes bs, s\<lparr>outq := outq s @ bs\<rparr>)
      | Intr # es \<Rightarrow> (Io_Intr, s\<lparr>wsched := es\<rparr>)
      | Fail # es \<Rightarrow> (Io_Fail, s\<lparr>wsched := es\<rparr>)
      | Chunk k # es \<Rightarrow>
          (let b = take (Suc k) bs
           in (Io_Bytes b, s\<lparr>outq := outq s @ b, wsched := es\<rparr>)))"

section \<open>The loops\<close>

text \<open>
  \<open>xread(fd, buf, count)\<close>: returns the byte count or -1, the bytes put into \<open>buf\<close>, and the socket.
  The C++ \<open>continue\<close> of a \<open>do-while\<close> goes to the loop condition, where \<open>ret\<close> is -1 and not 0.
\<close>

function xread_loop :: "nat \<Rightarrow> string \<Rightarrow> sock \<Rightarrow> int \<times> string \<times> sock" where
  "xread_loop cnt buf s =
     (case sys_read (cnt - length buf) s of
        (Io_Intr, s') \<Rightarrow>
          if length buf \<noteq> cnt then xread_loop cnt buf s' else (int (length buf), buf, s')
      | (Io_Fail, s') \<Rightarrow> (-1, buf, s')
      | (Io_Bytes b, s') \<Rightarrow>
          if length (buf @ b) \<noteq> cnt \<and> b \<noteq> [] then xread_loop cnt (buf @ b) s'
          else (int (length (buf @ b)), buf @ b, s'))"
  by pat_completeness auto
termination
  by (relation "measure (\<lambda>(cnt, buf, s). length (rsched s) + length (inq s))")
    (auto simp: sys_read_def Let_def split: list.splits io_event.splits if_splits)

declare xread_loop.simps [simp del]

definition xread :: "nat \<Rightarrow> sock \<Rightarrow> int \<times> string \<times> sock" where
  "xread cnt s = xread_loop cnt [] s"

function xwrite_loop :: "string \<Rightarrow> nat \<Rightarrow> sock \<Rightarrow> nat \<times> sock" where
  "xwrite_loop buf write_sz s =
     (case sys_write (drop write_sz buf) s of
        (Io_Intr, s') \<Rightarrow>
          if write_sz \<noteq> length buf then xwrite_loop buf write_sz s' else (write_sz, s')
      | (Io_Fail, s') \<Rightarrow> (write_sz, s')
      | (Io_Bytes b, s') \<Rightarrow>
          if write_sz + length b \<noteq> length buf \<and> b \<noteq> []
          then xwrite_loop buf (write_sz + length b) s'
          else (write_sz + length b, s'))"
  by pat_completeness auto
termination
  by (relation "measure (\<lambda>(buf, write_sz, s). length (wsched s) + (length buf - write_sz))")
    (auto simp: sys_write_def Let_def split: list.splits io_event.splits if_splits)

declare xwrite_loop.simps [simp del]

definition xwrite :: "string \<Rightarrow> sock \<Rightarrow> nat \<times> sock" where
  "xwrite buf s = xwrite_loop buf 0 s"


section \<open>Typed reads and writes\<close>

definition read_exact_or :: "nat \<Rightarrow> 'a::len word \<Rightarrow> sock \<Rightarrow> 'a word \<times> sock" where
  "read_exact_or sz fail s =
     (case xread sz s of (r, b, s') \<Rightarrow> (if r = int sz then dec_word b else fail, s'))"

definition write_exact :: "string \<Rightarrow> sock \<Rightarrow> bool \<times> sock" where
  "write_exact val s = (case xwrite val s of (n, s') \<Rightarrow> (length val = n, s'))"

definition read_u8 :: "sock \<Rightarrow> u8 \<times> sock" where
  "read_u8 s = read_exact_or 1 0 s"

definition read_u32 :: "sock \<Rightarrow> u32 \<times> sock" where
  "read_u32 s = read_exact_or 4 0 s"

definition read_usize :: "sock \<Rightarrow> u64 \<times> sock" where
  "read_usize s = read_exact_or 8 0 s"

definition write_usize :: "u64 \<Rightarrow> sock \<Rightarrow> bool \<times> sock" where
  "write_usize val s = write_exact (enc_u64 val) s"

definition write_u8 :: "u8 \<Rightarrow> sock \<Rightarrow> bool \<times> sock" where
  "write_u8 val s = write_exact (enc_u8 val) s"

definition write_u32 :: "u32 \<Rightarrow> sock \<Rightarrow> bool \<times> sock" where
  "write_u32 val s = write_exact (enc_u32 val) s"

text \<open>
  \<open>read_string\<close> ignores the result of \<open>xread\<close> and returns the buffer as a C string.  Bytes that were
  not read are uninitialised; they are looked at unless a NUL comes before them.
\<close>

definition read_string :: "sock \<Rightarrow> (string \<times> sock) res" where
  "read_string s =
     (case read_usize s of (len, s1) \<Rightarrow>
        if len + 1 = 0 then Inl Out_Of_Bounds
        else
          (case xread (unat len) s1 of (_, b, s2) \<Rightarrow>
             if NUL \<in> set b \<or> length b = unat len then Inr (c_str b, s2) else Inl Uninit_Read))"

definition write_string :: "string \<Rightarrow> sock \<Rightarrow> bool \<times> sock" where
  "write_string str s =
     (case write_usize (word_of_nat (length str)) s of (ok, s1) \<Rightarrow>
        if ok then (case xwrite str s1 of (n, s2) \<Rightarrow> (length str = n, s2)) else (False, s1))"

section \<open>Passing file descriptors\<close>

definition SOL_SOCKET :: int where "SOL_SOCKET = 1"
definition SCM_RIGHTS :: int where "SCM_RIGHTS = 1"

text \<open>\<open>CMSG_SPACE(sizeof(int))\<close> on LP64.\<close>

definition CMSG_SPACE_int :: nat where "CMSG_SPACE_int = 24"

datatype rm_ret = Rm_Fail | Rm_Ok string "cmsg option"

text \<open>\<open>recvmsg\<close> with \<open>MSG_WAITALL\<close>: the bytes asked for, and the first control message that came with
  them.\<close>

fun first_cmsg :: "(char \<times> cmsg option) list \<Rightarrow> cmsg option" where
  "first_cmsg [] = None"
| "first_cmsg ((c, Some m) # bs) = Some m"
| "first_cmsg ((c, None) # bs) = first_cmsg bs"

definition xrecvmsg :: "nat \<Rightarrow> sock \<Rightarrow> rm_ret \<times> sock" where
  "xrecvmsg n s =
     (let ok = (\<lambda>es. (Rm_Ok (map fst (take n (inq s))) (first_cmsg (take n (inq s))),
                       s\<lparr>inq := drop n (inq s), rsched := es\<rparr>))
      in case rsched s of
           [] \<Rightarrow> ok []
         | Intr # es \<Rightarrow> (Rm_Fail, s\<lparr>rsched := es\<rparr>)
         | Fail # es \<Rightarrow> (Rm_Fail, s\<lparr>rsched := es\<rparr>)
         | Chunk k # es \<Rightarrow> ok es)"

text \<open>
  \<open>recv_fds\<close> does not look at the result of \<open>xrecvmsg\<close>.  When that failed, \<open>msg\<close> is as it was set up,
  its control length is still \<open>bufsz\<close>, and the header in the uninitialised \<open>cmsgbuf\<close> is read.
\<close>

definition recv_fds :: "nat \<Rightarrow> sock \<Rightarrow> (fd option \<times> sock) res" where
  "recv_fds bufsz s =
     (case xrecvmsg 4 s of
        (Rm_Fail, s') \<Rightarrow> Inl Uninit_Read
      | (Rm_Ok _ None, s') \<Rightarrow> Inr (None, s')
      | (Rm_Ok _ (Some m), s') \<Rightarrow>
          if cm_controllen m \<noteq> bufsz \<or> cm_level m \<noteq> SOL_SOCKET \<or> cm_type m \<noteq> SCM_RIGHTS
          then Inr (None, s') else Inr (Some (cm_fd m), s'))"

definition recv_fd :: "sock \<Rightarrow> (fd \<times> sock) res" where
  "recv_fd s =
     bind_r (recv_fds CMSG_SPACE_int s)
       (\<lambda>(data, s'). case data of None \<Rightarrow> Inr (-1, s') | Some r \<Rightarrow> Inr (r, s'))"

text \<open>The \<open>for\<close> loop that reads as many values as the count says.\<close>

fun read_n :: "(sock \<Rightarrow> ('a \<times> sock) res) \<Rightarrow> nat \<Rightarrow> sock \<Rightarrow> ('a list \<times> sock) res" where
  "read_n rd 0 s = Inr ([], s)"
| "read_n rd (Suc n) s =
     bind_r (rd s) (\<lambda>(x, s1). bind_r (read_n rd n s1) (\<lambda>(xs, s2). Inr (x # xs, s2)))"

section \<open>What the loops transfer\<close>

definition reliable :: "sock \<Rightarrow> bool" where
  "reliable s \<longleftrightarrow> Fail \<notin> set (rsched s)"

definition plain :: "string \<Rightarrow> (char \<times> cmsg option) list" where
  "plain bs = map (\<lambda>c. (c, None)) bs"

lemma length_plain [simp]: "length (plain bs) = length bs"
  by (simp add: plain_def)

lemma map_fst_plain [simp]: "map fst (plain bs) = bs"
  by (simp add: plain_def comp_def)

lemma plain_append [simp]: "plain (a @ b) = plain a @ plain b"
  by (simp add: plain_def)

lemma sys_read_reliable:
  assumes "reliable s"
  obtains (intr) "rsched s \<noteq> []" "sys_read n s = (Io_Intr, s\<lparr>rsched := tl (rsched s)\<rparr>)"
  | (bytes) m where "m \<le> n" "n > 0 \<longrightarrow> m > 0"
      "sys_read n s = (Io_Bytes (map fst (take m (inq s))),
                       s\<lparr>inq := drop m (inq s), rsched := tl (rsched s)\<rparr>)"
proof (cases "rsched s")
  case Nil
  then have "sys_read n s = (Io_Bytes (map fst (take n (inq s))),
                       s\<lparr>inq := drop n (inq s), rsched := tl (rsched s)\<rparr>)"
    by (cases s) (simp add: sys_read_def)
  then show thesis by (intro bytes [of n]) auto
next
  case (Cons e es)
  then show thesis
  proof (cases e)
    case (Chunk k)
    with Cons have "sys_read n s = (Io_Bytes (map fst (take (min n (Suc k)) (inq s))),
                       s\<lparr>inq := drop (min n (Suc k)) (inq s), rsched := tl (rsched s)\<rparr>)"
      by (simp add: sys_read_def Let_def)
    then show thesis by (intro bytes [of "min n (Suc k)"]) auto
  qed (use assms Cons intr in \<open>auto simp: reliable_def sys_read_def\<close>)
qed

lemma reliable_tl [simp]: "reliable s \<Longrightarrow> reliable (s\<lparr>inq := q, rsched := tl (rsched s)\<rparr>)"
  "reliable s \<Longrightarrow> reliable (s\<lparr>rsched := tl (rsched s)\<rparr>)"
  by (cases "rsched s"; auto simp: reliable_def)+

lemma set_tl_subset: "set (tl xs) \<subseteq> set xs"
  by (cases xs) auto

text \<open>Without a failing call, \<open>xread\<close> transfers what is asked for or what there is, whatever the
  interrupts and the chunk sizes.\<close>

lemma xread_loop_reliable:
  "reliable s \<Longrightarrow> length buf \<le> cnt \<Longrightarrow>
   \<exists>es. set es \<subseteq> set (rsched s) \<and>
     xread_loop cnt buf s =
       (int (length buf + min (cnt - length buf) (length (inq s))),
        buf @ map fst (take (cnt - length buf) (inq s)),
        s\<lparr>inq := drop (cnt - length buf) (inq s), rsched := es\<rparr>)"
proof (induction cnt buf s rule: xread_loop.induct)
  case (1 cnt buf s)
  let ?n = "cnt - length buf" and ?es = "tl (rsched s)"
  from "1.prems"(1) show ?case
  proof (cases rule: sys_read_reliable [where n = ?n])
    case intr
    show ?thesis
    proof (cases "length buf = cnt")
      case True
      then have "xread_loop cnt buf s = (int cnt, buf, s\<lparr>rsched := ?es\<rparr>)"
        using intr by (simp add: xread_loop.simps [of cnt buf s])
      moreover have "s\<lparr>inq := inq s, rsched := ?es\<rparr> = s\<lparr>rsched := ?es\<rparr>" by (cases s) simp
      ultimately show ?thesis using True set_tl_subset [of "rsched s"] by (intro exI [of _ ?es]) simp
    next
      case False
      then have step: "xread_loop cnt buf s = xread_loop cnt buf (s\<lparr>rsched := ?es\<rparr>)"
        using intr by (simp add: xread_loop.simps [of cnt buf s])
      from "1.IH"(1) [OF intr(2) [symmetric] refl] False "1.prems" set_tl_subset [of "rsched s"]
      show ?thesis unfolding step by auto
    qed
  next
    case (bytes m)
    let ?b = "map fst (take m (inq s))"
    let ?s = "s\<lparr>inq := drop m (inq s), rsched := ?es\<rparr>"
    show ?thesis
    proof (cases "length (buf @ ?b) \<noteq> cnt \<and> ?b \<noteq> []")
      case True
      have le: "length (buf @ ?b) \<le> cnt" using bytes(1) "1.prems"(2) by auto
      have step: "xread_loop cnt buf s = xread_loop cnt (buf @ ?b) ?s"
        using True bytes(3) by (simp add: xread_loop.simps [of cnt buf s])
      have split: "?n = m + (?n - m)" using bytes(1) by simp
      have "take ?n (inq s) = take m (inq s) @ take (?n - m) (drop m (inq s))"
        and "drop ?n (inq s) = drop (?n - m) (drop m (inq s))"
        by (metis split take_add, metis split drop_drop add.commute)
      moreover have "cnt - length (buf @ ?b) = (if m \<le> length (inq s) then ?n - m else ?n - length (inq s))"
        by auto
      ultimately show ?thesis
        using "1.IH"(2) [OF bytes(3) [symmetric] refl True] le "1.prems" bytes(1)
          set_tl_subset [of "rsched s"]
        unfolding step by (auto simp: min_def split: if_splits)
    next
      case False
      have "xread_loop cnt buf s = (int (length (buf @ ?b)), buf @ ?b, ?s)"
        using False bytes(3) by (auto simp: xread_loop.simps [of cnt buf s])
      moreover have "m = ?n \<or> inq s = []"
        using False bytes(1,2) "1.prems"(2) by (auto simp: min_def split: if_splits)
      ultimately show ?thesis
        using bytes(1) set_tl_subset [of "rsched s"] by (intro exI [of _ ?es]) (auto simp: min_def)
    qed
  qed
qed


lemma xread_reliable:
  assumes "reliable s"
  obtains es where "set es \<subseteq> set (rsched s)"
    "xread cnt s = (int (min cnt (length (inq s))), map fst (take cnt (inq s)),
                    s\<lparr>inq := drop cnt (inq s), rsched := es\<rparr>)"
  using xread_loop_reliable [OF assms, of "[]" cnt] by (auto simp: xread_def)

lemma sys_write_cases:
  obtains (intr) "wsched s \<noteq> []" "sys_write bs s = (Io_Intr, s\<lparr>wsched := tl (wsched s)\<rparr>)"
  | (fail) "Fail \<in> set (wsched s)" "sys_write bs s = (Io_Fail, s\<lparr>wsched := tl (wsched s)\<rparr>)"
  | (bytes) m where "m \<le> length bs" "bs \<noteq> [] \<longrightarrow> m > 0"
      "sys_write bs s = (Io_Bytes (take m bs),
                         s\<lparr>outq := outq s @ take m bs, wsched := tl (wsched s)\<rparr>)"
proof (cases "wsched s")
  case Nil
  then have "sys_write bs s = (Io_Bytes (take (length bs) bs),
               s\<lparr>outq := outq s @ take (length bs) bs, wsched := tl (wsched s)\<rparr>)"
    by (cases s) (simp add: sys_write_def)
  then show thesis by (intro bytes [of "length bs"]) auto
next
  case (Cons e es)
  then show thesis
  proof (cases e)
    case (Chunk k)
    let ?m = "min (length bs) (Suc k)"
    from Chunk Cons have "sys_write bs s = (Io_Bytes (take ?m bs),
                       s\<lparr>outq := outq s @ take ?m bs, wsched := tl (wsched s)\<rparr>)"
      by (simp add: sys_write_def Let_def min_def)
    then show thesis by (intro bytes [of ?m]) auto
  qed (use Cons intr fail in \<open>auto simp: sys_write_def\<close>)
qed

text \<open>\<open>xwrite\<close> always leaves a prefix of the buffer on the wire, of the length it returns; all of it
  when no call fails.\<close>

lemma xwrite_loop_prefix:
  "w \<le> length buf \<Longrightarrow> xwrite_loop buf w s = (n, s') \<Longrightarrow>
   w \<le> n \<and> n \<le> length buf \<and> outq s' = outq s @ take (n - w) (drop w buf) \<and>
   inq s' = inq s \<and> rsched s' = rsched s \<and>
   (Fail \<notin> set (wsched s) \<longrightarrow> n = length buf \<and> Fail \<notin> set (wsched s'))"
proof (induction buf w s rule: xwrite_loop.induct)
  case (1 buf w s)
  let ?es = "tl (wsched s)"
  have tl: "Fail \<notin> set (wsched s) \<Longrightarrow> Fail \<notin> set ?es" by (cases "wsched s") auto
  show ?case
  proof (cases rule: sys_write_cases [of s "drop w buf"])
    case intr
    then have "xwrite_loop buf w s =
        (if w \<noteq> length buf then xwrite_loop buf w (s\<lparr>wsched := ?es\<rparr>) else (w, s\<lparr>wsched := ?es\<rparr>))"
      by (simp add: xwrite_loop.simps [of buf w s])
    with "1.IH"(1) [OF intr(2) [symmetric] refl] "1.prems" tl show ?thesis
      by (auto split: if_splits)
  next
    case fail
    then have "xwrite_loop buf w s = (w, s\<lparr>wsched := ?es\<rparr>)"
      by (simp add: xwrite_loop.simps [of buf w s])
    with "1.prems" fail show ?thesis by auto
  next
    case (bytes m)
    let ?s = "s\<lparr>outq := outq s @ take m (drop w buf), wsched := ?es\<rparr>"
    have m: "length (take m (drop w buf)) = m" using bytes(1) by simp
    have step: "xwrite_loop buf w s =
        (if w + m \<noteq> length buf \<and> m \<noteq> 0 then xwrite_loop buf (w + m) ?s else (w + m, ?s))"
      using bytes(3) m by (cases m) (auto simp: xwrite_loop.simps [of buf w s])
    show ?thesis
    proof (cases "w + m \<noteq> length buf \<and> m \<noteq> 0")
      case True
      then have nonempty: "w + length (take m (drop w buf)) \<noteq> length buf \<and> take m (drop w buf) \<noteq> []"
        using m by auto
      have le: "w + m \<le> length buf" using bytes(1) "1.prems"(1) by simp
      have run: "xwrite_loop buf (w + m) ?s = (n, s')"
        using step True "1.prems"(2) by simp
      note ih = "1.IH"(2) [OF bytes(3) [symmetric] refl nonempty, unfolded m, OF le run]
      then have e: "n - w = m + (n - (w + m))" by arith
      have "take (n - w) (drop w buf) = take m (drop w buf) @ take (n - (w + m)) (drop (w + m) buf)"
        unfolding e take_add drop_drop by (simp add: add.commute)
      with ih tl show ?thesis by auto
    next
      case False
      then have "n = w + m" "s' = ?s" using step "1.prems"(2) by auto
      with False bytes "1.prems"(1) tl show ?thesis by auto
    qed
  qed
qed

lemma xwrite_all:
  assumes "Fail \<notin> set (wsched s)"
  obtains s' where "xwrite buf s = (length buf, s')" "outq s' = outq s @ buf"
    "inq s' = inq s" "rsched s' = rsched s" "Fail \<notin> set (wsched s')"
proof (cases "xwrite_loop buf 0 s")
  case (Pair n s')
  from xwrite_loop_prefix [OF _ Pair] assms show thesis
    by (intro that [of s']) (auto simp: xwrite_def Pair)
qed

section \<open>The contract of a reader\<close>

locale framed =
  fixes rd :: "sock \<Rightarrow> ('a \<times> sock) res"
    and enc :: "'a \<Rightarrow> (char \<times> cmsg option) list"
    and good :: "'a \<Rightarrow> bool"
    and calm :: "sock \<Rightarrow> bool"
  assumes rd_enc: "calm s \<Longrightarrow> good x \<Longrightarrow> inq s = enc x @ rest \<Longrightarrow>
    \<exists>s'. rd s = Inr (x, s') \<and> inq s' = rest \<and> calm s' \<and> outq s' = outq s \<and> wsched s' = wsched s"
begin

lemma read_n_enc:
  "calm s \<Longrightarrow> \<forall>x \<in> set xs. good x \<Longrightarrow> inq s = concat (map enc xs) @ rest \<Longrightarrow>
   \<exists>s'. read_n rd (length xs) s = Inr (xs, s') \<and> inq s' = rest \<and> calm s' \<and>
     outq s' = outq s \<and> wsched s' = wsched s"
proof (induction xs arbitrary: s)
  case (Cons x xs)
  have "inq s = enc x @ (concat (map enc xs) @ rest)" using Cons.prems(3) by simp
  with rd_enc [OF Cons.prems(1), of x] Cons.prems(2)
  obtain s1 where s1: "rd s = Inr (x, s1)" "inq s1 = concat (map enc xs) @ rest" "calm s1"
      "outq s1 = outq s" "wsched s1 = wsched s"
    by auto
  from Cons.IH [OF s1(3) _ s1(2)] Cons.prems(2) s1 show ?case by auto
qed simp

end

locale framed_pair = fst: framed rd1 enc1 good1 calm + snd: framed rd2 enc2 good2 calm
  for rd1 :: "sock \<Rightarrow> ('a \<times> sock) res" and enc1 good1
    and rd2 :: "sock \<Rightarrow> ('b \<times> sock) res" and enc2 good2
    and calm :: "sock \<Rightarrow> bool"
begin

lemma both_enc:
  assumes "calm s" "good1 x" "good2 y" "inq s = enc1 x @ enc2 y @ rest"
  shows "\<exists>s'. bind_r (rd1 s) (\<lambda>(x, s1). bind_r (rd2 s1) (\<lambda>(y, s2). Inr ((x, y), s2))) = Inr ((x, y), s') \<and>
    inq s' = rest \<and> calm s' \<and> outq s' = outq s \<and> wsched s' = wsched s"
proof -
  obtain s1 where s1: "rd1 s = Inr (x, s1)" "inq s1 = enc2 y @ rest" "calm s1"
      "outq s1 = outq s" "wsched s1 = wsched s"
    using fst.rd_enc [OF assms(1,2,4)] by auto
  from snd.rd_enc [OF s1(3) assms(3) s1(2)] s1 show ?thesis by auto
qed

end

sublocale framed_pair \<subseteq> pair: framed
  "\<lambda>s. bind_r (rd1 s) (\<lambda>(x, s1). bind_r (rd2 s1) (\<lambda>(y, s2). Inr ((x, y), s2)))"
  "\<lambda>(x, y). enc1 x @ enc2 y" "\<lambda>(x, y). good1 x \<and> good2 y" calm
  by unfold_locales (use both_enc in auto)


section \<open>The readers of the source meet the contract\<close>

definition steady :: "sock \<Rightarrow> bool" where
  "steady s \<longleftrightarrow> Fail \<notin> set (rsched s) \<and> Intr \<notin> set (rsched s)"

lemma steady_reliable: "steady s \<Longrightarrow> reliable s"
  by (simp add: steady_def reliable_def)

lemma reliable_sub: "reliable s \<Longrightarrow> set (rsched s') \<subseteq> set (rsched s) \<Longrightarrow> reliable s'"
  by (auto simp: reliable_def)

lemma steady_sub: "steady s \<Longrightarrow> set (rsched s') \<subseteq> set (rsched s) \<Longrightarrow> steady s'"
  by (auto simp: steady_def)

lemma xread_plain:
  assumes "reliable s" and "inq s = plain bs @ rest"
  obtains es where "set es \<subseteq> set (rsched s)"
    "xread (length bs) s = (int (length bs), bs, s\<lparr>inq := rest, rsched := es\<rparr>)"
  using xread_reliable [OF assms(1), of "length bs"] assms(2) by auto

lemma read_exact_or_plain:
  assumes "reliable s" and "inq s = plain bs @ rest" and "length bs = sz"
  obtains s' where "read_exact_or sz fail s = (dec_word bs, s')" "inq s' = rest"
    "outq s' = outq s" "wsched s' = wsched s" "set (rsched s') \<subseteq> set (rsched s)"
proof -
  obtain es where "set es \<subseteq> set (rsched s)"
    "xread (length bs) s = (int (length bs), bs, s\<lparr>inq := rest, rsched := es\<rparr>)"
    using xread_plain [OF assms(1,2)] .
  with assms(3) that [of "s\<lparr>inq := rest, rsched := es\<rparr>"] show thesis
    by (simp add: read_exact_or_def)
qed

lemma read_usize_plain:
  assumes a: "reliable s" "inq s = plain (enc_u64 w) @ rest"
  obtains s' where "read_usize s = (w, s')" "inq s' = rest"
    "outq s' = outq s" "wsched s' = wsched s" "set (rsched s') \<subseteq> set (rsched s)"
  by (rule read_exact_or_plain [OF a, of 8 "0 :: u64"]) (simp_all add: read_usize_def that)

definition enc_string :: "string \<Rightarrow> string" where
  "enc_string x = enc_u64 (word_of_nat (length x)) @ x"

definition fit_string :: "string \<Rightarrow> bool" where
  "fit_string x \<longleftrightarrow> NUL \<notin> set x \<and> length x < 2 ^ 64 - 1"

definition enc_fd :: "fd \<Rightarrow> (char \<times> cmsg option) list" where
  "enc_fd f = (NUL, Some \<lparr>cm_controllen = CMSG_SPACE_int, cm_level = SOL_SOCKET,
                          cm_type = SCM_RIGHTS, cm_fd = f\<rparr>) # plain [NUL, NUL, NUL]"

lemma unat_length: "length x < 2 ^ 64 - 1 \<Longrightarrow> unat (word_of_nat (length x) :: u64) = length x"
  by (simp add: unat_of_nat take_bit_nat_eq_self)

lemma length_word_no_wrap: "length x < 2 ^ 64 - 1 \<Longrightarrow> (word_of_nat (length x) :: u64) + 1 \<noteq> 0"
proof
  assume len: "length x < 2 ^ 64 - 1" and "(word_of_nat (length x) :: u64) + 1 = 0"
  then have "unat (word_of_nat (Suc (length x)) :: u64) = 0" by (simp add: add.commute)
  moreover have "unat (word_of_nat (Suc (length x)) :: u64) = Suc (length x)"
    using len by (subst unat_of_nat) (simp add: take_bit_nat_eq_self)
  ultimately show False by simp
qed

lemma read_string_enc:
  assumes "reliable s" and "fit_string x" and "inq s = plain (enc_string x) @ rest"
  obtains s' where "read_string s = Inr (x, s')" "inq s' = rest"
    "outq s' = outq s" "wsched s' = wsched s" "set (rsched s') \<subseteq> set (rsched s)"
proof -
  let ?len = "word_of_nat (length x) :: u64"
  have q: "inq s = plain (enc_u64 ?len) @ plain x @ rest"
    using assms(3) by (simp add: enc_string_def)
  obtain s1 where s1: "read_usize s = (?len, s1)" "inq s1 = plain x @ rest"
      "outq s1 = outq s" "wsched s1 = wsched s" "set (rsched s1) \<subseteq> set (rsched s)"
    using read_usize_plain [OF assms(1) q] .
  have "reliable s1" using assms(1) s1(5) by (auto simp: reliable_def)
  then obtain es where "set es \<subseteq> set (rsched s1)"
      "xread (length x) s1 = (int (length x), x, s1\<lparr>inq := rest, rsched := es\<rparr>)"
    using xread_plain s1(2) by blast
  with s1 assms(2) that [of "s1\<lparr>inq := rest, rsched := es\<rparr>"] show thesis
    by (auto simp: read_string_def fit_string_def unat_length length_word_no_wrap c_str_no_nul)
qed

lemma recv_fd_enc:
  assumes "steady s" and "inq s = enc_fd f @ rest"
  obtains s' where "recv_fd s = Inr (f, s')" "inq s' = rest"
    "outq s' = outq s" "wsched s' = wsched s" "set (rsched s') \<subseteq> set (rsched s)"
proof -
  have "xrecvmsg 4 s = (Rm_Ok (map fst (enc_fd f)) (first_cmsg (enc_fd f)),
      s\<lparr>inq := rest, rsched := tl (rsched s)\<rparr>)"
    using assms by (auto simp: xrecvmsg_def steady_def enc_fd_def plain_def Let_def
        split: list.splits io_event.splits)
  with that [of "s\<lparr>inq := rest, rsched := tl (rsched s)\<rparr>"] set_tl_subset [of "rsched s"]
  show thesis by (simp add: recv_fd_def recv_fds_def enc_fd_def)
qed

interpretation rd_u8: framed "\<lambda>s. Inr (read_u8 s)" "\<lambda>w. plain (enc_u8 w)" "\<lambda>_. True" reliable
proof
  fix s x rest
  assume a: "reliable s" "inq s = plain (enc_u8 x) @ rest"
  show "\<exists>s'. Inr (read_u8 s) = Inr (x, s') \<and> inq s' = rest \<and> reliable s' \<and>
      outq s' = outq s \<and> wsched s' = wsched s"
    by (rule read_exact_or_plain [OF a, of 1 "0 :: u8"])
      (use a(1) reliable_sub in \<open>auto simp: read_u8_def\<close>)
qed

interpretation rd_u32: framed "\<lambda>s. Inr (read_u32 s)" "\<lambda>w. plain (enc_u32 w)" "\<lambda>_. True" reliable
proof
  fix s x rest
  assume a: "reliable s" "inq s = plain (enc_u32 x) @ rest"
  show "\<exists>s'. Inr (read_u32 s) = Inr (x, s') \<and> inq s' = rest \<and> reliable s' \<and>
      outq s' = outq s \<and> wsched s' = wsched s"
    by (rule read_exact_or_plain [OF a, of 4 "0 :: u32"])
      (use a(1) reliable_sub in \<open>auto simp: read_u32_def\<close>)
qed

interpretation rd_usize: framed "\<lambda>s. Inr (read_usize s)" "\<lambda>w. plain (enc_u64 w)" "\<lambda>_. True" reliable
proof
  fix s x rest
  assume a: "reliable s" "inq s = plain (enc_u64 x) @ rest"
  show "\<exists>s'. Inr (read_usize s) = Inr (x, s') \<and> inq s' = rest \<and> reliable s' \<and>
      outq s' = outq s \<and> wsched s' = wsched s"
    by (rule read_exact_or_plain [OF a, of 8 "0 :: u64"])
      (use a(1) reliable_sub in \<open>auto simp: read_usize_def\<close>)
qed

interpretation rd_string: framed read_string "\<lambda>x. plain (enc_string x)" fit_string reliable
proof
  fix s x rest
  assume a: "reliable s" "fit_string x" "inq s = plain (enc_string x) @ rest"
  show "\<exists>s'. read_string s = Inr (x, s') \<and> inq s' = rest \<and> reliable s' \<and>
      outq s' = outq s \<and> wsched s' = wsched s"
    by (rule read_string_enc [OF a]) (use a(1) reliable_sub in auto)
qed

text \<open>A module of the \<open>ReadModules\<close> reply is a string followed by a passed descriptor; \<open>recvmsg\<close> is not
  restarted after an interrupt, so this reader needs a steady socket.\<close>

interpretation rd_module: framed_pair read_string "\<lambda>x. plain (enc_string x)" fit_string
  recv_fd enc_fd "\<lambda>_. True" steady
proof
  fix s x rest
  assume a: "steady s" "fit_string x" "inq s = plain (enc_string x) @ rest"
  show "\<exists>s'. read_string s = Inr (x, s') \<and> inq s' = rest \<and> steady s' \<and>
      outq s' = outq s \<and> wsched s' = wsched s"
    by (rule read_string_enc [OF steady_reliable [OF a(1)] a(2,3)])
      (use a(1) steady_sub in auto)
next
  fix s x rest
  assume a: "steady s" "inq s = enc_fd x @ rest"
  show "\<exists>s'. recv_fd s = Inr (x, s') \<and> inq s' = rest \<and> steady s' \<and>
      outq s' = outq s \<and> wsched s' = wsched s"
    by (rule recv_fd_enc [OF a]) (use a(1) steady_sub in auto)
qed

section \<open>Properties\<close>

text \<open>However the kernel cuts a stream into reads, and however often it interrupts them, \<open>xread\<close> on a
  connection that does not fail takes exactly the bytes asked for from the front of the stream, or all
  there are before its end.\<close>

lemma xread_exact:
  assumes "Fail \<notin> set (rsched s)"
  shows "\<exists>es. xread cnt s = (int (min cnt (length (inq s))), map fst (take cnt (inq s)),
                    s\<lparr>inq := drop cnt (inq s), rsched := es\<rparr>)"
  using xread_reliable [of s cnt] assms by (auto simp: reliable_def)

lemma xread_exact_witness:
  "\<exists>es. xread 3 \<lparr>inq = plain ''abcd'', rsched = [Intr, Chunk 0, Intr], outq = [], wsched = []\<rparr> =
     (3, ''abc'', \<lparr>inq = plain ''d'', rsched = es, outq = [], wsched = []\<rparr>)"
  using xread_exact [of "\<lparr>inq = plain ''abcd'', rsched = [Intr, Chunk 0, Intr], outq = [], wsched = []\<rparr>" 3]
  by (simp add: plain_def)

text \<open>Whatever the kernel does, \<open>xwrite\<close> puts a prefix of its buffer on the stream, in order, without
  gaps or repeats, and returns its length; if no write fails it is the whole buffer.\<close>

lemma xwrite_prefix:
  "\<exists>n s'. xwrite buf s = (n, s') \<and> n \<le> length buf \<and> outq s' = outq s @ take n buf \<and>
     (Fail \<notin> set (wsched s) \<longrightarrow> n = length buf)"
proof -
  obtain n s' where "xwrite_loop buf 0 s = (n, s')" by fastforce
  with xwrite_loop_prefix [OF _ this] show ?thesis by (auto simp: xwrite_def)
qed

lemma xwrite_prefix_witness:
  "\<exists>n s'. xwrite ''abc'' \<lparr>inq = [], rsched = [], outq = ''x'', wsched = [Chunk 0, Intr]\<rparr> = (n, s') \<and>
     outq s' = ''xabc''"
  using xwrite_prefix [of "''abc''" "\<lparr>inq = [], rsched = [], outq = ''x'', wsched = [Chunk 0, Intr]\<rparr>"]
  by auto

text \<open>A string written by \<open>write_string\<close> is read back by \<open>read_string\<close> on the other end, under any
  schedule of the two connections without failures, and nothing behind it is consumed.\<close>

lemma string_roundtrip:
  assumes "Fail \<notin> set (wsched a)" and "outq a = []" and "fit_string x"
    and "write_string x a = (ok, a')" and "inq b = plain (outq a') @ rest" and "Fail \<notin> set (rsched b)"
  shows "ok \<and> (\<exists>b'. read_string b = Inr (x, b') \<and> inq b' = rest)"
proof -
  obtain a1 where a1: "xwrite (enc_u64 (word_of_nat (length x))) a = (8, a1)"
      "outq a1 = enc_u64 (word_of_nat (length x))" "Fail \<notin> set (wsched a1)"
    by (rule xwrite_all [OF assms(1), of "enc_u64 (word_of_nat (length x))"]) (simp add: assms(2))
  obtain a2 where a2: "xwrite x a1 = (length x, a2)" "outq a2 = outq a1 @ x"
    by (rule xwrite_all [OF a1(3), of x])
  have "ok" and "outq a' = enc_string x"
    using assms(4) a1 a2 by (auto simp: write_string_def write_usize_def write_exact_def enc_string_def)
  then have "inq b = plain (enc_string x) @ rest" using assms(5) by simp
  moreover have "reliable b" using assms(6) by (simp add: reliable_def)
  ultimately show ?thesis using rd_string.rd_enc [OF _ assms(3)] \<open>ok\<close> by blast
qed

lemma string_roundtrip_witness:
  "\<exists>ok a' b'. write_string ''zygote'' \<lparr>inq = [], rsched = [], outq = [], wsched = [Chunk 2]\<rparr> = (ok, a') \<and>
     read_string \<lparr>inq = plain (outq a'), rsched = [Intr], outq = [], wsched = []\<rparr> = Inr (''zygote'', b')"
proof -
  obtain ok a' where w: "write_string ''zygote'' \<lparr>inq = [], rsched = [], outq = [], wsched = [Chunk 2]\<rparr> = (ok, a')"
    by fastforce
  have "fit_string ''zygote''" by (simp add: fit_string_def)
  from string_roundtrip [OF _ _ this w,
      of "\<lparr>inq = plain (outq a'), rsched = [Intr], outq = [], wsched = []\<rparr>" "[]"] w
  show ?thesis by auto
qed

text \<open>A failed \<open>recvmsg\<close>, also one that was only interrupted, makes \<open>recv_fd\<close> read the control buffer it
  never filled.\<close>

lemma recv_fd_uninitialised:
  assumes "rsched s = e # es" and "e = Intr \<or> e = Fail"
  shows "recv_fd s = Inl Uninit_Read"
  using assms by (auto simp: recv_fd_def recv_fds_def xrecvmsg_def Let_def)

lemma recv_fd_uninitialised_witness:
  "recv_fd \<lparr>inq = enc_fd 5, rsched = [Intr], outq = [], wsched = []\<rparr> = Inl Uninit_Read"
  by (rule recv_fd_uninitialised [of _ Intr "[]"]) simp_all

end
