(* ===== verification/Zygiskd.thy ===== *)
theory Zygiskd
  imports Socket_Utils
begin

text \<open>
  The daemon's side of the protocol, from \<open>zygiskd/src/zygiskd.rs\<close>, \<open>constants.rs\<close> and
  \<open>root_impl/mod.rs\<close>: the actions, the process flags, the choice of the root implementation, the
  replies of \<open>handle_daemon_action\<close> and the datagrams the daemon sends to the monitor.

  What the daemon asks the root solution (\<open>prctl\<close>, \<open>su\<close>, package files) is the record \<open>root_query\<close>, a
  parameter.  A handler that fails (\<open>?\<close>) or panics ends its thread, so it sends no more bytes.
\<close>

section \<open>Constants\<close>

datatype daemon_socket_action =
    DA_PingHeartbeat | DA_RequestLogcatFd | DA_GetProcessFlags | DA_GetInfo | DA_ReadModules
  | DA_RequestCompanionSocket | DA_GetModuleDir | DA_ZygoteRestart | DA_SystemServerStarted

definition daemon_socket_action_try_from :: "nat \<Rightarrow> daemon_socket_action option" where
  "daemon_socket_action_try_from n =
     (let as = [DA_PingHeartbeat, DA_RequestLogcatFd, DA_GetProcessFlags, DA_GetInfo, DA_ReadModules,
                DA_RequestCompanionSocket, DA_GetModuleDir, DA_ZygoteRestart, DA_SystemServerStarted]
      in if n < length as then Some (as ! n) else None)"

definition PROCESS_GRANTED_ROOT :: u32 where "PROCESS_GRANTED_ROOT = push_bit 0 1"
definition PROCESS_ON_DENYLIST :: u32 where "PROCESS_ON_DENYLIST = push_bit 1 1"
definition PROCESS_IS_MANAGER :: u32 where "PROCESS_IS_MANAGER = push_bit 28 1"
definition PROCESS_ROOT_IS_APATCH :: u32 where "PROCESS_ROOT_IS_APATCH = push_bit 27 1"
definition PROCESS_ROOT_IS_KSU :: u32 where "PROCESS_ROOT_IS_KSU = push_bit 29 1"
definition PROCESS_ROOT_IS_MAGISK :: u32 where "PROCESS_ROOT_IS_MAGISK = push_bit 30 1"
definition PROCESS_IS_SYS_UI :: u32 where "PROCESS_IS_SYS_UI = push_bit 31 1"

lemmas process_flag_defs =
  PROCESS_GRANTED_ROOT_def PROCESS_ON_DENYLIST_def PROCESS_IS_MANAGER_def
  PROCESS_ROOT_IS_APATCH_def PROCESS_ROOT_IS_KSU_def PROCESS_ROOT_IS_MAGISK_def
  PROCESS_IS_SYS_UI_def

text \<open>The commands of the monitor as the 64-bit daemon (\<open>lp_select\<close>) or the 32-bit one sends them.\<close>

definition ZYGOTE_INJECTED :: "bool \<Rightarrow> u32" where
  "ZYGOTE_INJECTED lp64 = (if lp64 then 4 else 5)"

definition DAEMON_SET_INFO :: "bool \<Rightarrow> u32" where
  "DAEMON_SET_INFO lp64 = (if lp64 then 6 else 7)"

definition DAEMON_SET_ERROR_INFO :: "bool \<Rightarrow> u32" where
  "DAEMON_SET_ERROR_INFO lp64 = (if lp64 then 8 else 9)"

definition SYSTEM_SERVER_STARTED_cmd :: u32 where
  "SYSTEM_SERVER_STARTED_cmd = 10"

section \<open>Root implementations\<close>

datatype root_impl = Root_None | TooOld | Abnormal | Multiple | KernelSU | Magisk | APatch

datatype version = V_Supported | V_TooOld | V_Abnormal

definition root_impl_setup ::
  "version option \<Rightarrow> version option \<Rightarrow> version option \<Rightarrow> root_impl" where
  "root_impl_setup apatch_version ksu_version magisk_version =
     (case (apatch_version, ksu_version, magisk_version) of
        (None, None, None) \<Rightarrow> Root_None
      | (Some _, Some _, Some _) \<Rightarrow> Multiple
      | (Some v, None, None) \<Rightarrow>
          (case v of V_Supported \<Rightarrow> APatch | V_TooOld \<Rightarrow> TooOld | V_Abnormal \<Rightarrow> Abnormal)
      | (None, Some v, None) \<Rightarrow>
          (case v of V_Supported \<Rightarrow> KernelSU | V_TooOld \<Rightarrow> TooOld | V_Abnormal \<Rightarrow> Abnormal)
      | (None, None, Some v) \<Rightarrow> (case v of V_Supported \<Rightarrow> Magisk | _ \<Rightarrow> TooOld)
      | _ \<Rightarrow> Root_None)"

record root_query =
  rq_impl :: root_impl
  rq_granted_root :: "int \<Rightarrow> bool"
  rq_should_umount :: "int \<Rightarrow> bool"
  rq_is_manager :: "int \<Rightarrow> bool"

section \<open>The daemon's state and its replies\<close>

record dmodule =
  dm_name :: string
  dm_lib_fd :: fd

record daemon =
  dn_root :: root_query
  dn_modules :: "dmodule list"
  dn_pid :: u32
  dn_companion :: "nat \<Rightarrow> bool"     \<comment> \<open>a companion of this module took the client's socket\<close>
  dn_module_dir :: "string \<Rightarrow> fd option"  \<comment> \<open>\<open>File::open\<close> of the module's directory\<close>

definition root_flag :: "root_impl \<Rightarrow> u32 option" where
  "root_flag r =
     (case r of KernelSU \<Rightarrow> Some PROCESS_ROOT_IS_KSU | Magisk \<Rightarrow> Some PROCESS_ROOT_IS_MAGISK
      | APatch \<Rightarrow> Some PROCESS_ROOT_IS_APATCH | _ \<Rightarrow> None)"

text \<open>The flags of \<open>GetProcessFlags\<close>; \<^term>\<open>None\<close> is the panic on an unsupported root implementation.\<close>

definition process_flags :: "root_query \<Rightarrow> int \<Rightarrow> u32 option" where
  "process_flags q uid =
     (case root_flag (rq_impl q) of
        None \<Rightarrow> None
      | Some rf \<Rightarrow>
          (let flags = (if rq_is_manager q uid then PROCESS_IS_MANAGER
                        else (if rq_granted_root q uid then PROCESS_GRANTED_ROOT else 0) OR
                             (if rq_should_umount q uid then PROCESS_ON_DENYLIST else 0))
           in Some (flags OR rf)))"

definition reply_GetProcessFlags :: "daemon \<Rightarrow> string \<Rightarrow> (char \<times> cmsg option) list" where
  "reply_GetProcessFlags d req =
     (if length req < 4 then []
      else
        (case process_flags (dn_root d) (sint (dec_word (take 4 req) :: u32)) of
           None \<Rightarrow> [] | Some flags \<Rightarrow> plain (enc_u32 flags)))"

definition reply_GetInfo :: "daemon \<Rightarrow> (char \<times> cmsg option) list" where
  "reply_GetInfo d =
     (case root_flag (rq_impl (dn_root d)) of
        None \<Rightarrow> []
      | Some rf \<Rightarrow>
          plain (enc_u32 rf) @ plain (enc_u32 (dn_pid d)) @
          plain (enc_u64 (word_of_nat (length (dn_modules d)))) @
          concat (map (\<lambda>m. plain (enc_string (dm_name m))) (dn_modules d)))"

definition reply_ReadModules :: "daemon \<Rightarrow> (char \<times> cmsg option) list" where
  "reply_ReadModules d =
     plain (enc_u64 (word_of_nat (length (dn_modules d)))) @
     concat (map (\<lambda>m. plain (enc_string (dm_name m)) @ enc_fd (dm_lib_fd m)) (dn_modules d))"

text \<open>\<open>RequestCompanionSocket\<close>: the companion itself answers 1 when it has taken over the client's socket
  (\<open>companion.rs\<close>), the daemon 0 otherwise.  An index past the modules panics.\<close>

definition reply_RequestCompanionSocket :: "daemon \<Rightarrow> string \<Rightarrow> (char \<times> cmsg option) list" where
  "reply_RequestCompanionSocket d req =
     (if length req < 8 then []
      else
        (let index = unat (dec_word (take 8 req) :: u64)
         in if index < length (dn_modules d)
            then plain (enc_u8 (if dn_companion d index then 1 else 0))
            else []))"

definition reply_GetModuleDir :: "daemon \<Rightarrow> string \<Rightarrow> (char \<times> cmsg option) list" where
  "reply_GetModuleDir d req =
     (if length req < 8 then []
      else
        (let index = unat (dec_word (take 8 req) :: u64)
         in if index < length (dn_modules d)
            then (case dn_module_dir d (''../'' @ dm_name (dn_modules d ! index)) of
                    None \<Rightarrow> [] | Some f \<Rightarrow> enc_fd f)
            else []))"

definition handle_daemon_action :: "daemon \<Rightarrow> string \<Rightarrow> (char \<times> cmsg option) list" where
  "handle_daemon_action d req =
     (case req of
        [] \<Rightarrow> []
      | c # args \<Rightarrow>
          (case daemon_socket_action_try_from (of_char c) of
             Some DA_GetProcessFlags \<Rightarrow> reply_GetProcessFlags d args
           | Some DA_GetInfo \<Rightarrow> reply_GetInfo d
           | Some DA_ReadModules \<Rightarrow> reply_ReadModules d
           | Some DA_RequestCompanionSocket \<Rightarrow> reply_RequestCompanionSocket d args
           | Some DA_GetModuleDir \<Rightarrow> reply_GetModuleDir d args
           | _ \<Rightarrow> []))"

section \<open>The datagrams to the monitor\<close>

text \<open>The daemon's message at start-up: command, length with the closing NUL, text, NUL.\<close>

definition root_impl_name :: "root_impl \<Rightarrow> string" where
  "root_impl_name r =
     (case r of Root_None \<Rightarrow> ''None'' | TooOld \<Rightarrow> ''TooOld'' | Abnormal \<Rightarrow> ''Abnormal''
      | Multiple \<Rightarrow> ''Multiple'' | KernelSU \<Rightarrow> ''KernelSU'' | Magisk \<Rightarrow> ''Magisk'' | APatch \<Rightarrow> ''APatch'')"

fun join_comma :: "string list \<Rightarrow> string" where
  "join_comma [] = []"
| "join_comma [x] = x"
| "join_comma (x # y # zs) = x @ '','' @ join_comma (y # zs)"

definition startup_info :: "daemon \<Rightarrow> string" where
  "startup_info d =
     (let r = rq_impl (dn_root d)
      in if root_flag r \<noteq> None
         then ''Root: '' @ root_impl_name r @ '',module('' @ show_nat (length (dn_modules d)) @
              ''): '' @ join_comma (map dm_name (dn_modules d))
         else ''Invalid root implementation: '' @ root_impl_name r)"

definition startup_msg :: "bool \<Rightarrow> daemon \<Rightarrow> string" where
  "startup_msg lp64 d =
     enc_u32 (if root_flag (rq_impl (dn_root d)) \<noteq> None
              then DAEMON_SET_INFO lp64 else DAEMON_SET_ERROR_INFO lp64) @
     enc_u32 (word_of_nat (length (startup_info d)) + 1) @ startup_info d @ [NUL]"

text \<open>What the accept loop sends to the monitor for an action it handles itself.\<close>

definition main_loop_datagram :: "bool \<Rightarrow> daemon_socket_action \<Rightarrow> string option" where
  "main_loop_datagram lp64 a =
     (case a of DA_PingHeartbeat \<Rightarrow> Some (enc_u32 (ZYGOTE_INJECTED lp64))
      | DA_SystemServerStarted \<Rightarrow> Some (enc_u32 SYSTEM_SERVER_STARTED_cmd)
      | _ \<Rightarrow> None)"

end
