(* ===== verification/Daemon_Client.thy ===== *)
theory Daemon_Client
  imports Zygiskd
begin

text \<open>
  The loader's client of the daemon, \<open>loader/src/common/daemon.cpp\<close> and \<open>loader/src/include/daemon.h\<close>:
  \<open>Connect\<close> with its retries, and one operation per \<open>SocketAction\<close>.

  The state is the process' side of it: the temporary path and the open descriptors, with the outcome
  of the \<open>connect\<close> calls to come.  What is on the other side of a connection is the record \<open>peer\<close>:
  the daemon as a function from the bytes of the request to its reply, and the schedules of the
  kernel for the two directions.  Each operation writes its whole request before it reads.
  \<open>UniqueFd\<close> closes the descriptor at the end of its scope.
\<close>

section \<open>State and environment\<close>

datatype socket_action =
    SA_PingHeartBeat | SA_RequestLogcatFd | SA_GetProcessFlags | SA_GetInfo | SA_ReadModules
  | SA_RequestCompanionSocket | SA_GetModuleDir | SA_ZygoteRestart | SA_SystemServerStarted

definition action_u8 :: "socket_action \<Rightarrow> u8" where
  "action_u8 a =
     (case a of SA_PingHeartBeat \<Rightarrow> 0 | SA_RequestLogcatFd \<Rightarrow> 1 | SA_GetProcessFlags \<Rightarrow> 2
      | SA_GetInfo \<Rightarrow> 3 | SA_ReadModules \<Rightarrow> 4 | SA_RequestCompanionSocket \<Rightarrow> 5
      | SA_GetModuleDir \<Rightarrow> 6 | SA_ZygoteRestart \<Rightarrow> 7 | SA_SystemServerStarted \<Rightarrow> 8)"

record client =
  tmp_path :: string
  open_fds :: "fd list"
  next_fd :: fd
  connects :: "bool list"     \<comment> \<open>whether the next calls of \<open>connect\<close> succeed; no more: they fail\<close>
  sleeps :: nat               \<comment> \<open>seconds slept between attempts\<close>

record peer =
  daemon_reply :: "string \<Rightarrow> (char \<times> cmsg option) list"
  read_plan :: "io_event list"
  write_plan :: "io_event list"

definition Init :: "string \<Rightarrow> client \<Rightarrow> client" where
  "Init path c = c\<lparr>tmp_path := path\<rparr>"

definition GetTmpPath :: "client \<Rightarrow> string" where
  "GetTmpPath c = tmp_path c"

definition kCPSocketName :: string where
  "kCPSocketName = ''/cp64.sock''"

definition open_fd :: "client \<Rightarrow> fd \<times> client" where
  "open_fd c = (next_fd c, c\<lparr>open_fds := next_fd c # open_fds c, next_fd := next_fd c + 1\<rparr>)"

definition close_fd :: "fd \<Rightarrow> client \<Rightarrow> client" where
  "close_fd f c = c\<lparr>open_fds := remove1 f (open_fds c)\<rparr>"

text \<open>\<open>~UniqueFd\<close>.\<close>

definition drop_UniqueFd :: "fd \<Rightarrow> client \<Rightarrow> client" where
  "drop_UniqueFd f c = (if f \<ge> 0 then close_fd f c else c)"

text \<open>The two ends of a connection once the request is written: the daemon answers.\<close>

definition new_sock :: "peer \<Rightarrow> sock" where
  "new_sock p = \<lparr>inq = [], rsched = read_plan p, outq = [], wsched = write_plan p\<rparr>"

definition answer :: "peer \<Rightarrow> sock \<Rightarrow> sock" where
  "answer p s = s\<lparr>inq := daemon_reply p (outq s)\<rparr>"

section \<open>Connect\<close>

text \<open>\<open>while (retry--)\<close>: the argument is the value before the test.\<close>

fun connect_loop :: "nat \<Rightarrow> client \<Rightarrow> bool \<times> client" where
  "connect_loop 0 c = (False, c)"
| "connect_loop (Suc retry) c =
     (case connects c of
        True # cs \<Rightarrow> (True, c\<lparr>connects := cs\<rparr>)
      | r \<Rightarrow>
          (let c1 = c\<lparr>connects := tl r\<rparr>
           in connect_loop retry (if retry \<noteq> 0 then c1\<lparr>sleeps := sleeps c1 + 1\<rparr> else c1)))"

text \<open>\<open>sun_path\<close> has 108 bytes; \<open>strcpy\<close> writes the path and its NUL.\<close>

definition Connect :: "u8 \<Rightarrow> client \<Rightarrow> (fd \<times> client) res" where
  "Connect retry c =
     (case open_fd c of (fd, c1) \<Rightarrow>
        if length (c_str (tmp_path c1 @ kCPSocketName)) \<ge> 108 then Inl Out_Of_Bounds
        else
          (case connect_loop (unat retry) c1 of (ok, c2) \<Rightarrow>
             if ok then Inr (fd, c2) else Inr (-1, close_fd fd c2)))"

section \<open>The operations\<close>

definition PingHeartbeat :: "peer \<Rightarrow> client \<Rightarrow> ((bool \<times> sock) \<times> client) res" where
  "PingHeartbeat p c =
     bind_r (Connect 5 c) (\<lambda>(fd, c1).
       if fd = -1 then Inr ((False, new_sock p), drop_UniqueFd fd c1)
       else
         (case write_u8 (action_u8 SA_PingHeartBeat) (new_sock p) of (_, s1) \<Rightarrow>
            Inr ((True, s1), drop_UniqueFd fd c1)))"

definition RequestLogcatFd :: "peer \<Rightarrow> client \<Rightarrow> ((fd \<times> sock) \<times> client) res" where
  "RequestLogcatFd p c =
     bind_r (Connect 1 c) (\<lambda>(fd, c1).
       if fd = -1 then Inr ((-1, new_sock p), c1)
       else
         (case write_u8 (action_u8 SA_RequestLogcatFd) (new_sock p) of (_, s1) \<Rightarrow>
            Inr ((fd, s1), c1)))"

definition GetProcessFlags :: "peer \<Rightarrow> u32 \<Rightarrow> client \<Rightarrow> (u32 \<times> client) res" where
  "GetProcessFlags p uid c =
     bind_r (Connect 1 c) (\<lambda>(fd, c1).
       if fd = -1 then Inr (0, drop_UniqueFd fd c1)
       else
         (case write_u8 (action_u8 SA_GetProcessFlags) (new_sock p) of (_, s1) \<Rightarrow>
          case write_u32 uid s1 of (_, s2) \<Rightarrow>
          case read_u32 (answer p s2) of (flags, s3) \<Rightarrow>
            Inr (flags, drop_UniqueFd fd c1)))"

definition read_module :: "sock \<Rightarrow> ((string \<times> fd) \<times> sock) res" where
  "read_module s =
     bind_r (read_string s) (\<lambda>(name, s1). bind_r (recv_fd s1) (\<lambda>(module_fd, s2).
       Inr ((name, module_fd), s2)))"

definition ReadModules :: "peer \<Rightarrow> client \<Rightarrow> ((string \<times> fd) list \<times> client) res" where
  "ReadModules p c =
     bind_r (Connect 1 c) (\<lambda>(fd, c1).
       if fd = -1 then Inr ([], drop_UniqueFd fd c1)
       else
         (case write_u8 (action_u8 SA_ReadModules) (new_sock p) of (_, s1) \<Rightarrow>
          case read_usize (answer p s1) of (len, s2) \<Rightarrow>
            bind_r (read_n read_module (unat len) s2) (\<lambda>(modules, s3).
              Inr (modules, drop_UniqueFd fd c1))))"

definition ConnectCompanion :: "peer \<Rightarrow> u64 \<Rightarrow> client \<Rightarrow> (fd \<times> client) res" where
  "ConnectCompanion p index c =
     bind_r (Connect 1 c) (\<lambda>(fd, c1).
       if fd = -1 then Inr (-1, c1)
       else
         (case write_u8 (action_u8 SA_RequestCompanionSocket) (new_sock p) of (_, s1) \<Rightarrow>
          case write_usize index s1 of (_, s2) \<Rightarrow>
          case read_u8 (answer p s2) of (r, s3) \<Rightarrow>
            if r = 1 then Inr (fd, c1) else Inr (-1, close_fd fd c1)))"

definition GetModuleDir :: "peer \<Rightarrow> u64 \<Rightarrow> client \<Rightarrow> (fd \<times> client) res" where
  "GetModuleDir p index c =
     bind_r (Connect 1 c) (\<lambda>(fd, c1).
       if fd = -1 then Inr (-1, drop_UniqueFd fd c1)
       else
         (case write_u8 (action_u8 SA_GetModuleDir) (new_sock p) of (_, s1) \<Rightarrow>
          case write_usize index s1 of (_, s2) \<Rightarrow>
            bind_r (recv_fd (answer p s2)) (\<lambda>(r, s3). Inr (r, drop_UniqueFd fd c1))))"

definition ZygoteRestart :: "peer \<Rightarrow> client \<Rightarrow> (sock \<times> client) res" where
  "ZygoteRestart p c =
     bind_r (Connect 1 c) (\<lambda>(fd, c1).
       if fd = -1 then Inr (new_sock p, drop_UniqueFd fd c1)
       else
         (case write_u8 (action_u8 SA_ZygoteRestart) (new_sock p) of (_, s1) \<Rightarrow>
            Inr (s1, drop_UniqueFd fd c1)))"

definition SystemServerStarted :: "peer \<Rightarrow> client \<Rightarrow> (sock \<times> client) res" where
  "SystemServerStarted p c =
     bind_r (Connect 1 c) (\<lambda>(fd, c1).
       if fd = -1 then Inr (new_sock p, drop_UniqueFd fd c1)
       else
         (case write_u8 (action_u8 SA_SystemServerStarted) (new_sock p) of (_, s1) \<Rightarrow>
            Inr (s1, drop_UniqueFd fd c1)))"

section \<open>GetInfo\<close>

datatype zygote_root_impl =
    ZYGOTE_ROOT_IMPL_NONE | ZYGOTE_ROOT_IMPL_APATCH | ZYGOTE_ROOT_IMPL_KERNELSU
  | ZYGOTE_ROOT_IMPL_MAGISK

datatype 'a ptr = Uninit | Null | Ptr 'a

text \<open>The caller's \<open>struct zygote_info\<close> starts uninitialised (\<^term>\<open>None\<close>, \<^term>\<open>Uninit\<close>); a module name that
  was not set is \<^term>\<open>None\<close>.\<close>

record zygote_info =
  zi_modules :: "(string option list) ptr"
  zi_root_impl :: "zygote_root_impl option"
  zi_pid :: "int option"
  zi_running :: "bool option"

definition zygote_info_uninit :: zygote_info where
  "zygote_info_uninit = \<lparr>zi_modules = Uninit, zi_root_impl = None, zi_pid = None, zi_running = None\<rparr>"

definition root_impl_of_flags :: "u32 \<Rightarrow> zygote_root_impl" where
  "root_impl_of_flags flags =
     (if flags AND push_bit 27 1 \<noteq> 0 then ZYGOTE_ROOT_IMPL_APATCH
      else if flags AND push_bit 29 1 \<noteq> 0 then ZYGOTE_ROOT_IMPL_KERNELSU
      else if flags AND push_bit 30 1 \<noteq> 0 then ZYGOTE_ROOT_IMPL_MAGISK
      else ZYGOTE_ROOT_IMPL_NONE)"

text \<open>\<open>fgets(line, 1024, f)\<close> until the end: a line ends after a newline or after 1023 bytes.\<close>

fun fgets :: "nat \<Rightarrow> string \<Rightarrow> string \<times> string" where
  "fgets 0 s = ([], s)"
| "fgets n [] = ([], [])"
| "fgets (Suc n) (c # cs) =
     (if c = CHR 0x0A then ([c], cs)
      else (case fgets n cs of (l, r) \<Rightarrow> (c # l, r)))"

lemma length_fgets: "fgets n s = (l, r) \<Longrightarrow> length l + length r = length s"
  by (induction n s arbitrary: l r rule: fgets.induct) (auto split: if_splits prod.splits)

lemma fgets_nonempty: "fgets (Suc n) (c # cs) = (l, r) \<Longrightarrow> l \<noteq> []"
  by (auto split: if_splits prod.splits)

lemma fgets_shrinks:
  assumes "f \<noteq> []" and fg: "fgets 1023 f = (l, r)"
  shows "length r < length f"
proof -
  obtain c cs where "f = c # cs" using assms(1) by (cases f) auto
  then have "l \<noteq> []" using fg fgets_nonempty [of 1022 c cs l r] by simp
  then show ?thesis using length_fgets [OF fg] by (cases l) auto
qed

text \<open>The loop over the lines of \<open>module.prop\<close>: the name is what follows \<open>name=\<close>, less the line's last byte;
  \<open>strndup\<close> of a length that wrapped around takes it all.\<close>

function find_name :: "string \<Rightarrow> string option" where
  "find_name f =
     (if f = [] then None
      else
        (case fgets 1023 f of (l, r) \<Rightarrow>
           (let line = c_str l
            in if take 5 line = ''name=''
               then Some (if length line < 6 then drop 5 line else take (length line - 6) (drop 5 line))
               else find_name r)))"
  by pat_completeness auto
termination
  by (relation "measure length") (auto dest!: fgets_shrinks [OF _ sym])

declare find_name.simps [simp del]

text \<open>The files \<open>/data/adb/modules/<name>/module.prop\<close> are the parameter \<open>props\<close>; \<open>m1\<close> and \<open>m2\<close> say whether
  the two calls of \<open>malloc\<close> return memory.  After a failed one the null pointer is written through.\<close>

definition module_display_name :: "(string \<Rightarrow> string option) \<Rightarrow> string \<Rightarrow> string option" where
  "module_display_name props name =
     (case props (take 4095 (''/data/adb/modules/'' @ name @ ''/module.prop'')) of
        None \<Rightarrow> Some name
      | Some content \<Rightarrow> find_name content)"

definition GetInfo ::
  "peer \<Rightarrow> (string \<Rightarrow> string option) \<Rightarrow> bool \<Rightarrow> bool \<Rightarrow> zygote_info \<Rightarrow> client \<Rightarrow>
   (zygote_info \<times> client) res" where
  "GetInfo p props m1 m2 info c =
     bind_r (Connect 1 c) (\<lambda>(fd, c1).
       if fd \<noteq> -1 then
         (case write_u8 (action_u8 SA_GetInfo) (new_sock p) of (_, s1) \<Rightarrow>
          case read_u32 (answer p s1) of (flags, s2) \<Rightarrow>
          case read_u32 s2 of (pid, s3) \<Rightarrow>
          let info1 = info\<lparr>zi_running := Some True, zi_root_impl := Some (root_impl_of_flags flags),
                           zi_pid := Some (sint pid)\<rparr>
          in if \<not> m1 then Inl Null_Deref
             else
               (case read_usize s3 of (cnt, s4) \<Rightarrow>
                  if cnt = 0 then Inr (info1\<lparr>zi_modules := Ptr []\<rparr>, close_fd fd c1)
                  else if \<not> m2 then Inl Null_Deref
                  else
                    bind_r (read_n read_string (unat cnt) s4) (\<lambda>(names, s5).
                      Inr (info1\<lparr>zi_modules := Ptr (map (module_display_name props) names)\<rparr>,
                           close_fd fd c1))))
       else Inr (info\<lparr>zi_running := Some False\<rparr>, c1))"


section \<open>Descriptors\<close>

text \<open>Nothing the process holds is closed, and only the descriptor an operation hands out is new.\<close>

definition same_fds :: "client \<Rightarrow> client \<Rightarrow> bool" where
  "same_fds c c' \<longleftrightarrow> open_fds c' = open_fds c"

lemma connect_loop_fds: "open_fds (snd (connect_loop n c)) = open_fds c"
proof (induction n arbitrary: c)
  case (Suc n)
  then show ?case by (auto simp: Let_def split: list.splits bool.splits)
qed simp

lemma Connect_fds:
  assumes "Connect r c = Inr (f, c')" and "next_fd c \<ge> 0"
  shows "(f = -1 \<and> open_fds c' = open_fds c) \<or>
         (f = next_fd c \<and> f \<noteq> -1 \<and> open_fds c' = f # open_fds c)"
  using assms connect_loop_fds [of "unat r" "snd (open_fd c)"]
  by (auto simp: Connect_def open_fd_def close_fd_def Let_def split: prod.splits if_splits)

lemma drop_UniqueFd_fds: "open_fds c = f # fs \<Longrightarrow> f \<ge> 0 \<Longrightarrow> open_fds (drop_UniqueFd f c) = fs"
  by (simp add: drop_UniqueFd_def close_fd_def)

lemma drop_UniqueFd_none [simp]: "drop_UniqueFd (-1) c = c"
  by (simp add: drop_UniqueFd_def)

text \<open>The contract of an operation that keeps no connection: every result leaves the descriptors as they
  were.  The operations with a \<open>UniqueFd\<close> and \<open>GetInfo\<close> meet it.\<close>

locale fd_neutral =
  fixes oper :: "peer \<Rightarrow> client \<Rightarrow> ('a \<times> client) res"
  assumes neutral: "next_fd c \<ge> 0 \<Longrightarrow> oper p c = Inr (r, c') \<Longrightarrow> open_fds c' = open_fds c"

lemma neutral_Connect:
  assumes "next_fd c \<ge> 0"
    and "bind_r (Connect k c) (\<lambda>(fd, c1). if fd = -1 then Inr (e, drop_UniqueFd fd c1)
          else F fd (drop_UniqueFd fd c1)) = Inr (r, c')"
    and "\<And>fd d. F fd d = Inr (r, c') \<Longrightarrow> c' = d"
  shows "open_fds c' = open_fds c"
proof -
  obtain fd c1 where con: "Connect k c = Inr (fd, c1)"
    using assms(2) by (auto simp: res_simps)
  from Connect_fds [OF con assms(1)] show ?thesis
  proof
    assume "fd = -1 \<and> open_fds c1 = open_fds c"
    with assms(2) con show ?thesis by simp
  next
    assume f: "fd = next_fd c \<and> fd \<noteq> -1 \<and> open_fds c1 = fd # open_fds c"
    with assms(2) con have "F fd (drop_UniqueFd fd c1) = Inr (r, c')" by simp
    then have "c' = drop_UniqueFd fd c1" by (rule assms(3))
    with f assms(1) drop_UniqueFd_fds [of c1 fd] show ?thesis by simp
  qed
qed

interpretation flags_op: fd_neutral "\<lambda>p. GetProcessFlags p uid"
proof
  fix p c r c'
  assume a: "next_fd c \<ge> 0" "GetProcessFlags p uid c = Inr (r, c')"
  show "open_fds c' = open_fds c"
    by (rule neutral_Connect [OF a(1) a(2) [unfolded GetProcessFlags_def]])
      (auto split: prod.splits)
qed

interpretation modules_op: fd_neutral "ReadModules"
proof
  fix p c r c'
  assume a: "next_fd c \<ge> 0" "ReadModules p c = Inr (r, c')"
  show "open_fds c' = open_fds c"
    by (rule neutral_Connect [OF a(1) a(2) [unfolded ReadModules_def]])
      (auto simp: res_simps split: prod.splits)
qed

interpretation dir_op: fd_neutral "\<lambda>p. GetModuleDir p index"
proof
  fix p c r c'
  assume a: "next_fd c \<ge> 0" "GetModuleDir p index c = Inr (r, c')"
  show "open_fds c' = open_fds c"
    by (rule neutral_Connect [OF a(1) a(2) [unfolded GetModuleDir_def]])
      (auto simp: res_simps split: prod.splits)
qed

interpretation restart_op: fd_neutral "ZygoteRestart"
proof
  fix p c r c'
  assume a: "next_fd c \<ge> 0" "ZygoteRestart p c = Inr (r, c')"
  show "open_fds c' = open_fds c"
    by (rule neutral_Connect [OF a(1) a(2) [unfolded ZygoteRestart_def]])
      (auto simp: res_simps split: prod.splits)
qed

interpretation server_op: fd_neutral "SystemServerStarted"
proof
  fix p c r c'
  assume a: "next_fd c \<ge> 0" "SystemServerStarted p c = Inr (r, c')"
  show "open_fds c' = open_fds c"
    by (rule neutral_Connect [OF a(1) a(2) [unfolded SystemServerStarted_def]])
      (auto simp: res_simps split: prod.splits)
qed

interpretation ping_op: fd_neutral "PingHeartbeat"
proof
  fix p c r c'
  assume a: "next_fd c \<ge> 0" "PingHeartbeat p c = Inr (r, c')"
  show "open_fds c' = open_fds c"
    by (rule neutral_Connect [OF a(1) a(2) [unfolded PingHeartbeat_def]])
      (auto simp: res_simps split: prod.splits)
qed

section \<open>The client against the daemon\<close>

definition serves :: "daemon \<Rightarrow> peer \<Rightarrow> bool" where
  "serves d p \<longleftrightarrow> daemon_reply p = handle_daemon_action d \<and>
     Fail \<notin> set (read_plan p) \<and> Fail \<notin> set (write_plan p)"

definition reachable_daemon :: "client \<Rightarrow> bool" where
  "reachable_daemon c \<longleftrightarrow> length (tmp_path c) < 98 \<and> connects c \<noteq> [] \<and> hd (connects c) \<and> next_fd c \<ge> 0"

lemma Connect_reachable:
  assumes "reachable_daemon c" and "r \<noteq> 0"
  obtains c1 where "Connect r c = Inr (next_fd c, c1)" "open_fds c1 = next_fd c # open_fds c"
    "next_fd c \<noteq> -1"
proof -
  have "length (c_str (tmp_path c @ kCPSocketName)) \<le> length (tmp_path c @ kCPSocketName)"
    by (rule length_c_str)
  then have short: "length (c_str (tmp_path c @ kCPSocketName)) < 108"
    using assms(1) by (simp add: reachable_daemon_def kCPSocketName_def)
  obtain k where k: "unat r = Suc k" using assms(2) by (metis unat_eq_zero not0_implies_Suc)
  from assms(1) obtain cs where "connects c = True # cs"
    by (cases "connects c") (auto simp: reachable_daemon_def)
  with short k assms(1) that show thesis
    by (auto simp: Connect_def open_fd_def reachable_daemon_def)
qed

lemma write_exact_all:
  assumes "Fail \<notin> set (wsched s)"
  obtains s' where "write_exact v s = (True, s')" "outq s' = outq s @ v"
    "inq s' = inq s" "rsched s' = rsched s" "Fail \<notin> set (wsched s')"
  by (rule xwrite_all [OF assms, of v]) (simp add: write_exact_def that)

lemma request_1:
  assumes "serves d p"
  obtains s where "write_u8 (action_u8 a) (new_sock p) = (True, s)" "outq s = enc_u8 (action_u8 a)"
    "rsched s = read_plan p" "Fail \<notin> set (wsched s)"
proof -
  have "Fail \<notin> set (wsched (new_sock p))" using assms by (simp add: new_sock_def serves_def)
  then obtain s' where "write_exact (enc_u8 (action_u8 a)) (new_sock p) = (True, s')"
      "outq s' = outq (new_sock p) @ enc_u8 (action_u8 a)" "rsched s' = rsched (new_sock p)"
      "Fail \<notin> set (wsched s')"
    by (rule write_exact_all)
  then show thesis by (intro that [of s']) (simp_all add: write_u8_def new_sock_def)
qed

text \<open>Both sides number the actions alike.\<close>

lemma dispatch:
  "handle_daemon_action d (enc_u8 (action_u8 SA_GetProcessFlags) @ args) = reply_GetProcessFlags d args"
  "handle_daemon_action d (enc_u8 (action_u8 SA_GetInfo) @ args) = reply_GetInfo d"
  "handle_daemon_action d (enc_u8 (action_u8 SA_ReadModules) @ args) = reply_ReadModules d"
  "handle_daemon_action d (enc_u8 (action_u8 SA_RequestCompanionSocket) @ args) =
     reply_RequestCompanionSocket d args"
  "handle_daemon_action d (enc_u8 (action_u8 SA_GetModuleDir) @ args) = reply_GetModuleDir d args"
  by (simp_all add: enc_u8_def action_u8_def handle_daemon_action_def
      daemon_socket_action_try_from_def nth_Cons' Let_def)

lemma answer_sock [simp]:
  "inq (answer p s) = daemon_reply p (outq s)" "rsched (answer p s) = rsched s"
  by (simp_all add: answer_def)

lemma GetProcessFlags_serves:
  assumes "serves d p" and "reachable_daemon c"
    and "process_flags (dn_root d) (sint uid) = Some flags"
  shows "\<exists>c'. GetProcessFlags p uid c = Inr (flags, c')"
proof -
  obtain c1 where c1: "Connect 1 c = Inr (next_fd c, c1)" "next_fd c \<noteq> -1"
    using Connect_reachable [OF assms(2), of 1] by auto
  obtain s1 where s1: "write_u8 (action_u8 SA_GetProcessFlags) (new_sock p) = (True, s1)"
      "outq s1 = enc_u8 (action_u8 SA_GetProcessFlags)" "rsched s1 = read_plan p" "Fail \<notin> set (wsched s1)"
    using request_1 [OF assms(1)] .
  obtain s2 where s2: "write_u32 uid s1 = (True, s2)" "outq s2 = outq s1 @ enc_u32 uid"
      "rsched s2 = rsched s1"
    using write_exact_all [OF s1(4), of "enc_u32 uid"] by (auto simp: write_u32_def)
  have "inq (answer p s2) = plain (enc_u32 flags) @ []"
    using assms(1,3) by (simp add: serves_def s1 s2 dispatch reply_GetProcessFlags_def)
  moreover have "reliable (answer p s2)"
    using assms(1) by (simp add: reliable_def serves_def s1 s2)
  ultimately obtain s3 where "read_u32 (answer p s2) = (flags, s3)"
    using rd_u32.rd_enc [of "answer p s2" flags "[]"] by auto
  then show ?thesis by (simp add: GetProcessFlags_def c1 s1 s2)
qed

lemma read_module_eq: "read_module = (\<lambda>s. bind_r (read_string s) (\<lambda>(x, s1).
    bind_r (recv_fd s1) (\<lambda>(y, s2). Inr ((x, y), s2))))"
  by (rule ext) (simp add: read_module_def)

lemma ReadModules_serves:
  assumes "serves d p" and "Intr \<notin> set (read_plan p)" and "reachable_daemon c"
    and "length (dn_modules d) < 2 ^ 64 - 1" and "\<forall>m \<in> set (dn_modules d). fit_string (dm_name m)"
  shows "\<exists>c'. ReadModules p c = Inr (map (\<lambda>m. (dm_name m, dm_lib_fd m)) (dn_modules d), c')"
proof -
  let ?ms = "map (\<lambda>m. (dm_name m, dm_lib_fd m)) (dn_modules d)"
  let ?n = "word_of_nat (length (dn_modules d)) :: u64"
  obtain c1 where c1: "Connect 1 c = Inr (next_fd c, c1)" "next_fd c \<noteq> -1"
    using Connect_reachable [OF assms(3), of 1] by auto
  obtain s1 where s1: "write_u8 (action_u8 SA_ReadModules) (new_sock p) = (True, s1)"
      "outq s1 = enc_u8 (action_u8 SA_ReadModules)" "rsched s1 = read_plan p"
    using request_1 [OF assms(1)] .
  have st: "steady (answer p s1)"
    using assms(1,2) by (simp add: steady_def serves_def s1)
  have q: "inq (answer p s1) = plain (enc_u64 ?n) @
      concat (map (\<lambda>(x, y). plain (enc_string x) @ enc_fd y) ?ms) @ []"
    using assms(1) dispatch(3) [of d "[]"] by (simp add: serves_def s1 reply_ReadModules_def comp_def)
  obtain s2 where s2: "read_usize (answer p s1) = (?n, s2)"
      "inq s2 = concat (map (\<lambda>(x, y). plain (enc_string x) @ enc_fd y) ?ms) @ []"
      "set (rsched s2) \<subseteq> set (rsched (answer p s1))"
    using read_usize_plain [OF steady_reliable [OF st] q] .
  have "\<forall>x \<in> set ?ms. case x of (x, y) \<Rightarrow> fit_string x \<and> True" using assms(5) by auto
  from rd_module.pair.read_n_enc [OF steady_sub [OF st s2(3)] this s2(2)]
  obtain s3 where "read_n read_module (length (dn_modules d)) s2 = Inr (?ms, s3)"
    by (auto simp: read_module_eq)
  then show ?thesis using unat_length [of "dn_modules d"] assms(4)
    by (simp add: ReadModules_def c1 s1 s2)
qed

text \<open>What a connection that was used and dropped leaves of the client's state.\<close>

definition connected :: "client \<Rightarrow> client" where
  "connected c = c\<lparr>next_fd := next_fd c + 1, connects := tl (connects c)\<rparr>"

lemma Connect_connected:
  assumes "reachable_daemon c" and "Connect 1 c = Inr (f, c1)"
  shows "f = next_fd c \<and> drop_UniqueFd f c1 = connected c"
proof -
  from assms(1) obtain cs where "connects c = True # cs"
    by (cases "connects c") (auto simp: reachable_daemon_def)
  with assms show ?thesis
    by (auto simp: Connect_def open_fd_def reachable_daemon_def drop_UniqueFd_def close_fd_def connected_def
        split: if_splits)
qed

lemma client_connected:
  assumes "reachable_daemon c"
  shows "ReadModules p c = Inr (ms, c') \<Longrightarrow> c' = connected c"
    and "GetProcessFlags p uid c = Inr (flags, c') \<Longrightarrow> c' = connected c"
proof -
  obtain c1 where c1: "Connect 1 c = Inr (next_fd c, c1)" "next_fd c \<noteq> -1"
    using Connect_reachable [OF assms, of 1] by auto
  note d = conjunct2 [OF Connect_connected [OF assms c1(1)]]
  show "ReadModules p c = Inr (ms, c') \<Longrightarrow> c' = connected c"
    by (auto simp: ReadModules_def c1 d res_simps split: prod.splits)
  show "GetProcessFlags p uid c = Inr (flags, c') \<Longrightarrow> c' = connected c"
    by (auto simp: GetProcessFlags_def c1 d res_simps split: prod.splits)
qed

section \<open>Properties\<close>

lemma GetInfo_fds:
  assumes "next_fd c \<ge> 0" and "GetInfo p props m1 m2 info c = Inr (r, c')"
  shows "open_fds c' = open_fds c"
proof -
  obtain fd c1 where con: "Connect 1 c = Inr (fd, c1)"
    using assms(2) by (auto simp: GetInfo_def res_simps)
  have "fd \<noteq> -1 \<Longrightarrow> c' = close_fd fd c1" "fd = -1 \<Longrightarrow> c' = c1"
    using assms(2) con by (auto simp: GetInfo_def Let_def res_simps split: prod.splits if_splits)
  with Connect_fds [OF con assms(1)] show ?thesis by (auto simp: close_fd_def)
qed



text \<open>The reference for the retries.\<close>

fun first_success :: "nat \<Rightarrow> bool list \<Rightarrow> nat option" where
  "first_success 0 bs = None"
| "first_success (Suc n) [] = None"
| "first_success (Suc n) (b # bs) = (if b then Some 0 else map_option Suc (first_success n bs))"

lemma first_success_Nil [simp]: "first_success n [] = None"
  by (cases n) simp_all

lemma connect_loop_spec:
  "fst (connect_loop n c) = (first_success n (connects c) \<noteq> None)"
  "sleeps (snd (connect_loop n c)) =
     sleeps c + (case first_success n (connects c) of None \<Rightarrow> n - 1 | Some i \<Rightarrow> i)"
proof (induction n arbitrary: c)
  case (Suc n)
  {
    case 1
    show ?case using Suc.IH(1) by (auto simp: Let_def split: list.splits bool.splits)
  next
    case 2
    have z: "n = 0 \<Longrightarrow> connect_loop n = (\<lambda>c. (False, c))" by (rule ext) simp
    show ?case
      by (cases "n = 0")
        (auto simp: z Let_def Suc.IH(2) split: list.splits bool.splits option.splits)
  }
qed simp_all

text \<open>\<open>Connect\<close> with \<open>retry\<close> attempts returns a connection exactly when one of the first \<open>retry\<close> calls of
  \<open>connect\<close> succeeds; it sleeps one second after each failure but the last, and on failure no descriptor
  is left open.\<close>

lemma Connect_retries:
  assumes "length (tmp_path c) < 98" and "next_fd c \<ge> 0"
  shows "\<exists>f c'. Connect retry c = Inr (f, c') \<and>
    (f \<noteq> -1 \<longleftrightarrow> first_success (unat retry) (connects c) \<noteq> None) \<and>
    open_fds c' = (if f = -1 then open_fds c else f # open_fds c) \<and>
    sleeps c' = sleeps c +
      (case first_success (unat retry) (connects c) of None \<Rightarrow> unat retry - 1 | Some i \<Rightarrow> i)"
proof -
  let ?c1 = "snd (open_fd c)"
  obtain ok c2 where l: "connect_loop (unat retry) ?c1 = (ok, c2)" by fastforce
  have c1: "connects ?c1 = connects c" "sleeps ?c1 = sleeps c" by (simp_all add: open_fd_def)
  have short: "length (c_str (tmp_path c @ kCPSocketName)) < 108"
    using length_c_str [of "tmp_path c @ kCPSocketName"] assms(1) by (simp add: kCPSocketName_def)
  have con: "Connect retry c = Inr (if ok then (next_fd c, c2) else (-1, close_fd (next_fd c) c2))"
    using l short by (simp add: Connect_def open_fd_def)
  from connect_loop_spec [where n = "unat retry" and c = ?c1]
  have ok: "ok \<longleftrightarrow> first_success (unat retry) (connects c) \<noteq> None"
    and sl: "sleeps c2 = sleeps c +
      (case first_success (unat retry) (connects c) of None \<Rightarrow> unat retry - 1 | Some i \<Rightarrow> i)"
    by (simp_all add: l c1)
  show ?thesis
  proof (cases ok)
    case True
    with con have "Connect retry c = Inr (next_fd c, c2)" by simp
    with Connect_fds [OF this assms(2)] ok True sl assms(2) show ?thesis by auto
  next
    case False
    with con have "Connect retry c = Inr (-1, close_fd (next_fd c) c2)" by simp
    with Connect_fds [OF this assms(2)] ok False sl assms(2) show ?thesis by (auto simp: close_fd_def)
  qed
qed

lemma Connect_retries_witness:
  "\<exists>f c'. Connect 5 \<lparr>tmp_path = ''/d'', open_fds = [], next_fd = 3, connects = [False, False, True], sleeps = 0\<rparr> =
      Inr (f, c') \<and> f \<noteq> -1 \<and> sleeps c' = 2"
proof -
  have "first_success (unat (5 :: u8)) [False, False, True] = Some 2" by code_simp
  with Connect_retries [of "\<lparr>tmp_path = ''/d'', open_fds = [], next_fd = 3,
      connects = [False, False, True], sleeps = 0\<rparr>" 5]
  show ?thesis by auto
qed

text \<open>Between the client and the daemon the process flags of a uid arrive as the daemon computed them,
  under every schedule of the connection without failures.\<close>

lemma GetProcessFlags_end_to_end:
  assumes "serves d p" and "reachable_daemon c"
    and "process_flags (dn_root d) (sint uid) = Some flags"
  shows "\<exists>c'. GetProcessFlags p uid c = Inr (flags, c') \<and> open_fds c' = open_fds c"
proof -
  obtain c' where c': "GetProcessFlags p uid c = Inr (flags, c')"
    using GetProcessFlags_serves [OF assms] by blast
  moreover have "open_fds c' = open_fds c"
    using flags_op.neutral [OF _ c'] assms(2) by (simp add: reachable_daemon_def)
  ultimately show ?thesis by blast
qed

lemma GetProcessFlags_end_to_end_witness:
  "\<exists>c'. GetProcessFlags
     \<lparr>daemon_reply = handle_daemon_action \<lparr>dn_root = \<lparr>rq_impl = KernelSU, rq_granted_root = \<lambda>u. u = 10,
          rq_should_umount = \<lambda>u. True, rq_is_manager = \<lambda>u. False\<rparr>, dn_modules = [], dn_pid = 1,
          dn_companion = \<lambda>_. False, dn_module_dir = \<lambda>_. None\<rparr>, read_plan = [Intr, Chunk 1], write_plan = [Chunk 0]\<rparr>
     10 \<lparr>tmp_path = ''/d'', open_fds = [], next_fd = 3, connects = [True], sleeps = 0\<rparr> = Inr (0x20000003, c')"
  using GetProcessFlags_end_to_end [where uid = 10 and flags = "0x20000003" and
      p = "\<lparr>daemon_reply = handle_daemon_action \<lparr>dn_root = \<lparr>rq_impl = KernelSU, rq_granted_root = \<lambda>u. u = 10,
          rq_should_umount = \<lambda>u. True, rq_is_manager = \<lambda>u. False\<rparr>, dn_modules = [], dn_pid = 1,
          dn_companion = \<lambda>_. False, dn_module_dir = \<lambda>_. None\<rparr>, read_plan = [Intr, Chunk 1], write_plan = [Chunk 0]\<rparr>" and
      c = "\<lparr>tmp_path = ''/d'', open_fds = [], next_fd = 3, connects = [True], sleeps = 0\<rparr>" and
      d = "\<lparr>dn_root = \<lparr>rq_impl = KernelSU, rq_granted_root = \<lambda>u. u = 10,
          rq_should_umount = \<lambda>u. True, rq_is_manager = \<lambda>u. False\<rparr>, dn_modules = [], dn_pid = 1,
          dn_companion = \<lambda>_. False, dn_module_dir = \<lambda>_. None\<rparr>"]
  by (auto simp: serves_def reachable_daemon_def process_flags_def root_flag_def process_flag_defs Let_def)

text \<open>C29: The module list of the daemon arrives whole and in order, each name with the descriptor that was
  passed with it.  An interrupt would break the descriptor passing, so the reads must not be interrupted.\<close>

theorem ReadModules_end_to_end:
  assumes "serves d p" and "Intr \<notin> set (read_plan p)" and "reachable_daemon c"
    and "length (dn_modules d) < 2 ^ 64 - 1" and "\<forall>m \<in> set (dn_modules d). fit_string (dm_name m)"
  shows "\<exists>c'. ReadModules p c = Inr (map (\<lambda>m. (dm_name m, dm_lib_fd m)) (dn_modules d), c')"
  by (rule ReadModules_serves [OF assms])

theorem ReadModules_end_to_end_witness:
  "\<exists>c'. ReadModules
     \<lparr>daemon_reply = handle_daemon_action \<lparr>dn_root = \<lparr>rq_impl = KernelSU, rq_granted_root = \<lambda>u. False,
          rq_should_umount = \<lambda>u. False, rq_is_manager = \<lambda>u. False\<rparr>,
          dn_modules = [\<lparr>dm_name = ''lsp'', dm_lib_fd = 7\<rparr>, \<lparr>dm_name = ''shamiko'', dm_lib_fd = 8\<rparr>], dn_pid = 1,
          dn_companion = \<lambda>_. False, dn_module_dir = \<lambda>_. None\<rparr>, read_plan = [Chunk 1], write_plan = []\<rparr>
     \<lparr>tmp_path = ''/d'', open_fds = [], next_fd = 3, connects = [True], sleeps = 0\<rparr> =
     Inr ([(''lsp'', 7), (''shamiko'', 8)], c')"
  using ReadModules_end_to_end [where
      p = "\<lparr>daemon_reply = handle_daemon_action \<lparr>dn_root = \<lparr>rq_impl = KernelSU, rq_granted_root = \<lambda>u. False,
          rq_should_umount = \<lambda>u. False, rq_is_manager = \<lambda>u. False\<rparr>,
          dn_modules = [\<lparr>dm_name = ''lsp'', dm_lib_fd = 7\<rparr>, \<lparr>dm_name = ''shamiko'', dm_lib_fd = 8\<rparr>], dn_pid = 1,
          dn_companion = \<lambda>_. False, dn_module_dir = \<lambda>_. None\<rparr>, read_plan = [Chunk 1], write_plan = []\<rparr>" and
      c = "\<lparr>tmp_path = ''/d'', open_fds = [], next_fd = 3, connects = [True], sleeps = 0\<rparr>" and
      d = "\<lparr>dn_root = \<lparr>rq_impl = KernelSU, rq_granted_root = \<lambda>u. False,
          rq_should_umount = \<lambda>u. False, rq_is_manager = \<lambda>u. False\<rparr>,
          dn_modules = [\<lparr>dm_name = ''lsp'', dm_lib_fd = 7\<rparr>, \<lparr>dm_name = ''shamiko'', dm_lib_fd = 8\<rparr>], dn_pid = 1,
          dn_companion = \<lambda>_. False, dn_module_dir = \<lambda>_. None\<rparr>"]
  by (simp add: serves_def reachable_daemon_def fit_string_def)

text \<open>\<open>ConnectCompanion\<close> hands out the connection exactly when a companion of that module has taken it
  over, and otherwise closes it and returns -1.\<close>

lemma ConnectCompanion_end_to_end:
  assumes "serves d p" and "reachable_daemon c" and "unat index < length (dn_modules d)"
  shows "\<exists>c'. ConnectCompanion p index c = Inr (if dn_companion d (unat index) then next_fd c else -1, c') \<and>
    open_fds c' = (if dn_companion d (unat index) then next_fd c # open_fds c else open_fds c)"
proof -
  let ?r = "if dn_companion d (unat index) then 1 else 0 :: u8"
  obtain c1 where c1: "Connect 1 c = Inr (next_fd c, c1)" "next_fd c \<noteq> -1" "open_fds c1 = next_fd c # open_fds c"
    using Connect_reachable [OF assms(2), of 1] by auto
  obtain s1 where s1: "write_u8 (action_u8 SA_RequestCompanionSocket) (new_sock p) = (True, s1)"
      "outq s1 = enc_u8 (action_u8 SA_RequestCompanionSocket)" "rsched s1 = read_plan p"
      "Fail \<notin> set (wsched s1)"
    using request_1 [OF assms(1)] .
  obtain s2 where s2: "write_usize index s1 = (True, s2)" "outq s2 = outq s1 @ enc_u64 index"
      "rsched s2 = rsched s1"
    using write_exact_all [OF s1(4), of "enc_u64 index"] by (auto simp: write_usize_def)
  have "inq (answer p s2) = plain (enc_u8 ?r) @ []"
    using assms(1,3) by (simp add: serves_def s1 s2 dispatch reply_RequestCompanionSocket_def)
  moreover have "reliable (answer p s2)"
    using assms(1) by (simp add: reliable_def serves_def s1 s2)
  ultimately obtain s3 where "read_u8 (answer p s2) = (?r, s3)"
    using rd_u8.rd_enc [of "answer p s2" ?r "[]"] by auto
  then show ?thesis by (auto simp: ConnectCompanion_def c1 s1 s2 close_fd_def)
qed

lemma ConnectCompanion_end_to_end_witness:
  "\<exists>c'. ConnectCompanion
     \<lparr>daemon_reply = handle_daemon_action \<lparr>dn_root = \<lparr>rq_impl = Magisk, rq_granted_root = \<lambda>u. False,
          rq_should_umount = \<lambda>u. False, rq_is_manager = \<lambda>u. False\<rparr>,
          dn_modules = [\<lparr>dm_name = ''lsp'', dm_lib_fd = 7\<rparr>], dn_pid = 1,
          dn_companion = \<lambda>_. True, dn_module_dir = \<lambda>_. None\<rparr>, read_plan = [], write_plan = []\<rparr>
     0 \<lparr>tmp_path = ''/d'', open_fds = [], next_fd = 3, connects = [True], sleeps = 0\<rparr> = Inr (3, c')"
  using ConnectCompanion_end_to_end [where index = 0 and
      p = "\<lparr>daemon_reply = handle_daemon_action \<lparr>dn_root = \<lparr>rq_impl = Magisk, rq_granted_root = \<lambda>u. False,
          rq_should_umount = \<lambda>u. False, rq_is_manager = \<lambda>u. False\<rparr>,
          dn_modules = [\<lparr>dm_name = ''lsp'', dm_lib_fd = 7\<rparr>], dn_pid = 1,
          dn_companion = \<lambda>_. True, dn_module_dir = \<lambda>_. None\<rparr>, read_plan = [], write_plan = []\<rparr>" and
      c = "\<lparr>tmp_path = ''/d'', open_fds = [], next_fd = 3, connects = [True], sleeps = 0\<rparr>" and
      d = "\<lparr>dn_root = \<lparr>rq_impl = Magisk, rq_granted_root = \<lambda>u. False,
          rq_should_umount = \<lambda>u. False, rq_is_manager = \<lambda>u. False\<rparr>,
          dn_modules = [\<lparr>dm_name = ''lsp'', dm_lib_fd = 7\<rparr>], dn_pid = 1,
          dn_companion = \<lambda>_. True, dn_module_dir = \<lambda>_. None\<rparr>"]
  by (auto simp: serves_def reachable_daemon_def)

text \<open>The root implementation as the client names it.\<close>

definition zygote_root :: "root_impl \<Rightarrow> zygote_root_impl" where
  "zygote_root r =
     (case r of KernelSU \<Rightarrow> ZYGOTE_ROOT_IMPL_KERNELSU | Magisk \<Rightarrow> ZYGOTE_ROOT_IMPL_MAGISK
      | APatch \<Rightarrow> ZYGOTE_ROOT_IMPL_APATCH | _ \<Rightarrow> ZYGOTE_ROOT_IMPL_NONE)"

lemma root_impl_of_flag: "root_flag r = Some w \<Longrightarrow> root_impl_of_flags w = zygote_root r"
  by (cases r)
    (auto simp: root_flag_def root_impl_of_flags_def zygote_root_def process_flag_defs)

text \<open>\<open>GetInfo\<close> reports of a running daemon the root implementation, the pid and the modules that the
  daemon has, each module under its display name, and closes its connection.\<close>

lemma GetInfo_end_to_end:
  assumes "serves d p" and "reachable_daemon c" and "root_flag (rq_impl (dn_root d)) \<noteq> None"
    and "length (dn_modules d) < 2 ^ 64 - 1" and "\<forall>m \<in> set (dn_modules d). fit_string (dm_name m)"
  shows "\<exists>c'. GetInfo p props True True info c =
      Inr (\<lparr>zi_modules = Ptr (map (module_display_name props \<circ> dm_name) (dn_modules d)),
            zi_root_impl = Some (zygote_root (rq_impl (dn_root d))), zi_pid = Some (sint (dn_pid d)),
            zi_running = Some True\<rparr>, c') \<and> open_fds c' = open_fds c"
proof -
  let ?n = "word_of_nat (length (dn_modules d)) :: u64"
  let ?names = "map dm_name (dn_modules d)"
  obtain rf where rf: "root_flag (rq_impl (dn_root d)) = Some rf" using assms(3) by blast
  obtain c1 where c1: "Connect 1 c = Inr (next_fd c, c1)" "next_fd c \<noteq> -1" "open_fds c1 = next_fd c # open_fds c"
    using Connect_reachable [OF assms(2), of 1] by auto
  obtain s1 where s1: "write_u8 (action_u8 SA_GetInfo) (new_sock p) = (True, s1)"
      "outq s1 = enc_u8 (action_u8 SA_GetInfo)" "rsched s1 = read_plan p"
    using request_1 [OF assms(1)] .
  let ?tail = "concat (map (\<lambda>x. plain (enc_string x)) ?names)"
  have q: "inq (answer p s1) = plain (enc_u32 rf) @ plain (enc_u32 (dn_pid d)) @ plain (enc_u64 ?n) @ ?tail @ []"
    using assms(1) dispatch(2) [of d "[]"] by (simp add: serves_def s1 reply_GetInfo_def rf comp_def)
  have "reliable (answer p s1)" using assms(1) by (simp add: reliable_def serves_def s1)
  with rd_u32.rd_enc [of "answer p s1" rf] q obtain s2 where s2: "read_u32 (answer p s1) = (rf, s2)"
      "inq s2 = plain (enc_u32 (dn_pid d)) @ plain (enc_u64 ?n) @ ?tail @ []" "reliable s2" by auto
  from rd_u32.rd_enc [OF s2(3) _ s2(2)] obtain s3 where s3: "read_u32 s2 = (dn_pid d, s3)"
      "inq s3 = plain (enc_u64 ?n) @ ?tail @ []" "reliable s3" by auto
  from rd_usize.rd_enc [OF s3(3) _ s3(2)] obtain s4 where s4: "read_usize s3 = (?n, s4)"
      "inq s4 = ?tail @ []" "reliable s4" by auto
  have "\<forall>x \<in> set ?names. fit_string x" using assms(5) by auto
  from rd_string.read_n_enc [OF s4(3) this s4(2)] obtain s5
    where s5: "read_n read_string (length (dn_modules d)) s4 = Inr (?names, s5)" by auto
  have n: "unat ?n = length (dn_modules d)" using assms(4) by (rule unat_length)
  then have z: "?n = 0 \<longleftrightarrow> dn_modules d = []" by (metis length_0_conv unat_eq_zero)
  show ?thesis
    using s5 by (cases "dn_modules d = []")
      (auto simp: GetInfo_def c1 s1 s2 s3 s4 n z close_fd_def root_impl_of_flag [OF rf] Let_def)
qed

section \<open>The display name of a module\<close>

abbreviation (input) LF :: char where "LF \<equiv> CHR 0x0A"

definition prop_line :: "string \<Rightarrow> bool" where
  "prop_line l \<longleftrightarrow> LF \<notin> set l \<and> NUL \<notin> set l \<and> length l < 1023"

definition unlines :: "string list \<Rightarrow> string" where
  "unlines ls = concat (map (\<lambda>l. l @ [LF]) ls)"

lemma fgets_line: "LF \<notin> set l \<Longrightarrow> length l < n \<Longrightarrow> fgets n (l @ LF # r) = (l @ [LF], r)"
proof (induction l arbitrary: n)
  case Nil
  then show ?case by (cases n) auto
next
  case (Cons c l)
  then show ?case by (cases n) auto
qed

lemma fgets_last: "LF \<notin> set l \<Longrightarrow> length l \<le> n \<Longrightarrow> fgets n l = (l, [])"
proof (induction l arbitrary: n)
  case Nil
  then show ?case by (cases n) auto
next
  case (Cons c l)
  then show ?case by (cases n) auto
qed

lemma find_name_skip:
  assumes "prop_line l" and "\<not> prefix ''name='' l"
  shows "find_name (l @ LF # r) = find_name r"
proof -
  have "take 5 (l @ [LF]) \<noteq> ''name=''"
  proof
    assume t: "take 5 (l @ [LF]) = ''name=''"
    then have "length (take 5 (l @ [LF])) = 5" by simp
    then have "length l \<ge> 4" by simp
    moreover have "length l \<noteq> 4"
    proof
      assume "length l = 4"
      then have "take 5 (l @ [LF]) = l @ [LF]" by simp
      with t have "last (l @ [LF]) = last ''name=''" by (metis)
      then show False by simp
    qed
    ultimately have "take 5 l = ''name=''" using t by simp
    then have "prefix ''name='' l" by (metis take_is_prefix)
    with assms(2) show False by blast
  qed
  with assms(1) show ?thesis
    by (subst find_name.simps)
      (simp add: prop_line_def fgets_line c_str_no_nul Let_def)
qed

lemma find_name_skips:
  "list_all prop_line ls \<Longrightarrow> list_all (\<lambda>l. \<not> prefix ''name='' l) ls \<Longrightarrow>
   find_name (unlines ls @ r) = find_name r"
  by (induction ls) (auto simp: unlines_def find_name_skip)

lemma find_name_end:
  assumes "LF \<notin> set x" and "NUL \<notin> set x" and "length x < 1017"
  shows "find_name (''name='' @ x @ LF # r) = Some x"
    and "x \<noteq> [] \<Longrightarrow> find_name (''name='' @ x) = Some (butlast x)"
proof -
  have "fgets 1023 ((''name='' @ x) @ LF # r) = ((''name='' @ x) @ [LF], r)"
    by (rule fgets_line) (use assms in auto)
  moreover have "c_str ((''name='' @ x) @ [LF]) = (''name='' @ x) @ [LF]"
    by (rule c_str_no_nul) (use assms in auto)
  ultimately show "find_name (''name='' @ x @ LF # r) = Some x"
    by (subst find_name.simps) (simp add: Let_def)
  have "fgets 1023 (''name='' @ x) = (''name='' @ x, [])"
    by (rule fgets_last) (use assms in auto)
  moreover have "c_str (''name='' @ x) = ''name='' @ x"
    by (rule c_str_no_nul) (use assms in auto)
  ultimately show "x \<noteq> [] \<Longrightarrow> find_name (''name='' @ x) = Some (butlast x)"
    by (subst find_name.simps) (simp add: Let_def butlast_conv_take)
qed

text \<open>The display name of a module is the text of the first \<open>name=\<close> line of its \<open>module.prop\<close>, without the
  newline; when the file has no such line the entry in the array that \<open>GetInfo\<close> hands out is never set.\<close>

lemma module_name_found:
  assumes "list_all prop_line ls" and "list_all (\<lambda>l. \<not> prefix ''name='' l) ls"
    and "LF \<notin> set x" and "NUL \<notin> set x" and "length x < 1017"
  shows "find_name (unlines ls @ ''name='' @ x @ LF # r) = Some x \<and> find_name (unlines ls) = None"
  using find_name_skips [OF assms(1,2)] find_name_end(1) [OF assms(3-5)] find_name_skips [OF assms(1,2), of "[]"]
  by (simp add: find_name.simps [of "[]"])

lemma module_name_found_witness:
  "find_name (unlines [''id=lsp''] @ ''name='' @ ''LSP'' @ LF # []) = Some ''LSP'' \<and>
   find_name (unlines [''id=lsp'']) = None"
  using module_name_found [of "[''id=lsp'']" "''LSP''" "[]"] by (simp add: prop_line_def)

text \<open>When the \<open>name=\<close> line is the last one and has no newline, the last character of the name is lost.\<close>

lemma module_name_truncated:
  assumes "list_all prop_line ls" and "list_all (\<lambda>l. \<not> prefix ''name='' l) ls"
    and "LF \<notin> set x" and "NUL \<notin> set x" and "length x < 1017" and "x \<noteq> []"
  shows "find_name (unlines ls @ ''name='' @ x) = Some (butlast x)"
  using find_name_skips [OF assms(1,2)] find_name_end(2) [OF assms(3-6)] by simp

end
