(* ===== verification/Wait_Status.thy ===== *)
theory Wait_Status
  imports Zygisk_Prelude
begin

text \<open>
  Wait statuses: bionic's macros, the \<open>STOPPED_WITH\<close> tests of \<open>monitor.cpp\<close> and \<open>ptracer.cpp\<close>, and the
  texts of \<open>parse_status\<close>, \<open>parse_ptrace_event\<close> and \<open>sigabbrev_np\<close> (\<open>loader/src/ptracer/utils.cpp\<close> and
  \<open>utils.hpp\<close>).  A status is a 32-bit \<open>int\<close>; \<open>>>\<close> on it is the arithmetic shift.
\<close>

section \<open>Bionic's macros\<close>

definition WTERMSIG :: "u32 \<Rightarrow> u32" where
  "WTERMSIG s = s AND 0x7f"

definition WEXITSTATUS :: "u32 \<Rightarrow> u32" where
  "WEXITSTATUS s = drop_bit 8 (s AND 0xff00)"

definition WSTOPSIG :: "u32 \<Rightarrow> u32" where
  "WSTOPSIG s = WEXITSTATUS s"

definition WIFEXITED :: "u32 \<Rightarrow> bool" where
  "WIFEXITED s \<longleftrightarrow> WTERMSIG s = 0"

definition WIFSTOPPED :: "u32 \<Rightarrow> bool" where
  "WIFSTOPPED s \<longleftrightarrow> WTERMSIG s = 0x7f"

definition WIFSIGNALED :: "u32 \<Rightarrow> bool" where
  "WIFSIGNALED s \<longleftrightarrow> WTERMSIG (s + 1) \<ge> 2"

definition WPTEVENT :: "u32 \<Rightarrow> u32" where
  "WPTEVENT s = signed_drop_bit 16 s"

lemmas wait_defs = WTERMSIG_def WEXITSTATUS_def WSTOPSIG_def WIFEXITED_def WIFSTOPPED_def
  WIFSIGNALED_def WPTEVENT_def

text \<open>Signals and ptrace events of Linux.\<close>

abbreviation (input) SIGTRAP :: u32 where "SIGTRAP \<equiv> 5"
abbreviation (input) SIGKILL :: u32 where "SIGKILL \<equiv> 9"
abbreviation (input) SIGSEGV :: u32 where "SIGSEGV \<equiv> 11"
abbreviation (input) SIGCHLD :: u32 where "SIGCHLD \<equiv> 17"
abbreviation (input) SIGCONT :: u32 where "SIGCONT \<equiv> 18"
abbreviation (input) SIGSTOP :: u32 where "SIGSTOP \<equiv> 19"
abbreviation (input) SIGTSTP :: u32 where "SIGTSTP \<equiv> 20"
abbreviation (input) SIGTTIN :: u32 where "SIGTTIN \<equiv> 21"
abbreviation (input) SIGTTOU :: u32 where "SIGTTOU \<equiv> 22"

abbreviation (input) PTRACE_EVENT_FORK :: u32 where "PTRACE_EVENT_FORK \<equiv> 1"
abbreviation (input) PTRACE_EVENT_EXEC :: u32 where "PTRACE_EVENT_EXEC \<equiv> 4"
abbreviation (input) PTRACE_EVENT_STOP :: u32 where "PTRACE_EVENT_STOP \<equiv> 128"

text \<open>The macro of \<open>monitor.cpp\<close> and the one of \<open>ptracer.cpp\<close>.\<close>

definition STOPPED_WITH :: "u32 \<Rightarrow> u32 \<Rightarrow> u32 \<Rightarrow> bool" where
  "STOPPED_WITH status sig event \<longleftrightarrow>
     WIFSTOPPED status \<and> signed_drop_bit 8 status = (sig OR push_bit 8 event)"

definition STOPPED_WITH_pt :: "u32 \<Rightarrow> u32 \<Rightarrow> u32 \<Rightarrow> bool" where
  "STOPPED_WITH_pt status sig event \<longleftrightarrow>
     WIFSTOPPED status \<and> WSTOPSIG status = sig \<and> signed_drop_bit 16 status = event"

text \<open>The status the kernel reports for a stop with a signal and a ptrace event.\<close>

definition stop_status :: "u32 \<Rightarrow> u32 \<Rightarrow> u32" where
  "stop_status sig event = push_bit 16 event OR push_bit 8 sig OR 0x7f"

section \<open>Texts\<close>

definition parse_ptrace_event :: "u32 \<Rightarrow> string" where
  "parse_ptrace_event status =
     (let e = signed_drop_bit 16 status in
      if e = 1 then ''PTRACE_EVENT_FORK''
      else if e = 2 then ''PTRACE_EVENT_VFORK''
      else if e = 3 then ''PTRACE_EVENT_CLONE''
      else if e = 4 then ''PTRACE_EVENT_EXEC''
      else if e = 5 then ''PTRACE_EVENT_VFORK_DONE''
      else if e = 6 then ''PTRACE_EVENT_EXIT''
      else if e = 7 then ''PTRACE_EVENT_SECCOMP''
      else if e = 128 then ''PTRACE_EVENT_STOP''
      else ''(no event)'')"

text \<open>Bionic's \<open>sys_signame\<close>; the entries of the real-time signals are null, which \<open>printf\<close> shows as
  \<open>(null)\<close>.\<close>

definition sys_signame :: "string list" where
  "sys_signame =
     [''(null)'', ''HUP'', ''INT'', ''QUIT'', ''ILL'', ''TRAP'', ''ABRT'', ''BUS'', ''FPE'', ''KILL'',
      ''USR1'', ''SEGV'', ''USR2'', ''PIPE'', ''ALRM'', ''TERM'', ''STKFLT'', ''CHLD'', ''CONT'', ''STOP'',
      ''TSTP'', ''TTIN'', ''TTOU'', ''URG'', ''XCPU'', ''XFSZ'', ''VTALRM'', ''PROF'', ''WINCH'', ''IO'',
      ''PWR'', ''SYS'']"

definition NSIG :: nat where "NSIG = 65"

definition sigabbrev_np :: "u32 \<Rightarrow> string" where
  "sigabbrev_np sig =
     (if sint sig > 0 \<and> unat sig < NSIG
      then if unat sig < length sys_signame then sys_signame ! unat sig else ''(null)''
      else ''(unknown)'')"

text \<open>\<open>parse_status(status, buf, len)\<close>: each \<open>snprintf\<close> appends what still fits before the last byte.\<close>

definition status_text_full :: "u32 \<Rightarrow> string" where
  "status_text_full status =
     ''0x'' @ show_hex (unat status) @ '' '' @
     (if WIFEXITED status then ''exited with '' @ show_nat (unat (WEXITSTATUS status))
      else if WIFSIGNALED status
      then ''signaled with '' @ sigabbrev_np (WTERMSIG status) @ ''('' @
           show_nat (unat (WTERMSIG status)) @ '')''
      else if WIFSTOPPED status
      then ''stopped by '' @ ''signal='' @ sigabbrev_np (WSTOPSIG status) @ ''('' @
           show_nat (unat (WSTOPSIG status)) @ ''),'' @ ''event='' @ parse_ptrace_event status
      else ''unknown'')"

definition parse_status :: "u32 \<Rightarrow> nat \<Rightarrow> string" where
  "parse_status status len = take (len - 1) (status_text_full status)"

section \<open>Facts about statuses\<close>

lemma WTERMSIG_mod: "unat (WTERMSIG s) = unat s mod 128"
proof -
  have "s AND 0x7f = take_bit 7 s" by (simp add: take_bit_eq_mask mask_eq_exp_minus_1)
  then show ?thesis by (simp add: WTERMSIG_def unsigned_take_bit_eq take_bit_eq_mod unat_mod_distrib)
qed

lemma WIFEXITED_mod: "WIFEXITED s \<longleftrightarrow> unat s mod 128 = 0"
  by (simp add: WIFEXITED_def WTERMSIG_mod flip: unat_eq_zero)

lemma WIFSTOPPED_mod: "WIFSTOPPED s \<longleftrightarrow> unat s mod 128 = 127"
proof -
  have "WTERMSIG s = 0x7f \<longleftrightarrow> unat (WTERMSIG s) = unat (0x7f :: u32)" by (rule word_unat_eq_iff)
  then show ?thesis by (simp add: WIFSTOPPED_def WTERMSIG_mod)
qed

lemma unat_succ_mod: "unat (s + 1 :: u32) mod 128 = Suc (unat s) mod 128"
proof -
  have "unat (s + 1) = (unat s + 1) mod 2 ^ 32" by (simp add: unat_word_ariths)
  then show ?thesis by (simp add: mod_mod_cancel)
qed

lemma WIFSIGNALED_mod: "WIFSIGNALED s \<longleftrightarrow> unat s mod 128 \<noteq> 0 \<and> unat s mod 128 \<noteq> 127"
proof -
  have "WIFSIGNALED s \<longleftrightarrow> 2 \<le> unat (WTERMSIG (s + 1))"
    by (simp add: WIFSIGNALED_def word_le_nat_alt)
  also have "\<dots> \<longleftrightarrow> 2 \<le> Suc (unat s) mod 128" by (simp add: WTERMSIG_mod unat_succ_mod)
  finally show ?thesis by (auto simp: mod_Suc)
qed

lemmas wait_mod = WIFEXITED_mod WIFSTOPPED_mod WIFSIGNALED_mod

lemma wait_status_exclusive:
  "(WIFEXITED s \<and> \<not> WIFSIGNALED s \<and> \<not> WIFSTOPPED s) \<or>
   (\<not> WIFEXITED s \<and> WIFSIGNALED s \<and> \<not> WIFSTOPPED s) \<or>
   (\<not> WIFEXITED s \<and> \<not> WIFSIGNALED s \<and> WIFSTOPPED s)"
  unfolding wait_mod by linarith

lemma STOPPED_WITH_stopped: "STOPPED_WITH s sig ev \<Longrightarrow> WIFSTOPPED s"
  by (simp add: STOPPED_WITH_def)

lemma STOPPED_WITH_inj:
  "STOPPED_WITH s sig ev \<Longrightarrow> STOPPED_WITH s sig' ev' \<Longrightarrow> sig OR push_bit 8 ev = sig' OR push_bit 8 ev'"
  by (simp add: STOPPED_WITH_def)

lemma length_parse_status: "length (parse_status s len) \<le> len - 1"
  by (simp add: parse_status_def)

end
