(* ===== verification/Monitor_State.thy ===== *)
theory Monitor_State
  imports Wait_Status
begin

text \<open>
  The monitor's state and its status file: \<open>loader/src/ptracer/monitor.h\<close> and the parts of
  \<open>monitor.cpp\<close> that build and write \<open>module.prop\<close> (\<open>WRITE_STATUS_ABI\<close>, \<open>updateStatus\<close>,
  \<open>prepare_environment\<close>).

  The globals of the process are the record \<open>monitor\<close>.  \<open>daemon_info\<close> and \<open>daemon_error_info\<close> are heap
  buffers: the bytes allocated, with their NUL.  The calls to the kernel that have no result the code
  uses are recorded in order in \<open>calls\<close>.
\<close>

section \<open>State\<close>

datatype TracingState = TRACING | STOPPING | STOPPED | EXITING

record status =
  supported :: bool
  zygote_injected :: bool
  daemon_running :: bool
  daemon_pid :: pid
  daemon_info :: "string option"
  daemon_error_info :: "string option"

definition Status_init :: status where
  "Status_init = \<lparr>supported = False, zygote_injected = False, daemon_running = False,
                  daemon_pid = -1, daemon_info = None, daemon_error_info = None\<rparr>"

datatype sys_call =
    Ptrace_Seize pid
  | Ptrace_Interrupt pid
  | Ptrace_Geteventmsg pid
  | Ptrace_Setoptions pid
  | Ptrace_Cont pid u32
  | Ptrace_Detach pid u32
  | Kill pid u32
  | Fork_Daemon bool
  | Exec_Tracer string pid     \<comment> \<open>the double fork that runs the tracer on this pid\<close>
  | Duplicate_Monitor          \<comment> \<open>a forked copy of the monitor goes on in the event loop\<close>
  | Mount_Prop
  | Umount_Prop

record monitor =
  tracing_state :: TracingState
  monitor_stop_reason :: string
  status64 :: status
  status32 :: status
  count_zygote64 :: int
  last_zygote64 :: int
  count_zygote32 :: int
  last_zygote32 :: int
  processes :: "pid set"
  wait_status :: u32           \<comment> \<open>\<open>SigChldHandler::status\<close>\<close>
  running :: bool              \<comment> \<open>\<open>EventLoop::running\<close>\<close>
  prop_path :: string
  prop_writable :: bool        \<comment> \<open>whether \<open>fopen(prop_path, "w")\<close> succeeds\<close>
  prop_file :: string
  pre_section :: string
  post_section :: string
  calls :: "sys_call list"

definition monitor_init :: monitor where
  "monitor_init =
     \<lparr>tracing_state = TRACING, monitor_stop_reason = [], status64 = Status_init,
      status32 = Status_init, count_zygote64 = 0, last_zygote64 = 0, count_zygote32 = 0,
      last_zygote32 = 0, processes = {}, wait_status = 0, running = False, prop_path = [],
      prop_writable = True, prop_file = [], pre_section = [], post_section = [], calls = []\<rparr>"

definition call :: "sys_call \<Rightarrow> monitor \<Rightarrow> monitor" where
  "call k m = m\<lparr>calls := calls m @ [k]\<rparr>"

text \<open>The \<open>Status\<close> a handler for one ABI works on.\<close>

definition get_status :: "bool \<Rightarrow> monitor \<Rightarrow> status" where
  "get_status is_64bit m = (if is_64bit then status64 m else status32 m)"

definition set_status :: "bool \<Rightarrow> status \<Rightarrow> monitor \<Rightarrow> monitor" where
  "set_status is_64bit s m = (if is_64bit then m\<lparr>status64 := s\<rparr> else m\<lparr>status32 := s\<rparr>)"

section \<open>The status line\<close>

text \<open>The UTF-8 bytes of the three symbols.\<close>

definition sym_yum :: string where "sym_yum = [CHR 0xF0, CHR 0x9F, CHR 0x98, CHR 0x8B]"
definition sym_cross :: string where "sym_cross = [CHR 0xE2, CHR 0x9D, CHR 0x8C]"
definition sym_question :: string where "sym_question = [CHR 0xE2, CHR 0x9D, CHR 0x93]"

definition in_parens :: "string option \<Rightarrow> string" where
  "in_parens b = (case b of None \<Rightarrow> [] | Some s \<Rightarrow> ''('' @ c_str s @ '')'')"

definition WRITE_STATUS_ABI :: "string \<Rightarrow> TracingState \<Rightarrow> status \<Rightarrow> string" where
  "WRITE_STATUS_ABI abi ts st =
     (if supported st
      then '' zygote'' @ abi @ '':'' @
           (if ts \<noteq> TRACING then sym_question @ '' unknown, ''
            else if zygote_injected st then sym_yum @ '' injected, ''
            else sym_cross @ '' not injected, '') @
           '' daemon'' @ abi @ '':'' @
           (if daemon_running st then sym_yum @ ''running'' @ in_parens (daemon_info st)
            else sym_cross @ '' crashed '' @ in_parens (daemon_error_info st))
      else [])"

definition status_text :: "monitor \<Rightarrow> string" where
  "status_text m =
     ''monitor: '' @
     (case tracing_state m of
        TRACING \<Rightarrow> sym_yum @ '' tracing''
      | STOPPING \<Rightarrow> sym_cross @ '' stopped''
      | STOPPED \<Rightarrow> sym_cross @ '' stopped''
      | EXITING \<Rightarrow> sym_cross @ '' exited'') @
     (if tracing_state m \<noteq> TRACING \<and> monitor_stop_reason m \<noteq> []
      then ''('' @ monitor_stop_reason m @ '')'' else []) @
     '','' @
     WRITE_STATUS_ABI ''64'' (tracing_state m) (status64 m) @
     WRITE_STATUS_ABI ''32'' (tracing_state m) (status32 m)"

text \<open>\<open>status_text\<close> is a buffer of 1024 bytes that \<open>strcat\<close> fills unchecked.\<close>

definition updateStatus :: "monitor \<Rightarrow> monitor res" where
  "updateStatus m =
     (if length (status_text m) \<ge> 1024 then Inl Out_Of_Bounds
      else if \<not> prop_writable m then Inl Null_Deref
      else Inr (m\<lparr>prop_file := c_str (pre_section m) @ ''['' @ status_text m @ ''] '' @
                                c_str (post_section m)\<rparr>))"

section \<open>Splitting module.prop\<close>

definition field_name :: string where
  "field_name = ''description=''"

text \<open>
  The two nested loops of \<open>prepare_environment\<close> over the characters of the file: the outer one, and the
  inner one with the number \<open>i\<close> of characters of \<open>field_name\<close> that have matched.  A full match hands the
  rest of the file to \<open>post_section\<close>.
\<close>

fun scan_outer :: "string \<Rightarrow> string \<Rightarrow> string \<times> string"
  and scan_inner :: "nat \<Rightarrow> string \<Rightarrow> string \<Rightarrow> string \<times> string" where
  "scan_outer [] pre = (pre, [])"
| "scan_outer (c # cs) pre =
     (if c \<noteq> field_name ! 0 then scan_outer cs (pre @ [c]) else scan_inner 1 cs (pre @ [c]))"
| "scan_inner i [] pre = (pre, [])"
| "scan_inner i (c # cs) pre =
     (if c = field_name ! i
      then if i + 1 = length field_name then (pre @ [c], cs) else scan_inner (i + 1) cs (pre @ [c])
      else scan_outer cs (pre @ [c]))"

text \<open>\<open>pre_section\<close> and \<open>post_section\<close> have 1024 bytes each, written unchecked with their NUL.\<close>

definition prepare_environment :: "string \<Rightarrow> string option \<Rightarrow> monitor \<Rightarrow> (bool \<times> monitor) res" where
  "prepare_environment tmp orig_prop m =
     (let m1 = m\<lparr>prop_path := prop_path m @ tmp @ ''/module.prop'', prop_file := []\<rparr>
      in case orig_prop of
           None \<Rightarrow> Inr (False, m1)
         | Some content \<Rightarrow>
             (case scan_outer content [] of (pre, post) \<Rightarrow>
                if length pre \<ge> 1024 \<or> length post \<ge> 1024 then Inl Out_Of_Bounds
                else
                  bind_r (updateStatus (m1\<lparr>pre_section := pre, post_section := post\<rparr>))
                    (\<lambda>m2. Inr (True, m2))))"

section \<open>updateStatus only writes the file\<close>

lemma updateStatus_frame:
  "updateStatus m = Inr m' \<Longrightarrow> \<exists>f. m' = m\<lparr>prop_file := f\<rparr>"
  by (auto simp: updateStatus_def split: if_splits)

lemma updateStatus_keeps:
  assumes "updateStatus m = Inr m'"
  shows "tracing_state m' = tracing_state m" "monitor_stop_reason m' = monitor_stop_reason m"
    "status64 m' = status64 m" "status32 m' = status32 m" "processes m' = processes m"
    "running m' = running m" "calls m' = calls m" "count_zygote64 m' = count_zygote64 m"
    "count_zygote32 m' = count_zygote32 m" "last_zygote64 m' = last_zygote64 m"
    "last_zygote32 m' = last_zygote32 m" "wait_status m' = wait_status m"
    "pre_section m' = pre_section m" "post_section m' = post_section m"
    "prop_writable m' = prop_writable m"
  using updateStatus_frame [OF assms] by auto

section \<open>The scanner\<close>

lemma scan_conserves:
  "scan_outer cs pre = (a, b) \<Longrightarrow> a @ b = pre @ cs"
  "scan_inner i cs pre = (a, b) \<Longrightarrow> a @ b = pre @ cs"
  by (induction cs pre and i cs pre arbitrary: a b and a b rule: scan_outer_scan_inner.induct)
    (auto split: if_splits)

lemma scan_inner_match:
  "0 < i \<Longrightarrow> i < length field_name \<Longrightarrow>
   scan_inner i (drop i field_name @ rest) pre = (pre @ drop i field_name, rest)"
proof (induction "length field_name - i" arbitrary: i pre)
  case (Suc n)
  have d: "drop i field_name = field_name ! i # drop (Suc i) field_name"
    using Suc.prems by (simp add: Cons_nth_drop_Suc)
  show ?case
  proof (cases "i + 1 = length field_name")
    case True
    then have "drop (Suc i) field_name = []" by simp
    with True show ?thesis by (simp add: d)
  next
    case False
    with Suc.hyps(2) Suc.prems have "n = length field_name - Suc i" "Suc i < length field_name" by auto
    with Suc.hyps(1) [of "Suc i"] False show ?thesis by (simp add: d)
  qed
qed simp


abbreviation (input) NL :: char where "NL \<equiv> CHR 0x0A"

lemma NL_notin_field: "i < length field_name \<Longrightarrow> field_name ! i \<noteq> NL"
proof
  assume "i < length field_name" and "field_name ! i = NL"
  then have "NL \<in> set field_name" by (metis nth_mem)
  then show False by (simp add: field_name_def)
qed

lemma scan_skips_line:
  "\<not> sublist field_name (cs @ [NL]) \<Longrightarrow>
     scan_outer (cs @ NL # r) pre = scan_outer r (pre @ cs @ [NL])"
  "0 < i \<Longrightarrow> i < length field_name \<Longrightarrow> \<not> sublist field_name (take i field_name @ cs @ [NL]) \<Longrightarrow>
     scan_inner i (cs @ NL # r) pre = scan_outer r (pre @ cs @ [NL])"
proof (induction cs arbitrary: i pre)
  case Nil
  {
    case 1
    show ?case using NL_notin_field [of 0] by (simp add: field_name_def)
  next
    case 2
    then show ?case using NL_notin_field [of i] by simp
  }
next
  case (Cons c cs)
  {
    case 1
    have out: "\<not> sublist field_name (cs @ [NL])"
      using 1 by (metis append_Cons sublist_Cons_right)
    have "take 1 field_name = [field_name ! 0]" by (simp add: field_name_def)
    then have inn: "\<not> sublist field_name (take 1 field_name @ cs @ [NL])" if "c = field_name ! 0"
      using 1 that by simp
    show ?case
      using Cons.IH(1) [OF out, of "pre @ [c]"] Cons.IH(2) [of 1 "pre @ [c]"] inn
      by (auto simp: field_name_def)
  next
    case 2
    show ?case
    proof (cases "c = field_name ! i")
      case True
      then have tk: "take i field_name @ c # cs @ [NL] = take (Suc i) field_name @ cs @ [NL]"
        using 2(2) by (simp add: take_Suc_conv_app_nth)
      have ns: "\<not> sublist field_name (take (Suc i) field_name @ cs @ [NL])"
        using 2(3) unfolding tk [symmetric] by simp
      then have "Suc i \<noteq> length field_name" by auto
      with True 2(1,2) Cons.IH(2) [OF _ _ ns, of "pre @ [c]"] show ?thesis by simp
    next
      case False
      have "take i field_name @ (c # cs) @ [NL] = (take i field_name @ [c]) @ (cs @ [NL]) @ []" by simp
      then have "sublist (cs @ [NL]) (take i field_name @ (c # cs) @ [NL])" unfolding sublist_def by blast
      then have "\<not> sublist field_name (cs @ [NL])"
        using 2(3) sublist_order.order_trans by blast
      with False Cons.IH(1) show ?thesis by simp
    qed
  }
qed

lemma scan_field: "scan_outer (field_name @ rest) pre = (pre @ field_name, rest)"
proof -
  have f: "field_name = field_name ! 0 # drop 1 field_name" by (simp add: field_name_def)
  have "scan_outer (field_name @ rest) pre = scan_inner 1 (drop 1 field_name @ rest) (pre @ [field_name ! 0])"
    by (subst f) simp
  also have "\<dots> = ((pre @ [field_name ! 0]) @ drop 1 field_name, rest)"
    by (rule scan_inner_match) (simp_all add: field_name_def)
  finally show ?thesis using f by (metis append.assoc append_Cons append_Nil)
qed

lemma scan_finds_line:
  "\<not> sublist field_name (p @ [NL]) \<Longrightarrow>
   scan_outer (p @ NL # field_name @ rest) [] = (p @ NL # field_name, rest)"
  by (simp add: scan_skips_line(1) scan_field)

text \<open>A first character \<open>d\<close> right before the field hides it from the scanner.\<close>

lemma scan_misses: "scan_outer (CHR ''d'' # field_name) [] = (CHR ''d'' # field_name, [])"
  by (simp add: field_name_def)


section \<open>Invariant and transitions\<close>

text \<open>A \<open>Status\<close> knows a daemon exactly when the ABI is supported, and its text buffers end in a NUL.\<close>

definition abi_ok :: "status \<Rightarrow> bool" where
  "abi_ok st \<longleftrightarrow>
     (if supported st then daemon_pid st > 0 else daemon_pid st = -1 \<and> \<not> daemon_running st) \<and>
     (\<forall>b. daemon_info st = Some b \<longrightarrow> b \<noteq> [] \<and> last b = NUL) \<and>
     (\<forall>b. daemon_error_info st = Some b \<longrightarrow> b \<noteq> [] \<and> last b = NUL)"

text \<open>Inside the event loop: the loop stops exactly when the monitor exits, a monitor that does not trace
  has a reason, and the reason fits its buffer of 32 bytes.\<close>

definition mon_inv :: "monitor \<Rightarrow> bool" where
  "mon_inv m \<longleftrightarrow>
     abi_ok (status64 m) \<and> abi_ok (status32 m) \<and>
     (running m \<longleftrightarrow> tracing_state m \<noteq> EXITING) \<and>
     (tracing_state m \<noteq> TRACING \<longrightarrow> monitor_stop_reason m \<noteq> []) \<and>
     length (monitor_stop_reason m) < 32 \<and>
     0 \<le> count_zygote64 m \<and> 0 \<le> count_zygote32 m"

inductive ts_step :: "TracingState \<Rightarrow> TracingState \<Rightarrow> bool" where
  stop: "ts_step TRACING STOPPING"
| restart_pending: "ts_step STOPPING TRACING"
| stopped: "ts_step STOPPING STOPPED"
| restart: "ts_step STOPPED TRACING"
| exit: "ts_step s EXITING"

inductive_cases ts_step_EXITINGE: "ts_step EXITING s"

definition ts_path :: "TracingState \<Rightarrow> TracingState \<Rightarrow> bool" where
  "ts_path = ts_step\<^sup>*\<^sup>*"

lemma ts_path_refl [simp, intro]: "ts_path s s"
  by (simp add: ts_path_def)

lemma ts_path_step [intro]: "ts_step s t \<Longrightarrow> ts_path s t"
  by (simp add: ts_path_def)

lemma ts_path_trans [trans]: "ts_path s t \<Longrightarrow> ts_path t u \<Longrightarrow> ts_path s u"
  unfolding ts_path_def by (rule rtranclp_trans)

lemma ts_path_EXITING: "ts_path EXITING s \<Longrightarrow> s = EXITING"
  unfolding ts_path_def
  by (induction rule: rtranclp_induct) (auto elim: ts_step_EXITINGE)

text \<open>What a handler of the event loop may do to the monitor.\<close>

definition mon_rel :: "monitor \<Rightarrow> monitor \<Rightarrow> bool" where
  "mon_rel m m' \<longleftrightarrow> (mon_inv m \<longrightarrow> mon_inv m') \<and> ts_path (tracing_state m) (tracing_state m') \<and>
     (\<exists>cs. calls m' = calls m @ cs)"

lemma mon_rel_refl [simp, intro]: "mon_rel m m"
  by (simp add: mon_rel_def)

lemma mon_rel_trans [trans]: "mon_rel a b \<Longrightarrow> mon_rel b c \<Longrightarrow> mon_rel a c"
  unfolding mon_rel_def by (auto intro: ts_path_trans)

lemma mon_rel_updateStatus: "updateStatus m = Inr m' \<Longrightarrow> mon_rel m m'"
  by (simp add: mon_rel_def mon_inv_def updateStatus_keeps)

lemma mon_rel_call [simp]: "mon_rel m (call k m)"
  by (auto simp: mon_rel_def mon_inv_def call_def)

lemma call_simps [simp]:
  "tracing_state (call k m) = tracing_state m" "monitor_stop_reason (call k m) = monitor_stop_reason m"
  "status64 (call k m) = status64 m" "status32 (call k m) = status32 m"
  "processes (call k m) = processes m" "running (call k m) = running m"
  "calls (call k m) = calls m @ [k]" "wait_status (call k m) = wait_status m"
  "count_zygote64 (call k m) = count_zygote64 m" "count_zygote32 (call k m) = count_zygote32 m"
  "prop_writable (call k m) = prop_writable m" "pre_section (call k m) = pre_section m"
  "post_section (call k m) = post_section m"
  by (simp_all add: call_def)

lemma status_text_call [simp]: "status_text (call k m) = status_text m"
  by (simp add: status_text_def)

end
