(* ===== verification/Monitor_Socket.thy ===== *)
theory Monitor_Socket
  imports Monitor_State
begin

text \<open>
  The control socket of the monitor: \<open>SocketHandler::HandleEvent\<close> and \<open>send_control_command\<close> of
  \<open>loader/src/ptracer/monitor.cpp\<close>.

  The socket is the queue of what the calls of \<open>recv\<close> will find: datagrams, or an error other than
  \<open>EAGAIN\<close>; an empty queue is \<open>EAGAIN\<close>.  A datagram is first peeked at, so a \<open>continue\<close> before the second
  \<open>recv\<close> meets the same datagram again.  The loop is a \<open>partial_function\<close>: not returning is \<^term>\<open>None\<close>.

  \<open>msg\<close> is a reference into \<open>buf\<close> taken before \<open>buf.resize(real_size)\<close>.  The model reads the message from
  the resized buffer; \<open>msg_dangles\<close> says when the resize has moved the buffer.
\<close>

section \<open>Commands\<close>

datatype Command =
    START | STOP | EXIT | ZYGOTE64_INJECTED | ZYGOTE32_INJECTED | DAEMON64_SET_INFO
  | DAEMON32_SET_INFO | DAEMON64_SET_ERROR_INFO | DAEMON32_SET_ERROR_INFO | SYSTEM_SERVER_STARTED

definition Command_u32 :: "Command \<Rightarrow> u32" where
  "Command_u32 c =
     (case c of START \<Rightarrow> 1 | STOP \<Rightarrow> 2 | EXIT \<Rightarrow> 3 | ZYGOTE64_INJECTED \<Rightarrow> 4 | ZYGOTE32_INJECTED \<Rightarrow> 5
      | DAEMON64_SET_INFO \<Rightarrow> 6 | DAEMON32_SET_INFO \<Rightarrow> 7 | DAEMON64_SET_ERROR_INFO \<Rightarrow> 8
      | DAEMON32_SET_ERROR_INFO \<Rightarrow> 9 | SYSTEM_SERVER_STARTED \<Rightarrow> 10)"

definition Command_of :: "u32 \<Rightarrow> Command option" where
  "Command_of w =
     (if w = 1 then Some START else if w = 2 then Some STOP else if w = 3 then Some EXIT
      else if w = 4 then Some ZYGOTE64_INJECTED else if w = 5 then Some ZYGOTE32_INJECTED
      else if w = 6 then Some DAEMON64_SET_INFO else if w = 7 then Some DAEMON32_SET_INFO
      else if w = 8 then Some DAEMON64_SET_ERROR_INFO else if w = 9 then Some DAEMON32_SET_ERROR_INFO
      else if w = 10 then Some SYSTEM_SERVER_STARTED else None)"

text \<open>The datagram of \<open>send_control_command\<close>, and its result from what \<open>socket\<close> and \<open>sendto\<close> return.\<close>

definition send_control_command :: "Command \<Rightarrow> int \<Rightarrow> int \<Rightarrow> int \<times> string" where
  "send_control_command cmd sockfd nsend =
     (if sockfd = -1 then (-1, []) else (if nsend \<noteq> 4 then -1 else 0, enc_u32 (Command_u32 cmd)))"

section \<open>One message\<close>

text \<open>\<open>malloc(msg.length)\<close>, \<open>memcpy\<close> of \<open>msg.length - 1\<close> bytes and the NUL behind them.\<close>

definition copy_text :: "int \<Rightarrow> string \<Rightarrow> string res" where
  "copy_text len data =
     (if len \<le> 0 then Inl Out_Of_Bounds else Inr (take (nat len - 1) data @ [NUL]))"

definition set_daemon_info :: "bool \<Rightarrow> int \<Rightarrow> string \<Rightarrow> monitor \<Rightarrow> monitor res" where
  "set_daemon_info is_64bit len data m =
     bind_r (copy_text len data) (\<lambda>b.
       updateStatus (set_status is_64bit ((get_status is_64bit m)\<lparr>daemon_info := Some b\<rparr>) m))"

definition set_daemon_error_info :: "bool \<Rightarrow> int \<Rightarrow> string \<Rightarrow> monitor \<Rightarrow> monitor res" where
  "set_daemon_error_info is_64bit len data m =
     bind_r (copy_text len data) (\<lambda>b.
       updateStatus (set_status is_64bit
         ((get_status is_64bit m)\<lparr>daemon_running := False, daemon_error_info := Some b\<rparr>) m))"

definition handle_command :: "Command \<Rightarrow> int \<Rightarrow> string \<Rightarrow> monitor \<Rightarrow> monitor res" where
  "handle_command cmd len data m =
     (case cmd of
        START \<Rightarrow>
          updateStatus
            (if tracing_state m = STOPPING then m\<lparr>tracing_state := TRACING\<rparr>
             else if tracing_state m = STOPPED
             then (call (Ptrace_Seize 1) m)\<lparr>tracing_state := TRACING\<rparr>
             else m)
      | STOP \<Rightarrow>
          if tracing_state m = TRACING
          then updateStatus (call (Ptrace_Interrupt 1)
                 (m\<lparr>tracing_state := STOPPING, monitor_stop_reason := ''user requested''\<rparr>))
          else Inr m
      | EXIT \<Rightarrow>
          bind_r (updateStatus
                    (m\<lparr>tracing_state := EXITING, monitor_stop_reason := ''user requested''\<rparr>))
            (\<lambda>m'. Inr (m'\<lparr>running := False\<rparr>))
      | ZYGOTE64_INJECTED \<Rightarrow> updateStatus (m\<lparr>status64 := (status64 m)\<lparr>zygote_injected := True\<rparr>\<rparr>)
      | ZYGOTE32_INJECTED \<Rightarrow> updateStatus (m\<lparr>status32 := (status32 m)\<lparr>zygote_injected := True\<rparr>\<rparr>)
      | DAEMON64_SET_INFO \<Rightarrow> set_daemon_info True len data m
      | DAEMON32_SET_INFO \<Rightarrow> set_daemon_info False len data m
      | DAEMON64_SET_ERROR_INFO \<Rightarrow> set_daemon_error_info True len data m
      | DAEMON32_SET_ERROR_INFO \<Rightarrow> set_daemon_error_info False len data m
      | SYSTEM_SERVER_STARTED \<Rightarrow> Inr (call Mount_Prop m))"

section \<open>Receiving\<close>

datatype rx = Rx_Dgram string | Rx_Err

definition msg_cmd :: "string \<Rightarrow> u32" where
  "msg_cmd d = dec_word (take 4 d)"

definition msg_length :: "string \<Rightarrow> int" where
  "msg_length d = sint (dec_word (take 4 (drop 4 d)) :: u32)"

text \<open>What the peek decides: \<^term>\<open>None\<close> is a \<open>continue\<close> that leaves the datagram in the queue.\<close>

definition peek_size :: "string \<Rightarrow> int option" where
  "peek_size d =
     (let nread = min 8 (length d) in
      if nread < 4 then None
      else if msg_cmd d \<ge> Command_u32 DAEMON64_SET_INFO \<and> msg_cmd d \<noteq> Command_u32 SYSTEM_SERVER_STARTED
      then if nread \<noteq> 8 then None else Some (8 + msg_length d)
      else if nread \<noteq> 4 then None else Some 4)"

text \<open>\<open>std::vector::resize\<close> from 8 bytes: it moves the buffer when the new size exceeds the capacity.\<close>

definition msg_dangles :: "int \<Rightarrow> bool" where
  "msg_dangles real_size \<longleftrightarrow> real_size > 8"

definition recv_message :: "int \<Rightarrow> string \<Rightarrow> monitor \<Rightarrow> monitor res" where
  "recv_message real_size d m =
     (if real_size < 0 then Inl Bad_Alloc
      else
        (let nread = min (length d) (nat real_size) in
         if int nread \<noteq> real_size then Inr m
         else
           (case Command_of (msg_cmd d) of
              None \<Rightarrow> Inr m
            | Some cmd \<Rightarrow> handle_command cmd (msg_length d) (drop 8 (take nread d)) m)))"

partial_function (option) socket_HandleEvent :: "rx list \<Rightarrow> monitor \<Rightarrow> monitor res option" where
  "socket_HandleEvent q m =
     (case q of
        [] \<Rightarrow> Some (Inr m)
      | Rx_Err # q' \<Rightarrow> socket_HandleEvent q' m
      | Rx_Dgram d # q' \<Rightarrow>
          (case peek_size d of
             None \<Rightarrow> socket_HandleEvent q m
           | Some real_size \<Rightarrow>
               (case recv_message real_size d m of
                  Inl e \<Rightarrow> Some (Inl e)
                | Inr m' \<Rightarrow> socket_HandleEvent q' m')))"

declare socket_HandleEvent.simps [code]

section \<open>The messages keep the monitor in order\<close>

lemma mon_rel_set_status:
  assumes "abi_ok (get_status b m) \<Longrightarrow> abi_ok st"
  shows "mon_rel m (set_status b st m)"
  using assms by (auto simp: mon_rel_def mon_inv_def set_status_def get_status_def)

lemma copy_text_ok: "copy_text len data = Inr b \<Longrightarrow> b \<noteq> [] \<and> last b = NUL"
  by (auto simp: copy_text_def split: if_splits)

lemma mon_rel_set_info:
  "set_daemon_info b len data m = Inr m' \<Longrightarrow> mon_rel m m'"
  "set_daemon_error_info b len data m = Inr m' \<Longrightarrow> mon_rel m m'"
  by (auto simp: set_daemon_info_def set_daemon_error_info_def res_simps abi_ok_def
      dest!: mon_rel_updateStatus copy_text_ok split: if_splits
      elim!: mon_rel_trans [rotated] intro!: mon_rel_set_status)

lemma mon_rel_state:
  assumes "ts_step (tracing_state m) s" and "s \<noteq> EXITING" and "tracing_state m \<noteq> EXITING"
    and "s = TRACING \<or> r \<noteq> []" and "length r < 32"
  shows "mon_rel m (m\<lparr>tracing_state := s, monitor_stop_reason := r\<rparr>)"
  using assms by (auto simp: mon_rel_def mon_inv_def)

lemma mon_rel_TRACING:
  assumes "tracing_state m = STOPPING \<or> tracing_state m = STOPPED"
  shows "mon_rel m (m\<lparr>tracing_state := TRACING\<rparr>)"
  using assms by (auto simp: mon_rel_def mon_inv_def intro!: ts_path_step intro: ts_step.intros)

lemma mon_rel_EXIT:
  assumes "updateStatus (m\<lparr>tracing_state := EXITING, monitor_stop_reason := ''user requested''\<rparr>) = Inr m'"
  shows "mon_rel m (m'\<lparr>running := False\<rparr>)"
  using updateStatus_keeps [OF assms]
  by (auto simp: mon_rel_def mon_inv_def intro!: ts_path_step intro: ts_step.intros)

lemma mon_rel_handle_command:
  assumes "handle_command cmd len data m = Inr m'"
  shows "mon_rel m m'"
proof (cases cmd)
  case START
  let ?m1 = "if tracing_state m = STOPPING then m\<lparr>tracing_state := TRACING\<rparr>
             else if tracing_state m = STOPPED
             then (call (Ptrace_Seize 1) m)\<lparr>tracing_state := TRACING\<rparr> else m"
  have "mon_rel m ((call (Ptrace_Seize 1) m)\<lparr>tracing_state := TRACING\<rparr>)" if "tracing_state m = STOPPED"
    using that by (intro mon_rel_trans [OF mon_rel_call mon_rel_TRACING]) simp
  then have "mon_rel m ?m1"
    by (simp add: mon_rel_TRACING)
  moreover have "mon_rel ?m1 m'"
    using assms START by (intro mon_rel_updateStatus) (simp add: handle_command_def)
  ultimately show ?thesis by (rule mon_rel_trans)
next
  case STOP
  show ?thesis
  proof (cases "tracing_state m = TRACING")
    case True
    let ?m1 = "m\<lparr>tracing_state := STOPPING, monitor_stop_reason := ''user requested''\<rparr>"
    have "mon_rel m ?m1" using True by (intro mon_rel_state) (auto intro: ts_step.intros)
    also have "mon_rel ?m1 (call (Ptrace_Interrupt 1) ?m1)" by simp
    also have "mon_rel \<dots> m'"
      using assms STOP True by (intro mon_rel_updateStatus) (simp add: handle_command_def)
    finally show ?thesis .
  qed (use assms STOP in \<open>simp add: handle_command_def\<close>)
next
  case EXIT
  then show ?thesis using assms by (auto simp: handle_command_def res_simps dest: mon_rel_EXIT)
next
  case ZYGOTE64_INJECTED
  have "mon_rel m (m\<lparr>status64 := (status64 m)\<lparr>zygote_injected := True\<rparr>\<rparr>)"
    using mon_rel_set_status [of True m "(status64 m)\<lparr>zygote_injected := True\<rparr>"]
    by (auto simp: set_status_def get_status_def abi_ok_def)
  with assms ZYGOTE64_INJECTED show ?thesis
    by (auto simp: handle_command_def dest!: mon_rel_updateStatus elim: mon_rel_trans)
next
  case ZYGOTE32_INJECTED
  have "mon_rel m (m\<lparr>status32 := (status32 m)\<lparr>zygote_injected := True\<rparr>\<rparr>)"
    using mon_rel_set_status [of False m "(status32 m)\<lparr>zygote_injected := True\<rparr>"]
    by (auto simp: set_status_def get_status_def abi_ok_def)
  with assms ZYGOTE32_INJECTED show ?thesis
    by (auto simp: handle_command_def dest!: mon_rel_updateStatus elim: mon_rel_trans)
qed (use assms mon_rel_set_info in \<open>auto simp: handle_command_def\<close>)

lemma mon_rel_recv_message: "recv_message sz d m = Inr m' \<Longrightarrow> mon_rel m m'"
  by (auto simp: recv_message_def Let_def dest: mon_rel_handle_command split: if_splits option.splits)

section \<open>The loop against a reference\<close>

text \<open>The reference handles the datagrams one after the other and never looks back at one it cannot use.\<close>

fun handle_all :: "rx list \<Rightarrow> monitor \<Rightarrow> monitor res" where
  "handle_all [] m = Inr m"
| "handle_all (Rx_Err # q) m = handle_all q m"
| "handle_all (Rx_Dgram d # q) m =
     (case peek_size d of
        None \<Rightarrow> handle_all q m
      | Some real_size \<Rightarrow> bind_r (recv_message real_size d m) (handle_all q))"

definition wf_rx :: "rx \<Rightarrow> bool" where
  "wf_rx r = (case r of Rx_Err \<Rightarrow> True | Rx_Dgram d \<Rightarrow> peek_size d \<noteq> None)"

lemma wf_rx_simps [simp]: "wf_rx Rx_Err" "wf_rx (Rx_Dgram d) \<longleftrightarrow> peek_size d \<noteq> None"
  by (simp_all add: wf_rx_def)

lemma socket_HandleEvent_returns:
  assumes "socket_HandleEvent q m = Some r"
  shows "\<forall>d q'. q = Rx_Dgram d # q' \<longrightarrow> peek_size d \<noteq> None"
proof (rule socket_HandleEvent.raw_induct
    [where P = "\<lambda>q m r. \<forall>d q'. q = Rx_Dgram d # q' \<longrightarrow> peek_size d \<noteq> None", OF _ assms])
  fix f q m r
  assume "\<And>q m r. f q m = Some r \<Longrightarrow> \<forall>d q'. q = Rx_Dgram d # q' \<longrightarrow> peek_size d \<noteq> None"
    and "(case q of [] \<Rightarrow> Some (Inr m) | Rx_Dgram d # q' \<Rightarrow>
        (case peek_size d of None \<Rightarrow> f q m
         | Some real_size \<Rightarrow>
             (case recv_message real_size d m of Inl e \<Rightarrow> Some (Inl e) | Inr m' \<Rightarrow> f q' m'))
      | Rx_Err # q' \<Rightarrow> f q' m) = Some r"
  then show "\<forall>d q'. q = Rx_Dgram d # q' \<longrightarrow> peek_size d \<noteq> None" by fastforce
qed

lemma socket_HandleEvent_stuck: "peek_size d = None \<Longrightarrow> socket_HandleEvent (Rx_Dgram d # q) m = None"
  using socket_HandleEvent_returns by (cases "socket_HandleEvent (Rx_Dgram d # q) m") auto

lemma socket_HandleEvent_reference:
  "socket_HandleEvent q m =
     (case handle_all (takeWhile wf_rx q) m of
        Inl e \<Rightarrow> Some (Inl e)
      | Inr m' \<Rightarrow> if list_all wf_rx q then Some (Inr m') else None)"
proof (induction q arbitrary: m)
  case Nil
  show ?case by (simp add: socket_HandleEvent.simps)
next
  case (Cons r q)
  show ?case
  proof (cases r)
    case (Rx_Dgram d)
    show ?thesis
    proof (cases "peek_size d")
      case None
      then show ?thesis using Rx_Dgram by (simp add: socket_HandleEvent_stuck)
    next
      case (Some sz)
      then show ?thesis using Rx_Dgram Cons.IH
        by (subst socket_HandleEvent.simps) (auto split: sum.splits)
    qed
  next
    case Rx_Err
    have "socket_HandleEvent (Rx_Err # q) m = socket_HandleEvent q m"
      by (subst socket_HandleEvent.simps) simp
    with Rx_Err Cons.IH show ?thesis by (simp split: sum.split)
  qed
qed

lemma mon_rel_handle_all: "handle_all q m = Inr m' \<Longrightarrow> mon_rel m m'"
proof (induction q m arbitrary: m' rule: handle_all.induct)
  case (3 d q m)
  show ?case
  proof (cases "peek_size d")
    case (Some sz)
    with 3(3) obtain m1 where m1: "recv_message sz d m = Inr m1" "handle_all q m1 = Inr m'"
      by (auto simp: res_simps)
    show ?thesis by (rule mon_rel_trans [OF mon_rel_recv_message [OF m1(1)] 3(2) [OF Some m1]])
  qed (use 3 in simp)
qed simp_all

lemma mon_rel_socket_HandleEvent:
  "socket_HandleEvent q m = Some (Inr m') \<Longrightarrow> mon_rel m m'"
  unfolding socket_HandleEvent_reference
  by (auto split: sum.splits if_splits dest: mon_rel_handle_all)

section \<open>Messages that arrive\<close>

lemma Command_of_u32 [simp]: "Command_of (Command_u32 c) = Some c"
  by (cases c) (simp_all add: Command_of_def Command_u32_def)

lemma msg_cmd_enc [simp]: "msg_cmd (enc_u32 w @ r) = w"
  by (simp add: msg_cmd_def take_append_exact)

lemma msg_length_enc [simp]: "msg_length (enc_u32 w @ enc_u32 l @ r) = sint l"
  by (simp add: msg_length_def take_append_exact drop_append_exact)

text \<open>The commands without a body.\<close>

definition bare :: "Command \<Rightarrow> bool" where
  "bare c \<longleftrightarrow> c \<in> {START, STOP, EXIT, ZYGOTE64_INJECTED, ZYGOTE32_INJECTED, SYSTEM_SERVER_STARTED}"

lemma peek_size_bare: "bare c \<Longrightarrow> peek_size (enc_u32 (Command_u32 c)) = Some 4"
  using msg_cmd_enc [of "Command_u32 c" "[]"]
  by (auto simp: bare_def peek_size_def Command_u32_def word_le_nat_alt simp del: msg_cmd_enc)

lemma recv_bare:
  "bare c \<Longrightarrow> recv_message 4 (enc_u32 (Command_u32 c)) m =
     handle_command c (msg_length (enc_u32 (Command_u32 c))) [] m"
  using msg_cmd_enc [of "Command_u32 c" "[]"] by (simp add: recv_message_def)

lemma handle_command_bare: "bare c \<Longrightarrow> handle_command c l x m = handle_command c 0 [] m"
  by (auto simp: bare_def handle_command_def)

lemma handle_bare:
  "bare c \<Longrightarrow> handle_all (Rx_Dgram (enc_u32 (Command_u32 c)) # q) m =
     bind_r (handle_command c 0 [] m) (handle_all q)"
  by (simp add: peek_size_bare recv_bare handle_command_bare [of c "msg_length (enc_u32 (Command_u32 c))"])

text \<open>A message with a body: its length counts the NUL at its end.\<close>

definition body_msg :: "Command \<Rightarrow> string \<Rightarrow> string" where
  "body_msg c s = enc_u32 (Command_u32 c) @ enc_u32 (word_of_nat (length s + 1)) @ s @ [NUL]"

lemma sint_word_of_nat: "n < 2 ^ 31 \<Longrightarrow> sint (word_of_nat n :: u32) = int n"
  by (simp add: signed_of_nat signed_take_bit_int_eq_self)

lemma recv_body:
  assumes "\<not> bare c" and "length s + 1 < 2 ^ 31"
  shows "peek_size (body_msg c s) = Some (8 + int (length s + 1))"
    and "recv_message (8 + int (length s + 1)) (body_msg c s) m =
           handle_command c (int (length s + 1)) (s @ [NUL]) m"
proof -
  have len: "msg_length (body_msg c s) = int (length s + 1)"
    unfolding body_msg_def msg_length_enc by (rule sint_word_of_nat [OF assms(2)])
  have l: "length (body_msg c s) = 8 + (length s + 1)" by (simp add: body_msg_def)
  have cmd: "msg_cmd (body_msg c s) = Command_u32 c" by (simp add: body_msg_def)
  show "peek_size (body_msg c s) = Some (8 + int (length s + 1))"
    unfolding peek_size_def l cmd len Let_def
    using assms(1) by (cases c) (simp_all add: Command_u32_def bare_def)
  have d: "drop 8 (body_msg c s) = s @ [NUL]" by (simp add: body_msg_def)
  have n: "nat (8 + int (length s + 1)) = length (body_msg c s)" by (simp add: l nat_add_distrib)
  show "recv_message (8 + int (length s + 1)) (body_msg c s) m =
           handle_command c (int (length s + 1)) (s @ [NUL]) m"
    by (simp add: recv_message_def cmd len d n l del: of_nat_add of_nat_Suc)
qed

lemma copy_text_body: "copy_text (int (length s + 1)) (s @ [NUL]) = Inr (s @ [NUL])"
  by (simp add: copy_text_def)

end
