(* ===== verification/Monitor_Sigchld.thy ===== *)
theory Monitor_Sigchld
  imports Monitor_Socket
begin

text \<open>
  \<open>SigChldHandler::HandleEvent\<close> of \<open>loader/src/ptracer/monitor.cpp\<close>, with the macros
  \<open>CREATE_ZYGOTE_START_COUNTER\<close>, \<open>CHECK_DAEMON_EXIT\<close> and \<open>PRE_INJECT\<close>, \<open>ensure_daemon_created\<close>, and
  \<open>get_program\<close> and \<open>fork_dont_care\<close> of \<open>utils.cpp\<close>.

  One turn of the \<open>waitpid\<close> loop is a \<open>wevent\<close>: what the kernel answers to the calls of this turn.  A
  read of the signal descriptor is a \<open>sread\<close>, and an empty list of them is \<open>EAGAIN\<close>.
\<close>

section \<open>Answers of the kernel\<close>

record wevent =
  we_pid :: pid                 \<comment> \<open>\<open>waitpid(-1, ...)\<close>; the loop ends at 0, which is not an event\<close>
  we_echild :: bool             \<comment> \<open>\<open>errno == ECHILD\<close> when \<open>we_pid\<close> is -1\<close>
  we_status :: u32
  we_exe :: "string option"     \<comment> \<open>the target of \<open>/proc/<pid>/exe\<close>\<close>
  we_now :: int                 \<comment> \<open>\<open>tv_sec\<close> of \<open>clock_gettime\<close>\<close>
  we_fork :: "pid option"       \<comment> \<open>the \<open>fork\<close> of the daemon: the child, or a failure\<close>
  we_stop :: "u32 option"       \<comment> \<open>the status of \<open>waitpid(pid, ...)\<close> after the \<open>SIGSTOP\<close>\<close>
  we_fork1 :: "pid option"      \<comment> \<open>the two calls of \<open>fork\<close> in \<open>fork_dont_care\<close>\<close>
  we_fork2 :: "pid option"

datatype sread = SR_Err | SR_Short | SR_Other u32 | SR_Chld "wevent list"

section \<open>Helpers of utils.cpp\<close>

abbreviation (input) PATH_MAX :: nat where "PATH_MAX \<equiv> 4096"

definition get_program :: "string option \<Rightarrow> nat \<Rightarrow> string option res" where
  "get_program exe cap =
     (case exe of
        None \<Rightarrow> Inr None
      | Some l \<Rightarrow>
          (let sz = min cap (length l)
           in if sz < cap then Inr (Some (c_str (take sz l))) else Inl Out_Of_Bounds))"

text \<open>The processes in which \<open>fork_dont_care\<close> returns, with the value it returns there.\<close>

datatype fork_role = Caller | Middle | Grandchild

definition fork_dont_care :: "pid option \<Rightarrow> pid option \<Rightarrow> (fork_role \<times> pid) list" where
  "fork_dont_care f1 f2 =
     (case f1 of
        None \<Rightarrow> [(Caller, -1)]
      | Some p \<Rightarrow> [(Caller, p)] @ (case f2 of None \<Rightarrow> [(Middle, -1)] | Some _ \<Rightarrow> [(Grandchild, 0)]))"

section \<open>The pieces of the handler\<close>

abbreviation (input) MAX_RETRY_COUNT :: int where "MAX_RETRY_COUNT \<equiv> 5"

definition should_stop_inject64 :: "int \<Rightarrow> monitor \<Rightarrow> bool \<times> monitor" where
  "should_stop_inject64 now m =
     (let c = (if now - last_zygote64 m < 30 then count_zygote64 m + 1 else 0)
      in (c \<ge> MAX_RETRY_COUNT, m\<lparr>count_zygote64 := c, last_zygote64 := now\<rparr>))"

definition should_stop_inject32 :: "int \<Rightarrow> monitor \<Rightarrow> bool \<times> monitor" where
  "should_stop_inject32 now m =
     (let c = (if now - last_zygote32 m < 30 then count_zygote32 m + 1 else 0)
      in (c \<ge> MAX_RETRY_COUNT, m\<lparr>count_zygote32 := c, last_zygote32 := now\<rparr>))"

definition should_stop_inject :: "bool \<Rightarrow> int \<Rightarrow> monitor \<Rightarrow> bool \<times> monitor" where
  "should_stop_inject is_64bit = (if is_64bit then should_stop_inject64 else should_stop_inject32)"

definition ensure_daemon_created :: "bool \<Rightarrow> pid option \<Rightarrow> monitor \<Rightarrow> bool \<times> monitor" where
  "ensure_daemon_created is_64bit fork_result m =
     (let m1 = (if is_64bit then call Umount_Prop m else m);
          st = (get_status is_64bit m1)\<lparr>zygote_injected := False\<rparr>;
          m2 = set_status is_64bit st m1
      in if daemon_pid st = -1
         then (case fork_result of
                 None \<Rightarrow> (False, m2)
               | Some p \<Rightarrow>
                   (True, set_status is_64bit (st\<lparr>supported := True, daemon_pid := p, daemon_running := True\<rparr>)
                            (call (Fork_Daemon is_64bit) m2)))
         else (daemon_running st, m2))"

text \<open>
  \<open>CHECK_DAEMON_EXIT(abi)\<close>: the first component says whether its \<open>continue\<close> is taken.  Both instances
  compare with \<open>status64.daemon_pid\<close>.  \<open>daemon_error_info\<close> is read without a test for null, and
  \<open>memcpy\<close> does not copy the NUL: a text that fills the buffer makes the \<open>strcat\<close> of \<open>updateStatus\<close> run
  over its end.
\<close>

definition CHECK_DAEMON_EXIT :: "bool \<Rightarrow> pid \<Rightarrow> monitor \<Rightarrow> (bool \<times> monitor) res" where
  "CHECK_DAEMON_EXIT is_64bit pid m =
     (let st = get_status is_64bit m in
      if supported st \<and> pid = daemon_pid (status64 m)
      then
        (let status_str = parse_status (wait_status m) 64;
             st1 = st\<lparr>daemon_running := False\<rparr>
         in bind_r
              (case daemon_error_info st of
                 None \<Rightarrow> Inl Null_Deref
               | Some b \<Rightarrow>
                   if b = [] then Inl Out_Of_Bounds
                   else if hd b \<noteq> NUL then Inr st1
                   else if length status_str \<ge> length b then Inl Out_Of_Bounds
                   else Inr (st1\<lparr>daemon_error_info := Some (status_str @ drop (length status_str) b)\<rparr>))
              (\<lambda>st2. bind_r (updateStatus (set_status is_64bit st2 m)) (\<lambda>m'. Inr (True, m'))))
      else Inr (False, m))"

definition app_process :: "bool \<Rightarrow> string" where
  "app_process is_64bit = ''/system/bin/app_process'' @ (if is_64bit then ''64'' else ''32'')"

definition tracer_path :: "bool \<Rightarrow> string" where
  "tracer_path is_64bit = ''./bin/zygisk-ptrace'' @ (if is_64bit then ''64'' else ''32'')"

definition stop_injecting :: "string \<Rightarrow> monitor \<Rightarrow> monitor" where
  "stop_injecting reason m =
     call (Ptrace_Interrupt 1) (m\<lparr>tracing_state := STOPPING, monitor_stop_reason := reason\<rparr>)"

text \<open>\<open>PRE_INJECT(abi, is_64)\<close>: the first component says whether its \<open>break\<close> is taken.\<close>

definition PRE_INJECT ::
  "bool \<Rightarrow> wevent \<Rightarrow> string \<Rightarrow> string option \<Rightarrow> monitor \<Rightarrow> bool \<times> string option \<times> monitor" where
  "PRE_INJECT is_64 e program tracer m =
     (if program = app_process is_64
      then
        (case should_stop_inject is_64 (we_now e) m of (stop, m1) \<Rightarrow>
           if stop then (True, Some (tracer_path is_64), stop_injecting ''zygote crashed'' m1)
           else
             (case ensure_daemon_created is_64 (we_fork e) m1 of (up, m2) \<Rightarrow>
                if \<not> up
                then (True, Some (tracer_path is_64), stop_injecting ''daemon not running'' m2)
                else (False, Some (tracer_path is_64), m2)))
      else (False, tracer, m))"

text \<open>What the processes that return from \<open>fork_dont_care\<close> do.\<close>

definition fork_action :: "pid \<Rightarrow> string \<Rightarrow> fork_role \<times> pid \<Rightarrow> sys_call list" where
  "fork_action pid tracer rp =
     (case rp of (role, p) \<Rightarrow>
        (if p = 0 then [Exec_Tracer tracer pid] else if p = -1 then [Kill pid SIGKILL] else []) @
        (if role \<noteq> Caller \<and> p \<noteq> 0 then [Duplicate_Monitor] else []))"

definition launch_tracer :: "wevent \<Rightarrow> pid \<Rightarrow> string \<Rightarrow> monitor \<Rightarrow> monitor" where
  "launch_tracer e pid tracer m =
     (let m1 = call (Ptrace_Cont pid 0) (call (Kill pid SIGSTOP) m);
          m2 = (case we_stop e of None \<Rightarrow> m1 | Some s \<Rightarrow> m1\<lparr>wait_status := s\<rparr>)
      in if STOPPED_WITH (wait_status m2) SIGSTOP 0
         then (let m3 = (call (Ptrace_Detach pid SIGSTOP) m2)\<lparr>wait_status := 0\<rparr>
               in m3\<lparr>calls := calls m3 @
                       concat (map (fork_action pid tracer) (fork_dont_care (we_fork1 e) (we_fork2 e)))\<rparr>)
         else m2)"

text \<open>The \<open>do { ... } while (false)\<close> of the handler.\<close>

definition try_inject :: "wevent \<Rightarrow> pid \<Rightarrow> string \<Rightarrow> monitor \<Rightarrow> monitor" where
  "try_inject e pid program m =
     (if tracing_state m \<noteq> TRACING then m
      else
        (case PRE_INJECT True e program None m of (brk, tracer, m1) \<Rightarrow>
           if brk then m1
           else
             (case PRE_INJECT False e program tracer m1 of (brk', tracer', m2) \<Rightarrow>
                if brk' then m2
                else (case tracer' of None \<Rightarrow> m2 | Some t \<Rightarrow> launch_tracer e pid t m2))))"

definition handle_init :: "pid \<Rightarrow> monitor \<Rightarrow> monitor" where
  "handle_init pid m =
     (let s = wait_status m;
          m1 = (if STOPPED_WITH s SIGTRAP PTRACE_EVENT_FORK then call (Ptrace_Geteventmsg pid) m else m)
      in if \<not> STOPPED_WITH s SIGTRAP PTRACE_EVENT_FORK \<and> STOPPED_WITH s SIGTRAP PTRACE_EVENT_STOP \<and>
            tracing_state m = STOPPING
         then (call (Ptrace_Detach 1 0) m)\<lparr>tracing_state := STOPPED\<rparr>
         else if WIFSTOPPED s
         then if WPTEVENT s = 0 \<and> WSTOPSIG s \<noteq> SIGSTOP \<and> WSTOPSIG s \<noteq> SIGTSTP \<and>
                 WSTOPSIG s \<noteq> SIGTTIN \<and> WSTOPSIG s \<noteq> SIGTTOU
              then call (Ptrace_Cont pid (WSTOPSIG s)) m1
              else call (Ptrace_Cont pid 0) m1
         else m1)"

text \<open>The end of a turn: \<open>process.erase(state)\<close> and the detach.\<close>

definition erase_and_detach :: "pid \<Rightarrow> monitor \<Rightarrow> monitor" where
  "erase_and_detach pid m =
     (let m1 = m\<lparr>processes := processes m - {pid}\<rparr>
      in if WIFSTOPPED (wait_status m1) then call (Ptrace_Detach pid 0) m1 else m1)"

definition handle_process :: "wevent \<Rightarrow> pid \<Rightarrow> monitor \<Rightarrow> monitor res" where
  "handle_process e pid m =
     (if pid \<notin> processes m
      then Inr (call (Ptrace_Cont pid 0) (call (Ptrace_Setoptions pid)
                  (m\<lparr>processes := insert pid (processes m)\<rparr>)))
      else if STOPPED_WITH (wait_status m) SIGTRAP PTRACE_EVENT_EXEC
      then bind_r (get_program (we_exe e) PATH_MAX) (\<lambda>prog.
             case prog of
               None \<Rightarrow> Inr m
             | Some program \<Rightarrow>
                 bind_r (updateStatus (try_inject e pid program m)) (\<lambda>m'. Inr (erase_and_detach pid m')))
      else Inr (erase_and_detach pid m))"

section \<open>The loops\<close>

text \<open>One turn of the \<open>waitpid\<close> loop; \<^term>\<open>None\<close> is its \<open>break\<close>.\<close>

definition waitpid_turn :: "wevent \<Rightarrow> monitor \<Rightarrow> monitor option res" where
  "waitpid_turn e m0 =
     (let pid = we_pid e;
          m = (if pid = -1 then m0 else m0\<lparr>wait_status := we_status e\<rparr>)
      in if pid = -1 \<and> tracing_state m = STOPPED \<and> we_echild e then Inr None
         else if pid = 1 then Inr (Some (handle_init pid m))
         else bind_r (CHECK_DAEMON_EXIT True pid m) (\<lambda>(done64, m1).
                if done64 then Inr (Some m1)
                else bind_r (CHECK_DAEMON_EXIT False pid m1) (\<lambda>(done32, m2).
                       if done32 then Inr (Some m2)
                       else bind_r (handle_process e pid m2) (\<lambda>m3. Inr (Some m3)))))"

fun waitpid_loop :: "wevent list \<Rightarrow> monitor \<Rightarrow> monitor res" where
  "waitpid_loop [] m = Inr m"
| "waitpid_loop (e # es) m =
     bind_r (waitpid_turn e m) (\<lambda>r. case r of None \<Rightarrow> Inr m | Some m' \<Rightarrow> waitpid_loop es m')"

fun sigchld_HandleEvent :: "sread list \<Rightarrow> monitor \<Rightarrow> monitor res" where
  "sigchld_HandleEvent [] m = Inr m"
| "sigchld_HandleEvent (r # rs) m =
     (case r of
        SR_Err \<Rightarrow> sigchld_HandleEvent rs m
      | SR_Short \<Rightarrow> sigchld_HandleEvent rs m
      | SR_Other signo \<Rightarrow> sigchld_HandleEvent rs m
      | SR_Chld es \<Rightarrow> bind_r (waitpid_loop es m) (sigchld_HandleEvent rs))"

section \<open>The handler keeps the monitor in order\<close>

text \<open>The kernel's part of the contract: \<open>fork\<close> gives the parent a positive number.\<close>

definition wf_wevent :: "wevent \<Rightarrow> bool" where
  "wf_wevent e \<longleftrightarrow> (\<forall>p. we_fork e = Some p \<longrightarrow> p > 0)"

definition wf_sread :: "sread \<Rightarrow> bool" where
  "wf_sread r = (case r of SR_Chld es \<Rightarrow> list_all wf_wevent es | _ \<Rightarrow> True)"

lemma mon_rel_wait_status [simp]: "mon_rel m (m\<lparr>wait_status := s\<rparr>)"
  and mon_rel_processes [simp]: "mon_rel m (m\<lparr>processes := P\<rparr>)"
  by (simp_all add: mon_rel_def mon_inv_def)

lemma mon_rel_calls [simp]: "mon_rel m (m\<lparr>calls := calls m @ cs\<rparr>)"
  by (simp add: mon_rel_def mon_inv_def)

lemma mon_rel_count:
  "(0 \<le> count_zygote64 m \<Longrightarrow> 0 \<le> c) \<Longrightarrow> mon_rel m (m\<lparr>count_zygote64 := c, last_zygote64 := t\<rparr>)"
  "(0 \<le> count_zygote32 m \<Longrightarrow> 0 \<le> c) \<Longrightarrow> mon_rel m (m\<lparr>count_zygote32 := c, last_zygote32 := t\<rparr>)"
  by (simp_all add: mon_rel_def mon_inv_def)

lemma mon_rel_should_stop: "should_stop_inject b now m = (r, m') \<Longrightarrow> mon_rel m m'"
  unfolding should_stop_inject_def should_stop_inject64_def should_stop_inject32_def Let_def
  by (cases b) (auto simp del: fun_upd_apply intro!: mon_rel_count)

lemma should_stop_state: "should_stop_inject b now m = (r, m') \<Longrightarrow> tracing_state m' = tracing_state m"
  by (auto simp: should_stop_inject_def should_stop_inject64_def should_stop_inject32_def Let_def
      split: if_splits)

lemma ensure_daemon_state:
  "ensure_daemon_created b f m = (r, m') \<Longrightarrow> tracing_state m' = tracing_state m"
  by (auto simp: ensure_daemon_created_def Let_def set_status_def split: if_splits option.splits)

lemma mon_rel_ensure_daemon:
  assumes "ensure_daemon_created b f m = (r, m')" and "\<And>p. f = Some p \<Longrightarrow> p > 0"
  shows "mon_rel m m'"
proof -
  define m1 where "m1 = (if b then call Umount_Prop m else m)"
  define st where "st = (get_status b m1)\<lparr>zygote_injected := False\<rparr>"
  define m2 where "m2 = set_status b st m1"
  have "mon_rel m m1" by (simp add: m1_def)
  moreover have "mon_rel m1 m2"
    unfolding m2_def by (rule mon_rel_set_status) (simp add: abi_ok_def st_def)
  ultimately have r2: "mon_rel m m2" by (rule mon_rel_trans)
  let ?st' = "\<lambda>p. st\<lparr>supported := True, daemon_pid := p, daemon_running := True\<rparr>"
  let ?m3 = "\<lambda>p. set_status b (?st' p) (call (Fork_Daemon b) m2)"
  have g: "get_status b (call (Fork_Daemon b) m2) = st" by (simp add: m2_def get_status_def set_status_def)
  have "mon_rel (call (Fork_Daemon b) m2) (?m3 p)" if "p > 0" for p
    by (rule mon_rel_set_status) (use that in \<open>auto simp: g abi_ok_def\<close>)
  then have r3: "mon_rel m (?m3 p)" if "p > 0" for p
    using that by (blast intro: mon_rel_trans [OF r2] mon_rel_trans [OF mon_rel_call])
  show ?thesis
    using assms r2 r3 unfolding ensure_daemon_created_def Let_def
    unfolding m1_def [symmetric] st_def [symmetric] m2_def [symmetric]
    by (simp split: if_splits option.splits) blast
qed

lemma mon_rel_stop_injecting:
  assumes "tracing_state m = TRACING" and "reason \<noteq> []" and "length reason < 32"
  shows "mon_rel m (stop_injecting reason m)"
  using assms unfolding stop_injecting_def
  by (intro mon_rel_trans [OF mon_rel_state mon_rel_call]) (auto intro: ts_step.intros)

lemma PRE_INJECT_state:
  "PRE_INJECT b e prog t m = (False, t', m') \<Longrightarrow> tracing_state m' = tracing_state m"
  by (auto simp: PRE_INJECT_def split: if_splits prod.splits dest!: should_stop_state ensure_daemon_state)

lemma mon_rel_PRE_INJECT:
  assumes "PRE_INJECT b e prog t m = (brk, t', m')" and "tracing_state m = TRACING" and "wf_wevent e"
  shows "mon_rel m m'"
proof (cases "prog = app_process b")
  case True
  obtain s1 m1 where s: "should_stop_inject b (we_now e) m = (s1, m1)" by fastforce
  obtain r2 m2 where d: "ensure_daemon_created b (we_fork e) m1 = (r2, m2)" by fastforce
  have ts: "tracing_state m1 = TRACING" "tracing_state m2 = TRACING"
    using should_stop_state [OF s] ensure_daemon_state [OF d] assms(2) by simp_all
  have r1: "mon_rel m m1" by (rule mon_rel_should_stop [OF s])
  have r2: "mon_rel m m2"
    using assms(3) by (intro mon_rel_trans [OF r1 mon_rel_ensure_daemon [OF d]]) (simp add: wf_wevent_def)
  have i1: "mon_rel m (stop_injecting ''zygote crashed'' m1)"
    by (intro mon_rel_trans [OF r1] mon_rel_stop_injecting) (simp_all add: ts)
  have i2: "mon_rel m (stop_injecting ''daemon not running'' m2)"
    by (intro mon_rel_trans [OF r2] mon_rel_stop_injecting) (simp_all add: ts)
  show ?thesis using assms(1) True s d r2 i1 i2 by (auto simp: PRE_INJECT_def split: if_splits)
qed (use assms(1) in \<open>simp add: PRE_INJECT_def\<close>)

lemma mon_rel_launch: "mon_rel m (launch_tracer e pid t m)"
  by (auto simp: launch_tracer_def Let_def mon_rel_def mon_inv_def call_def split: option.splits)

lemma mon_rel_try_inject:
  assumes "wf_wevent e"
  shows "mon_rel m (try_inject e pid prog m)"
proof (cases "tracing_state m = TRACING")
  case True
  obtain b1 t1 m1 where p1: "PRE_INJECT True e prog None m = (b1, t1, m1)" by (metis surj_pair)
  obtain b2 t2 m2 where p2: "PRE_INJECT False e prog t1 m1 = (b2, t2, m2)" by (metis surj_pair)
  have r1: "mon_rel m m1" by (rule mon_rel_PRE_INJECT [OF p1 True assms])
  have r2: "mon_rel m m2" if "\<not> b1"
    using mon_rel_PRE_INJECT [OF p2 _ assms] PRE_INJECT_state [of True e prog None m t1 m1] p1 True that
    by (auto intro: mon_rel_trans [OF r1])
  show ?thesis
    using p1 p2 r1 r2 mon_rel_trans [OF r2 mon_rel_launch] True
    by (auto simp: try_inject_def split: option.splits)
qed (simp add: try_inject_def)

lemma mon_rel_STOPPED:
  "tracing_state m = STOPPING \<Longrightarrow> mon_rel m (m\<lparr>tracing_state := STOPPED\<rparr>)"
  by (auto simp: mon_rel_def mon_inv_def intro!: ts_path_step ts_step.intros)

lemma mon_rel_handle_init: "mon_rel m (handle_init pid m)"
proof -
  have "mon_rel m ((call (Ptrace_Detach 1 0) m)\<lparr>tracing_state := STOPPED\<rparr>)" if "tracing_state m = STOPPING"
    by (rule mon_rel_trans [OF mon_rel_call mon_rel_STOPPED]) (simp add: that)
  moreover have "mon_rel m (call k (call k' m))" for k k'
    by (rule mon_rel_trans [OF mon_rel_call mon_rel_call])
  ultimately show ?thesis by (simp add: handle_init_def Let_def)
qed

lemma mon_rel_erase: "mon_rel m (erase_and_detach pid m)"
  by (auto simp: erase_and_detach_def Let_def mon_rel_def mon_inv_def call_def)

lemma mon_rel_handle_process:
  assumes "handle_process e pid m = Inr m'" and "wf_wevent e"
  shows "mon_rel m m'"
proof -
  have new: "mon_rel m (call (Ptrace_Cont pid 0) (call (Ptrace_Setoptions pid)
               (m\<lparr>processes := insert pid (processes m)\<rparr>)))"
    by (rule mon_rel_trans [OF mon_rel_processes mon_rel_trans [OF mon_rel_call mon_rel_call]])
  have "mon_rel m (erase_and_detach pid m1)" if "updateStatus (try_inject e pid prog m) = Inr m1" for prog m1
    by (rule mon_rel_trans [OF mon_rel_try_inject [OF assms(2)]
          mon_rel_trans [OF mon_rel_updateStatus [OF that] mon_rel_erase]])
  with new mon_rel_erase assms(1) show ?thesis
    by (auto simp: handle_process_def res_simps split: if_splits option.splits)
qed

lemma mon_rel_CHECK_DAEMON_EXIT:
  assumes "CHECK_DAEMON_EXIT b pid m = Inr (r, m')"
  shows "mon_rel m m'"
proof (cases "supported (get_status b m) \<and> pid = daemon_pid (status64 m)")
  case True
  from assms True obtain st2 m1 where u: "updateStatus (set_status b st2 m) = Inr m1" "m' = m1"
    and st2: "abi_ok (get_status b m) \<Longrightarrow> abi_ok st2"
    by (fastforce simp: CHECK_DAEMON_EXIT_def Let_def res_simps abi_ok_def split: option.splits if_splits)
  show ?thesis unfolding u(2)
    by (rule mon_rel_trans [OF mon_rel_set_status [OF st2] mon_rel_updateStatus [OF u(1)]])
qed (use assms in \<open>auto simp: CHECK_DAEMON_EXIT_def Let_def\<close>)

lemma mon_rel_waitpid_turn:
  assumes "waitpid_turn e m = Inr (Some m')" and "wf_wevent e"
  shows "mon_rel m m'"
proof -
  define m0 where "m0 = (if we_pid e = -1 then m else m\<lparr>wait_status := we_status e\<rparr>)"
  have r0: "mon_rel m m0" by (simp add: m0_def)
  consider (init) "m' = handle_init (we_pid e) m0"
    | (d64) "CHECK_DAEMON_EXIT True (we_pid e) m0 = Inr (True, m')"
    | (d32) m1 where "CHECK_DAEMON_EXIT True (we_pid e) m0 = Inr (False, m1)"
        "CHECK_DAEMON_EXIT False (we_pid e) m1 = Inr (True, m')"
    | (proc) m1 m2 where "CHECK_DAEMON_EXIT True (we_pid e) m0 = Inr (False, m1)"
        "CHECK_DAEMON_EXIT False (we_pid e) m1 = Inr (False, m2)" "handle_process e (we_pid e) m2 = Inr m'"
    using assms(1) unfolding waitpid_turn_def Let_def m0_def [symmetric]
    by (auto simp: res_simps split: if_splits)
  then have "mon_rel m0 m'"
    by cases (blast intro: mon_rel_handle_init mon_rel_CHECK_DAEMON_EXIT mon_rel_trans
        mon_rel_handle_process [OF _ assms(2)])+
  then show ?thesis by (rule mon_rel_trans [OF r0])
qed

lemma mon_rel_waitpid_loop:
  "waitpid_loop es m = Inr m' \<Longrightarrow> list_all wf_wevent es \<Longrightarrow> mon_rel m m'"
proof (induction es arbitrary: m)
  case (Cons e es)
  then obtain r where r: "waitpid_turn e m = Inr r" by (auto simp: res_simps)
  show ?case
  proof (cases r)
    case (Some m1)
    with r Cons.prems have "mon_rel m m1" by (simp add: mon_rel_waitpid_turn)
    moreover have "mon_rel m1 m'" using Cons r Some by simp
    ultimately show ?thesis by (rule mon_rel_trans)
  qed (use r Cons.prems in simp)
qed simp

lemma mon_rel_sigchld_HandleEvent:
  "sigchld_HandleEvent rs m = Inr m' \<Longrightarrow> list_all wf_sread rs \<Longrightarrow> mon_rel m m'"
proof (induction rs arbitrary: m)
  case (Cons r rs)
  then show ?case
  proof (cases r)
    case (SR_Chld es)
    with Cons.prems obtain m1 where m1: "waitpid_loop es m = Inr m1" "sigchld_HandleEvent rs m1 = Inr m'"
      by (auto simp: res_simps)
    have "mon_rel m m1" using m1 SR_Chld Cons.prems by (auto intro: mon_rel_waitpid_loop simp: wf_sread_def)
    moreover have "mon_rel m1 m'" using Cons m1 by simp
    ultimately show ?thesis by (rule mon_rel_trans)
  qed auto
qed simp

section \<open>What a turn asks of the kernel\<close>

definition new_calls :: "monitor \<Rightarrow> monitor \<Rightarrow> sys_call list" where
  "new_calls m m' = drop (length (calls m)) (calls m')"

lemma new_calls_append: "calls m' = calls m @ cs \<Longrightarrow> new_calls m m' = cs"
  by (simp add: new_calls_def)

definition is_detach :: "pid \<Rightarrow> sys_call \<Rightarrow> bool" where
  "is_detach pid k = (case k of Ptrace_Detach p s \<Rightarrow> p = pid | _ \<Rightarrow> False)"

definition is_resume :: "pid \<Rightarrow> sys_call \<Rightarrow> bool" where
  "is_resume pid k = (case k of Ptrace_Detach p s \<Rightarrow> p = pid | Ptrace_Cont p s \<Rightarrow> p = pid | _ \<Rightarrow> False)"

definition is_exec :: "sys_call \<Rightarrow> bool" where
  "is_exec k = (case k of Exec_Tracer t p \<Rightarrow> True | _ \<Rightarrow> False)"

definition quiet :: "sys_call \<Rightarrow> bool" where
  "quiet k \<longleftrightarrow> k \<in> {Umount_Prop, Fork_Daemon True, Fork_Daemon False, Ptrace_Interrupt 1}"

lemma quiet_not [simp]: "quiet k \<Longrightarrow> \<not> is_detach pid k" "quiet k \<Longrightarrow> \<not> is_exec k"
  by (auto simp: quiet_def is_detach_def is_exec_def)

lemma should_stop_frame:
  "should_stop_inject b now m = (r, m') \<Longrightarrow>
     calls m' = calls m \<and> wait_status m' = wait_status m \<and> processes m' = processes m"
  by (auto simp: should_stop_inject_def should_stop_inject64_def should_stop_inject32_def Let_def
      split: if_splits)

lemma ensure_daemon_frame:
  "ensure_daemon_created b f m = (r, m') \<Longrightarrow>
     wait_status m' = wait_status m \<and> processes m' = processes m \<and>
     (\<exists>cs. calls m' = calls m @ cs \<and> list_all quiet cs)"
  by (cases b)
    (auto simp: ensure_daemon_created_def Let_def set_status_def quiet_def split: if_splits option.splits)

lemma ensure_daemon_true:
  "ensure_daemon_created b f m = (True, m') \<Longrightarrow>
     daemon_running (get_status b m') \<and> \<not> zygote_injected (get_status b m')"
  by (cases b)
    (auto simp: ensure_daemon_created_def Let_def set_status_def get_status_def split: if_splits option.splits)

lemma stop_injecting_frame [simp]:
  "calls (stop_injecting r m) = calls m @ [Ptrace_Interrupt 1]"
  "wait_status (stop_injecting r m) = wait_status m" "processes (stop_injecting r m) = processes m"
  "tracing_state (stop_injecting r m) = STOPPING" "status64 (stop_injecting r m) = status64 m"
  "status32 (stop_injecting r m) = status32 m"
  by (simp_all add: stop_injecting_def)

lemma PRE_INJECT_frame:
  assumes "PRE_INJECT b e prog t m = (brk, t', m')"
  shows "wait_status m' = wait_status m" "processes m' = processes m"
    "\<exists>cs. calls m' = calls m @ cs \<and> list_all quiet cs"
proof -
  obtain s1 m1 where s: "should_stop_inject b (we_now e) m = (s1, m1)" by fastforce
  obtain r2 m2 where d: "ensure_daemon_created b (we_fork e) m1 = (r2, m2)" by fastforce
  note f = should_stop_frame [OF s] ensure_daemon_frame [OF d]
  have q: "quiet (Ptrace_Interrupt 1)" by (simp add: quiet_def)
  have "m' \<in> {m, m2, stop_injecting ''zygote crashed'' m1, stop_injecting ''daemon not running'' m2}"
    using assms s d by (simp add: PRE_INJECT_def split: if_splits)
  then show "wait_status m' = wait_status m" "processes m' = processes m"
    "\<exists>cs. calls m' = calls m @ cs \<and> list_all quiet cs"
    using f q by auto
qed

lemma PRE_INJECT_go:
  assumes "PRE_INJECT b e prog t m = (False, t', m')"
  shows "prog = app_process b \<Longrightarrow>
      t' = Some (tracer_path b) \<and> daemon_running (get_status b m') \<and> \<not> zygote_injected (get_status b m')"
    and "prog \<noteq> app_process b \<Longrightarrow> t' = t \<and> m' = m"
  using assms by (auto simp: PRE_INJECT_def split: if_splits prod.splits dest: ensure_daemon_true)

lemma app_process_inj [simp]: "app_process a = app_process b \<longleftrightarrow> a = b"
  by (simp add: app_process_def)

lemma launch_status [simp]:
  "status64 (launch_tracer e pid t m) = status64 m" "status32 (launch_tracer e pid t m) = status32 m"
  "processes (launch_tracer e pid t m) = processes m"
  "tracing_state (launch_tracer e pid t m) = tracing_state m"
  by (auto simp: launch_tracer_def Let_def split: option.splits)

text \<open>The calls of a launch, with the stop the process reached.\<close>

definition launch_calls :: "wevent \<Rightarrow> pid \<Rightarrow> string \<Rightarrow> bool \<Rightarrow> sys_call list" where
  "launch_calls e pid t stopped =
     [Kill pid SIGSTOP, Ptrace_Cont pid 0] @
     (if stopped
      then Ptrace_Detach pid SIGSTOP #
           concat (map (fork_action pid t) (fork_dont_care (we_fork1 e) (we_fork2 e)))
      else [])"

definition stopped_there :: "wevent \<Rightarrow> monitor \<Rightarrow> bool" where
  "stopped_there e m =
     STOPPED_WITH (case we_stop e of None \<Rightarrow> wait_status m | Some s \<Rightarrow> s) SIGSTOP 0"

lemma launch_calls:
  "calls (launch_tracer e pid t m) = calls m @ launch_calls e pid t (stopped_there e m)"
  "wait_status (launch_tracer e pid t m) =
     (if stopped_there e m then 0 else case we_stop e of None \<Rightarrow> wait_status m | Some s \<Rightarrow> s)"
  by (simp_all add: launch_tracer_def launch_calls_def stopped_there_def Let_def split: option.splits)

text \<open>The two ways the \<open>do\<close> block ends.\<close>

lemma try_inject_cases:
  obtains (quiet) cs where "calls (try_inject e pid prog m) = calls m @ cs" "list_all quiet cs"
      "wait_status (try_inject e pid prog m) = wait_status m"
      "processes (try_inject e pid prog m) = processes m"
  | (launch) b m1 cs where "tracing_state m = TRACING" "prog = app_process b"
      "try_inject e pid prog m = launch_tracer e pid (tracer_path b) m1"
      "calls m1 = calls m @ cs" "list_all quiet cs"
      "wait_status m1 = wait_status m" "processes m1 = processes m"
      "daemon_running (get_status b m1)" "\<not> zygote_injected (get_status b m1)"
proof (cases "tracing_state m = TRACING")
  case False
  show ?thesis by (rule quiet [of "[]"]) (simp_all add: try_inject_def False)
next
  case True
  obtain b1 t1 m1 where p1: "PRE_INJECT True e prog None m = (b1, t1, m1)" by (metis surj_pair)
  obtain b2 t2 m2 where p2: "PRE_INJECT False e prog t1 m1 = (b2, t2, m2)" by (metis surj_pair)
  note f1 = PRE_INJECT_frame [OF p1] and f2 = PRE_INJECT_frame [OF p2]
  from f1(3) obtain cs1 where c1: "calls m1 = calls m @ cs1" "list_all quiet cs1" by blast
  from f2(3) obtain cs2 where c2: "calls m2 = calls m1 @ cs2" "list_all quiet cs2" by blast
  have eq: "try_inject e pid prog m =
      (if b1 then m1 else if b2 then m2 else case t2 of None \<Rightarrow> m2 | Some t \<Rightarrow> launch_tracer e pid t m2)"
    using True p1 p2 by (simp add: try_inject_def)
  show ?thesis
  proof (cases "b1 \<or> b2 \<or> t2 = None")
    case True
    show ?thesis
      by (rule quiet [of "if b1 then cs1 else cs1 @ cs2"]) (use True in \<open>auto simp: eq c1 c2 f1 f2\<close>)
  next
    case nb: False
    then have n: "\<not> b1" "\<not> b2" "t2 \<noteq> None" by auto
    note g1 = PRE_INJECT_go [OF p1 [unfolded n(1) [THEN eq_False [THEN iffD2]]]]
      and g2 = PRE_INJECT_go [OF p2 [unfolded n(2) [THEN eq_False [THEN iffD2]]]]
    have "\<exists>b. prog = app_process b \<and> t2 = Some (tracer_path b) \<and> daemon_running (get_status b m2) \<and>
        \<not> zygote_injected (get_status b m2)"
    proof (cases "prog = app_process True")
      case True
      with g1(1) g2(2) show ?thesis by (intro exI [of _ True]) simp
    next
      case False
      then have "prog = app_process False" using g1(2) g2(2) n(3) by auto
      with g2(1) show ?thesis by blast
    qed
    then obtain b where b: "prog = app_process b" "t2 = Some (tracer_path b)"
      "daemon_running (get_status b m2)" "\<not> zygote_injected (get_status b m2)" by blast
    show ?thesis
      by (rule launch [of b m2 "cs1 @ cs2"]) (use True n b eq in \<open>simp_all add: c1 c2 f1 f2\<close>)
  qed
qed

lemma concat_fork_action:
  "concat (map (fork_action pid t) (fork_dont_care f1 f2)) =
     (case f1 of
        None \<Rightarrow> [Kill pid SIGKILL]
      | Some p \<Rightarrow>
          (if p = 0 then [Exec_Tracer t pid] else if p = -1 then [Kill pid SIGKILL] else []) @
          (case f2 of None \<Rightarrow> [Kill pid SIGKILL, Duplicate_Monitor] | Some _ \<Rightarrow> [Exec_Tracer t pid]))"
  by (simp add: fork_dont_care_def fork_action_def split: option.splits)

lemma filter_detach_launch:
  "length (filter (is_detach pid) (launch_calls e pid t s)) = (if s then 1 else 0)"
  by (simp add: launch_calls_def is_detach_def concat_fork_action split: option.splits)

lemma exec_in_launch: "Exec_Tracer t' p \<in> set (launch_calls e pid t s) \<Longrightarrow> t' = t \<and> p = pid"
  by (auto simp: launch_calls_def concat_fork_action split: if_splits option.splits)

lemma filter_quiet: "list_all quiet cs \<Longrightarrow> filter (is_detach pid) cs = []"
  by (induction cs) auto

lemma exec_not_quiet: "list_all quiet cs \<Longrightarrow> Exec_Tracer t p \<notin> set cs"
  by (auto simp: list_all_iff quiet_def)

lemma erase_simps [simp]:
  "calls (erase_and_detach pid m) = calls m @ (if WIFSTOPPED (wait_status m) then [Ptrace_Detach pid 0] else [])"
  "processes (erase_and_detach pid m) = processes m - {pid}"
  "status64 (erase_and_detach pid m) = status64 m" "status32 (erase_and_detach pid m) = status32 m"
  "wait_status (erase_and_detach pid m) = wait_status m"
  by (simp_all add: erase_and_detach_def Let_def)

text \<open>A process the handler lets go.\<close>

lemma handle_process_exec:
  assumes "handle_process e pid m = Inr m'" and "Exec_Tracer t p \<in> set (new_calls m m')"
  shows "\<exists>b l. p = pid \<and> pid \<in> processes m \<and> pid \<notin> processes m' \<and> tracing_state m = TRACING \<and>
      STOPPED_WITH (wait_status m) SIGTRAP PTRACE_EVENT_EXEC \<and>
      we_exe e = Some l \<and> c_str l = app_process b \<and> t = tracer_path b \<and>
      daemon_running (get_status b m') \<and> \<not> zygote_injected (get_status b m')"
proof -
  have not_new: "pid \<in> processes m" "STOPPED_WITH (wait_status m) SIGTRAP PTRACE_EVENT_EXEC"
    using assms by (auto simp: handle_process_def new_calls_def split: if_splits)
  with assms obtain prog m1 where prog: "get_program (we_exe e) PATH_MAX = Inr (Some prog)"
    and u: "updateStatus (try_inject e pid prog m) = Inr m1" and m': "m' = erase_and_detach pid m1"
    by (auto simp: handle_process_def res_simps new_calls_def split: option.splits)
  from prog obtain l where l: "we_exe e = Some l" "prog = c_str l"
    by (auto simp: get_program_def Let_def split: option.splits if_splits)
  note uk = updateStatus_keeps [OF u]
  show ?thesis
  proof (cases rule: try_inject_cases [where e = e and pid = pid and prog = prog and m = m])
    case (quiet cs)
    then show ?thesis using assms(2) exec_not_quiet [OF quiet(2)]
      by (auto simp: m' new_calls_def uk split: if_splits)
  next
    case (launch b m2 cs)
    have "Exec_Tracer t p \<in> set (launch_calls e pid (tracer_path b) (stopped_there e m2))"
      using assms(2) exec_not_quiet [OF launch(5)]
      by (auto simp: m' new_calls_def uk launch(3,4) launch_calls split: if_splits)
    then have tp: "t = tracer_path b" "p = pid" by (auto dest: exec_in_launch)
    have "get_status b m' = get_status b m2" by (simp add: m' uk launch(3) get_status_def)
    with launch not_new l tp show ?thesis
      by (intro exI [of _ b] exI [of _ l]) (simp add: m')
  qed
qed

lemma handle_process_detaches:
  assumes "handle_process e pid m = Inr m'" and "pid \<in> processes m" and "pid \<notin> processes m'"
    and "WIFSTOPPED (wait_status m)" and "\<And>s. we_stop e = Some s \<Longrightarrow> WIFSTOPPED s"
  shows "length (filter (is_detach pid) (new_calls m m')) = 1"
proof (cases "STOPPED_WITH (wait_status m) SIGTRAP PTRACE_EVENT_EXEC")
  case False
  then show ?thesis using assms by (auto simp: handle_process_def new_calls_def is_detach_def)
next
  case True
  with assms obtain prog m1 where u: "updateStatus (try_inject e pid prog m) = Inr m1"
    and m': "m' = erase_and_detach pid m1"
    by (auto simp: handle_process_def res_simps split: option.splits)
  note uk = updateStatus_keeps [OF u]
  show ?thesis
  proof (cases rule: try_inject_cases [where e = e and pid = pid and prog = prog and m = m])
    case (quiet cs)
    then show ?thesis using assms(4) by (simp add: m' new_calls_def uk filter_quiet is_detach_def)
  next
    case (launch b m2 cs)
    have w: "WIFSTOPPED (case we_stop e of None \<Rightarrow> wait_status m2 | Some s \<Rightarrow> s)"
      using assms(4,5) by (simp add: launch(6) split: option.splits)
    have nz: "\<not> WIFSTOPPED 0" by (simp add: wait_defs)
    show ?thesis
      by (simp add: m' new_calls_def uk launch(3,4) launch_calls filter_quiet [OF launch(5)]
          filter_detach_launch w nz is_detach_def)
  qed
qed

section \<open>The start counter\<close>

text \<open>The number of starts at the end of \<open>ts\<close> that each came less than 30 s after the one before.\<close>

definition rapid_starts :: "int \<Rightarrow> int list \<Rightarrow> nat" where
  "rapid_starts l ts = length (takeWhile (\<lambda>(a, b). b - a < 30) (rev (zip (l # ts) ts)))"

fun zygote_starts :: "bool \<Rightarrow> int list \<Rightarrow> monitor \<Rightarrow> monitor" where
  "zygote_starts b [] m = m"
| "zygote_starts b (t # ts) m = zygote_starts b ts (snd (should_stop_inject b t m))"

definition zygote_count :: "bool \<Rightarrow> monitor \<Rightarrow> int" where
  "zygote_count b m = (if b then count_zygote64 m else count_zygote32 m)"

definition zygote_last :: "bool \<Rightarrow> monitor \<Rightarrow> int" where
  "zygote_last b m = (if b then last_zygote64 m else last_zygote32 m)"

lemma should_stop_inject_counts:
  "zygote_count b (snd (should_stop_inject b t m)) =
     (if t - zygote_last b m < 30 then zygote_count b m + 1 else 0)"
  "zygote_last b (snd (should_stop_inject b t m)) = t"
  "fst (should_stop_inject b t m) \<longleftrightarrow> zygote_count b (snd (should_stop_inject b t m)) \<ge> 5"
  by (auto simp: should_stop_inject_def should_stop_inject64_def should_stop_inject32_def
      zygote_count_def zygote_last_def Let_def)

lemma zygote_starts_append: "zygote_starts b (ts @ us) m = zygote_starts b us (zygote_starts b ts m)"
  by (induction ts arbitrary: m) auto

lemma zip_snoc: "zip (l # ts @ [t]) (ts @ [t]) = zip (l # ts) ts @ [(last (l # ts), t)]"
  by (induction ts arbitrary: l) auto

lemma rapid_starts_snoc:
  "rapid_starts l (ts @ [t]) = (if t - last (l # ts) < 30 then Suc (rapid_starts l ts) else 0)"
  unfolding rapid_starts_def zip_snoc by simp

lemma zygote_starts_count:
  assumes "zygote_count b m = 0"
  shows "zygote_count b (zygote_starts b ts m) = int (rapid_starts (zygote_last b m) ts) \<and>
         zygote_last b (zygote_starts b ts m) = last (zygote_last b m # ts)"
proof (induction ts rule: rev_induct)
  case Nil
  then show ?case using assms by (simp add: rapid_starts_def)
next
  case (snoc t ts)
  have "last (zygote_last b m # ts @ [t]) = t" by simp
  with snoc show ?case
    by (simp add: zygote_starts_append should_stop_inject_counts rapid_starts_snoc del: last.simps)
qed

section \<open>Daemon exits\<close>

lemma CHECK_DAEMON_EXIT_null:
  assumes "supported (get_status b m)" and "daemon_error_info (get_status b m) = None"
  shows "CHECK_DAEMON_EXIT b (daemon_pid (status64 m)) m = Inl Null_Deref"
  using assms by (simp add: CHECK_DAEMON_EXIT_def Let_def)

lemma CHECK_DAEMON_EXIT_other: "pid \<noteq> daemon_pid (status64 m) \<Longrightarrow> CHECK_DAEMON_EXIT b pid m = Inr (False, m)"
  by (simp add: CHECK_DAEMON_EXIT_def Let_def)

lemma waitpid_turn_process:
  assumes "pid \<notin> {1, -1}" and "pid \<noteq> daemon_pid (status64 m)" and "we_pid e = pid"
  shows "waitpid_turn e m =
    bind_r (handle_process e pid (m\<lparr>wait_status := we_status e\<rparr>)) (\<lambda>m'. Inr (Some m'))"
  using assms by (simp add: waitpid_turn_def CHECK_DAEMON_EXIT_other)

end
