(* ===== verification/Monitor_Loop.thy ===== *)
theory Monitor_Loop
  imports Monitor_Sigchld
begin

text \<open>
  \<open>EventLoop\<close> and \<open>init_monitor\<close> of \<open>loader/src/ptracer/monitor.cpp\<close>.  The virtual \<open>HandleEvent\<close> is the
  parameter \<open>h\<close> of the loop; the locale \<open>event_handler\<close> is what the loop relies on, and the two handlers
  of the monitor interpret it.  The inputs of the loop are the results of its calls of \<open>epoll_wait\<close>:
  \<^term>\<open>None\<close> is -1, and an exhausted list is a monitor that waits.
\<close>

section \<open>The loop\<close>

fun handle_batch :: "('e \<Rightarrow> monitor \<Rightarrow> monitor res option) \<Rightarrow> 'e list \<Rightarrow> monitor \<Rightarrow> monitor res option" where
  "handle_batch h [] m = Some (Inr m)"
| "handle_batch h (e # es) m =
     (case h e m of
        None \<Rightarrow> None
      | Some (Inl f) \<Rightarrow> Some (Inl f)
      | Some (Inr m') \<Rightarrow> if running m' then handle_batch h es m' else Some (Inr m'))"

fun loop_run ::
  "('e \<Rightarrow> monitor \<Rightarrow> monitor res option) \<Rightarrow> 'e list option list \<Rightarrow> monitor \<Rightarrow> monitor res option" where
  "loop_run h [] m = Some (Inr m)"
| "loop_run h (b # bs) m =
     (if \<not> running m then Some (Inr m)
      else (case b of
              None \<Rightarrow> loop_run h bs m
            | Some es \<Rightarrow>
                (case handle_batch h es m of
                   None \<Rightarrow> None
                 | Some (Inl f) \<Rightarrow> Some (Inl f)
                 | Some (Inr m') \<Rightarrow> loop_run h bs m')))"

definition Loop ::
  "('e \<Rightarrow> monitor \<Rightarrow> monitor res option) \<Rightarrow> 'e list option list \<Rightarrow> monitor \<Rightarrow> monitor res option" where
  "Loop h bs m = loop_run h bs (m\<lparr>running := True\<rparr>)"

section \<open>The monitor\<close>

type_synonym event = "rx list + sread list"

definition HandleEvent :: "event \<Rightarrow> monitor \<Rightarrow> monitor res option" where
  "HandleEvent e m =
     (case e of Inl q \<Rightarrow> socket_HandleEvent q m | Inr rs \<Rightarrow> Some (sigchld_HandleEvent rs m))"

text \<open>\<open>SocketHandler::Init\<close>: \<open>sprintf\<close> into the 108 bytes of \<open>sun_path\<close>, and what \<open>bind\<close> says.\<close>

definition SOCKET_NAME :: string where
  "SOCKET_NAME = ''init_monitor''"

definition SocketHandler_Init :: "string \<Rightarrow> int \<Rightarrow> bool \<Rightarrow> bool res" where
  "SocketHandler_Init tmp sock_fd bind_ok =
     (if sock_fd = -1 then Inr False
      else if length (tmp @ ''/'' @ SOCKET_NAME) \<ge> 108 then Inl Out_Of_Bounds
      else Inr bind_ok)"

definition SigChldHandler_Init :: "bool \<Rightarrow> int \<Rightarrow> monitor \<Rightarrow> bool \<times> monitor" where
  "SigChldHandler_Init mask_ok signal_fd m =
     (if \<not> mask_ok \<or> signal_fd = -1 then (False, m) else (True, call (Ptrace_Seize 1) m))"

record boot =
  b_tmp :: string
  b_prop :: "string option"
  b_sock_fd :: int
  b_bind_ok :: bool
  b_mask_ok :: bool
  b_signal_fd :: int

definition init_monitor :: "boot \<Rightarrow> event list option list \<Rightarrow> monitor \<Rightarrow> monitor res option" where
  "init_monitor b bs m =
     (case prepare_environment (b_tmp b) (b_prop b) m of
        Inl f \<Rightarrow> Some (Inl f)
      | Inr (ok, m1) \<Rightarrow>
          if \<not> ok then Some (Inl (Exit_Process 1))
          else (case SocketHandler_Init (b_tmp b) (b_sock_fd b) (b_bind_ok b) of
                  Inl f \<Rightarrow> Some (Inl f)
                | Inr _ \<Rightarrow> Loop HandleEvent bs (snd (SigChldHandler_Init (b_mask_ok b) (b_signal_fd b) m1))))"

section \<open>What the loop relies on\<close>

locale event_handler =
  fixes h :: "'e \<Rightarrow> monitor \<Rightarrow> monitor res option"
    and ok :: "'e \<Rightarrow> bool"
  assumes handle_rel: "ok e \<Longrightarrow> h e m = Some (Inr m') \<Longrightarrow> mon_rel m m'"
begin

lemma batch_rel: "handle_batch h es m = Some (Inr m') \<Longrightarrow> list_all ok es \<Longrightarrow> mon_rel m m'"
proof (induction es arbitrary: m)
  case (Cons e es)
  then obtain m1 where m1: "h e m = Some (Inr m1)" by (auto split: option.splits sum.splits)
  have r: "mon_rel m m1" using handle_rel [OF _ m1] Cons.prems(2) by simp
  show ?case
    using Cons m1 r by (cases "running m1") (auto intro: mon_rel_trans [OF r])
qed simp

lemma loop_rel:
  "loop_run h bs m = Some (Inr m') \<Longrightarrow> list_all (pred_option (list_all ok)) bs \<Longrightarrow> mon_rel m m'"
proof (induction bs arbitrary: m)
  case (Cons b bs)
  show ?case
  proof (cases "running m")
    case run: True
    show ?thesis
    proof (cases b)
      case None
      with Cons run show ?thesis by simp
    next
      case (Some es)
      with Cons.prems run obtain m1 where m1: "handle_batch h es m = Some (Inr m1)"
        by (auto split: option.splits sum.splits)
      have r: "mon_rel m m1" using m1 Cons.prems(2) Some by (simp add: batch_rel)
      show ?thesis using Cons Some run m1 by (auto intro: mon_rel_trans [OF r])
    qed
  qed (use Cons in simp)
qed simp

lemma loop_inv:
  assumes "loop_run h bs m = Some (Inr m')" and "list_all (pred_option (list_all ok)) bs" and "mon_inv m"
  shows "mon_inv m'" and "ts_path (tracing_state m) (tracing_state m')"
  using loop_rel [OF assms(1,2)] assms(3) by (auto simp: mon_rel_def)

end

text \<open>Two handlers registered with one loop.\<close>

locale handler_pair = a: event_handler h1 ok1 + b: event_handler h2 ok2
  for h1 :: "'a \<Rightarrow> monitor \<Rightarrow> monitor res option" and ok1 :: "'a \<Rightarrow> bool"
    and h2 :: "'b \<Rightarrow> monitor \<Rightarrow> monitor res option" and ok2 :: "'b \<Rightarrow> bool"
begin

lemma pair_rel: "case_sum ok1 ok2 e \<Longrightarrow> case_sum h1 h2 e m = Some (Inr m') \<Longrightarrow> mon_rel m m'"
  by (cases e) (auto intro: a.handle_rel b.handle_rel)

end

sublocale handler_pair \<subseteq> pair: event_handler "case_sum h1 h2" "case_sum ok1 ok2"
  by unfold_locales (rule pair_rel)

interpretation sock: event_handler socket_HandleEvent "\<lambda>_. True"
  by unfold_locales (rule mon_rel_socket_HandleEvent)

interpretation sigc: event_handler "\<lambda>rs m. Some (sigchld_HandleEvent rs m)" "list_all wf_sread"
  by unfold_locales (simp add: mon_rel_sigchld_HandleEvent)

interpretation mon: handler_pair socket_HandleEvent "\<lambda>_. True"
  "\<lambda>rs m. Some (sigchld_HandleEvent rs m)" "list_all wf_sread" ..

definition wf_event :: "event \<Rightarrow> bool" where
  "wf_event e = (case e of Inl q \<Rightarrow> True | Inr rs \<Rightarrow> list_all wf_sread rs)"

definition wf_events :: "event list option list \<Rightarrow> bool" where
  "wf_events bs = list_all (pred_option (list_all wf_event)) bs"

lemma HandleEvent_sum:
  "HandleEvent = case_sum socket_HandleEvent (\<lambda>rs m. Some (sigchld_HandleEvent rs m))"
  by (rule ext) (simp add: HandleEvent_def fun_eq_iff split: sum.split)

lemma wf_event_sum: "wf_event = case_sum (\<lambda>_. True) (list_all wf_sread)"
  by (rule ext) (simp add: wf_event_def split: sum.split)

lemmas monitor_loop_inv = mon.pair.loop_inv [folded HandleEvent_sum wf_event_sum, folded wf_events_def]

section \<open>The start and the whole run\<close>

lemma mon_inv_start:
  assumes "mon_inv (m\<lparr>running := True\<rparr>)" and "prepare_environment tmp prop m = Inr (ok, m1)"
  shows "mon_inv ((snd (SigChldHandler_Init a f m1))\<lparr>running := True\<rparr>)"
    and "tracing_state (snd (SigChldHandler_Init a f m1)) = tracing_state m"
proof -
  have k: "tracing_state m1 = tracing_state m \<and> monitor_stop_reason m1 = monitor_stop_reason m \<and>
      status64 m1 = status64 m \<and> status32 m1 = status32 m \<and>
      count_zygote64 m1 = count_zygote64 m \<and> count_zygote32 m1 = count_zygote32 m"
    using assms(2)
    by (auto simp: prepare_environment_def Let_def res_simps split: option.splits if_splits prod.splits
        dest!: updateStatus_frame)
  then show "mon_inv ((snd (SigChldHandler_Init a f m1))\<lparr>running := True\<rparr>)"
    and "tracing_state (snd (SigChldHandler_Init a f m1)) = tracing_state m"
    using assms(1) by (simp_all add: mon_inv_def SigChldHandler_Init_def)
qed

lemma mon_inv_init: "mon_inv (monitor_init\<lparr>running := True\<rparr>)"
  by (simp add: mon_inv_def monitor_init_def abi_ok_def Status_init_def)

lemma loop_run_stopped: "\<not> running m \<Longrightarrow> loop_run h bs m = Some (Inr m)"
  by (cases bs) simp_all

lemma loop_run_append:
  "loop_run h (as @ bs) m =
     (case loop_run h as m of
        Some (Inr m') \<Rightarrow> loop_run h bs m'
      | r \<Rightarrow> r)"
proof (induction as arbitrary: m)
  case (Cons a as)
  then show ?case by (auto simp: loop_run_stopped split: option.splits sum.splits)
qed simp

section \<open>Properties of the monitor\<close>






text \<open>C2: The tracer is only ever started on a process the monitor tracks, at an exec stop of one of the two
  \<open>app_process\<close> binaries, while the monitor traces; it is the tracer of the binary's ABI, the daemon of
  that ABI is running, its injection flag has been reset, and the process is no longer tracked.\<close>

theorem injection_is_guarded:
  assumes "waitpid_turn e m = Inr (Some m')" and "Exec_Tracer t p \<in> set (new_calls m m')"
    and "we_pid e \<noteq> -1"
  shows "\<exists>b l. p = we_pid e \<and> p \<in> processes m \<and> p \<notin> processes m' \<and> tracing_state m = TRACING \<and>
      STOPPED_WITH (we_status e) SIGTRAP PTRACE_EVENT_EXEC \<and>
      we_exe e = Some l \<and> c_str l = app_process b \<and> t = tracer_path b \<and>
      daemon_running (get_status b m') \<and> \<not> zygote_injected (get_status b m')"
proof -
  let ?m = "m\<lparr>wait_status := we_status e\<rparr>"
  have no_exec: "Exec_Tracer t p \<notin> set (new_calls m (handle_init x ?m))" for x
    by (auto simp: handle_init_def Let_def new_calls_def)
  have no_exit: "Exec_Tracer t p \<notin> set (new_calls m m1)" "calls m1 = calls m"
    if "CHECK_DAEMON_EXIT b x m0 = Inr (r, m1)" "calls m0 = calls m" for b x m0 r m1
    using that by (auto simp: CHECK_DAEMON_EXIT_def Let_def res_simps set_status_def new_calls_def
        split: if_splits dest: updateStatus_keeps(7))
  obtain m1 m2 where c: "CHECK_DAEMON_EXIT True (we_pid e) ?m = Inr (False, m1)"
    "CHECK_DAEMON_EXIT False (we_pid e) m1 = Inr (False, m2)" and h: "handle_process e (we_pid e) m2 = Inr m'"
    using assms no_exec no_exit [of True "we_pid e" ?m] no_exit [of False "we_pid e"]
    by (auto simp: waitpid_turn_def Let_def res_simps split: if_splits)
  have m2: "m2 = ?m" using c by (auto simp: CHECK_DAEMON_EXIT_def Let_def res_simps split: if_splits)
  have "Exec_Tracer t p \<in> set (new_calls m2 m')" using assms(2) by (simp add: m2 new_calls_def)
  from handle_process_exec [OF h this] show ?thesis by (auto simp: m2)
qed

theorem injection_is_guarded_witness:
  "\<exists>m'. waitpid_turn \<lparr>we_pid = 77, we_echild = False, we_status = stop_status SIGTRAP PTRACE_EVENT_EXEC,
        we_exe = Some ''/system/bin/app_process64'', we_now = 100, we_fork = Some 90,
        we_stop = Some (stop_status SIGSTOP 0), we_fork1 = Some 91, we_fork2 = Some 92\<rparr> (monitor_init\<lparr>processes := {77}\<rparr>) = Inr (Some m') \<and>
     Exec_Tracer ''./bin/zygisk-ptrace64'' 77 \<in> set (new_calls monitor_init m') \<and> 77 \<notin> processes m'"
    (is "\<exists>m'. waitpid_turn ?e ?m = _ \<and> _")
proof -
  have "case waitpid_turn ?e ?m of
      Inr (Some m') \<Rightarrow> Exec_Tracer ''./bin/zygisk-ptrace64'' 77 \<in> set (new_calls ?m m') | _ \<Rightarrow> False"
    by code_simp
  then obtain m' where m': "waitpid_turn ?e ?m = Inr (Some m')"
    "Exec_Tracer ''./bin/zygisk-ptrace64'' 77 \<in> set (new_calls ?m m')"
    by (auto split: option.splits sum.splits)
  from injection_is_guarded [OF this] have "77 \<notin> processes m'" by auto
  with m' show ?thesis by (simp add: new_calls_def)
qed

text \<open>C3: A stopped process that the monitor stops tracking has been detached exactly once in that turn,
  whether it was handed to the tracer, left alone, or had stopped for another reason.\<close>

theorem dropped_process_detached_once:
  assumes "handle_process e pid m = Inr m'" and "pid \<in> processes m" and "pid \<notin> processes m'"
    and "WIFSTOPPED (wait_status m)" and "\<forall>s. we_stop e = Some s \<longrightarrow> WIFSTOPPED s"
  shows "length (filter (is_detach pid) (new_calls m m')) = 1"
  using handle_process_detaches [OF assms(1-4)] assms(5) by simp

theorem dropped_process_detached_once_witness:
  "\<exists>m'. handle_process \<lparr>we_pid = 77, we_echild = False, we_status = stop_status SIGTRAP PTRACE_EVENT_EXEC,
        we_exe = Some ''/system/bin/app_process64'', we_now = 100, we_fork = Some 90,
        we_stop = Some (stop_status SIGSTOP 0), we_fork1 = Some 91, we_fork2 = Some 92\<rparr>
       (77) (monitor_init\<lparr>processes := {77}, wait_status := stop_status SIGTRAP PTRACE_EVENT_EXEC\<rparr>) = Inr m' \<and>
     length (filter (is_detach 77) (new_calls monitor_init m')) = 1"
    (is "\<exists>m'. handle_process ?e _ ?m = _ \<and> _")
proof -
  have "case handle_process ?e 77 ?m of Inr m' \<Rightarrow> 77 \<notin> processes m' | _ \<Rightarrow> False" by code_simp
  then obtain m' where m': "handle_process ?e 77 ?m = Inr m'" "77 \<notin> processes m'"
    by (auto split: sum.splits)
  have "WIFSTOPPED (wait_status ?m)" "\<forall>s. we_stop ?e = Some s \<longrightarrow> WIFSTOPPED s"
    by (simp_all add: stop_status_def wait_defs)
  from dropped_process_detached_once [OF m'(1) _ m'(2) this] m'(1) show ?thesis
    by (simp add: new_calls_def)
qed

text \<open>C5: The crash-loop counter of an ABI: after any sequence of zygote starts it is the number of starts at
  the end of the sequence that came less than 30 s after the one before, and the next start is refused
  exactly when that makes five.\<close>

theorem crash_loop_counter:
  assumes "zygote_count b m = 0"
  shows "zygote_count b (zygote_starts b ts m) = int (rapid_starts (zygote_last b m) ts) \<and>
         (fst (should_stop_inject b t (zygote_starts b ts m)) \<longleftrightarrow>
            rapid_starts (zygote_last b m) (ts @ [t]) \<ge> 5)"
proof -
  note c = zygote_starts_count [OF assms]
  have "zygote_count b (snd (should_stop_inject b t (zygote_starts b ts m))) =
      int (rapid_starts (zygote_last b m) (ts @ [t]))"
    using c [of ts] unfolding should_stop_inject_counts(1) rapid_starts_snoc by simp
  then have "fst (should_stop_inject b t (zygote_starts b ts m)) \<longleftrightarrow>
      rapid_starts (zygote_last b m) (ts @ [t]) \<ge> 5"
    unfolding should_stop_inject_counts(3) by simp
  with c show ?thesis by blast
qed

theorem crash_loop_counter_witness:
  "zygote_count True monitor_init = 0 \<and>
   fst (should_stop_inject True 140 (zygote_starts True [50, 60, 70, 80, 90, 115] monitor_init))"
proof -
  have z: "zygote_count True monitor_init = 0" by (simp add: zygote_count_def monitor_init_def)
  have "rapid_starts (zygote_last True monitor_init) ([50, 60, 70, 80, 90, 115] @ [140]) \<ge> 5"
    by (simp add: rapid_starts_def zygote_last_def monitor_init_def)
  with crash_loop_counter [OF z, of "[50, 60, 70, 80, 90, 115]" 140] z show ?thesis by blast
qed

text \<open>C6: Every stop of init is answered by exactly one call that lets it run again: the detach when the
  monitor is stopping, otherwise a continue, which delivers the signal of a signal stop unless the signal
  is one of the four stop signals, and delivers none at a ptrace event.\<close>

theorem init_always_resumed:
  assumes "WIFSTOPPED (wait_status m)"
  shows "filter (is_resume 1) (new_calls m (handle_init 1 m)) =
    [if STOPPED_WITH (wait_status m) SIGTRAP PTRACE_EVENT_STOP \<and> tracing_state m = STOPPING
     then Ptrace_Detach 1 0
     else Ptrace_Cont 1
       (if WPTEVENT (wait_status m) = 0 \<and> WSTOPSIG (wait_status m) \<notin> {SIGSTOP, SIGTSTP, SIGTTIN, SIGTTOU}
        then WSTOPSIG (wait_status m) else 0)]"
proof -
  have "\<not> (STOPPED_WITH s SIGTRAP PTRACE_EVENT_FORK \<and> STOPPED_WITH s SIGTRAP PTRACE_EVENT_STOP)" for s
    using STOPPED_WITH_inj [of s SIGTRAP PTRACE_EVENT_FORK SIGTRAP PTRACE_EVENT_STOP] by auto
  then show ?thesis
    using assms by (auto simp: handle_init_def Let_def new_calls_def is_resume_def)
qed

theorem init_always_resumed_witness:
  "filter (is_resume 1) (new_calls monitor_init
     (handle_init 1 (monitor_init\<lparr>wait_status := stop_status SIGCHLD 0\<rparr>))) = [Ptrace_Cont 1 SIGCHLD]"
proof -
  have "WIFSTOPPED (wait_status (monitor_init\<lparr>wait_status := stop_status SIGCHLD 0\<rparr>))"
    by (simp add: stop_status_def wait_defs)
  from init_always_resumed [OF this] show ?thesis
    by (simp add: new_calls_def stop_status_def wait_defs STOPPED_WITH_def)
qed

text \<open>The exit of the 64-bit daemon crashes the monitor when the daemon never sent an error text: the
  macro reads the first character of a null \<open>daemon_error_info\<close>.\<close>

lemma daemon64_exit_null_deref:
  assumes "mon_inv m" and "supported (status64 m)" and "daemon_error_info (status64 m) = None"
    and "we_pid e = daemon_pid (status64 m)" and "we_pid e \<noteq> 1"
  shows "waitpid_turn e m = Inl Null_Deref"
proof -
  have "daemon_pid (status64 m) > 0" using assms(1,2) by (simp add: mon_inv_def abi_ok_def)
  then show ?thesis
    using assms CHECK_DAEMON_EXIT_null [of True "m\<lparr>wait_status := we_status e\<rparr>"]
    by (simp add: waitpid_turn_def get_status_def)
qed

lemma daemon64_exit_null_deref_witness:
  "waitpid_turn \<lparr>we_pid = 90, we_echild = False, we_status = 0x100, we_exe = None, we_now = 0, we_fork = None,
        we_stop = None, we_fork1 = None, we_fork2 = None\<rparr>
     (monitor_init\<lparr>running := True, status64 := \<lparr>supported = True, zygote_injected = False, daemon_running = True, daemon_pid = 90,
        daemon_info = None, daemon_error_info = None\<rparr>\<rparr>) = Inl Null_Deref"
  by (rule daemon64_exit_null_deref)
    (simp_all add: mon_inv_def monitor_init_def abi_ok_def Status_init_def)

text \<open>C40: The exit of the 32-bit daemon goes unnoticed beside a 64-bit daemon: the macro compares with the
  pid of the 64-bit daemon, so the dead daemon stays marked as running and its pid is taken for a new
  traced process.\<close>

theorem daemon32_exit_missed:
  assumes "pid = daemon_pid (status32 m)" and "pid \<noteq> daemon_pid (status64 m)" and "we_pid e = pid"
    and "pid \<notin> {1, -1}" and "pid \<notin> processes m"
  shows "\<exists>m'. waitpid_turn e m = Inr (Some m') \<and> status32 m' = status32 m \<and>
      processes m' = insert pid (processes m) \<and>
      new_calls m m' = [Ptrace_Setoptions pid, Ptrace_Cont pid 0]"
  using waitpid_turn_process [OF assms(4,2,3)] assms(5) by (simp add: handle_process_def new_calls_def)

theorem daemon32_exit_missed_witness:
  "\<exists>m'. waitpid_turn \<lparr>we_pid = 90, we_echild = False, we_status = 0x100, we_exe = None, we_now = 0, we_fork = None,
        we_stop = None, we_fork1 = None, we_fork2 = None\<rparr>
       (monitor_init\<lparr>status32 := \<lparr>supported = True, zygote_injected = False, daemon_running = True, daemon_pid = 90,
        daemon_info = None, daemon_error_info = None\<rparr>\<rparr>) = Inr (Some m') \<and>
     daemon_running (status32 m')"
  using daemon32_exit_missed [of 90 "monitor_init\<lparr>status32 := \<lparr>supported = True, zygote_injected = False, daemon_running = True, daemon_pid = 90,
        daemon_info = None, daemon_error_info = None\<rparr>\<rparr>"
      "\<lparr>we_pid = 90, we_echild = False, we_status = 0x100, we_exe = None, we_now = 0, we_fork = None,
        we_stop = None, we_fork1 = None, we_fork2 = None\<rparr>"]
  by (auto simp: monitor_init_def Status_init_def)

text \<open>When the second fork of \<open>fork_dont_care\<close> fails, the tracer is not started, the process is killed
  and the process in the middle goes on as a second monitor.\<close>

lemma second_fork_failure_duplicates_monitor:
  assumes "we_fork1 e = Some p" and "p > 0" and "we_fork2 e = None" and "we_stop e = Some (stop_status SIGSTOP 0)"
  shows "new_calls m (launch_tracer e pid t m) =
    [Kill pid SIGSTOP, Ptrace_Cont pid 0, Ptrace_Detach pid SIGSTOP, Kill pid SIGKILL, Duplicate_Monitor]"
proof -
  have "stopped_there e m"
    using assms(4) by (simp add: stopped_there_def STOPPED_WITH_def stop_status_def wait_defs)
  then show ?thesis
    using assms by (simp add: new_calls_def launch_calls launch_calls_def concat_fork_action)
qed

lemma second_fork_failure_duplicates_monitor_witness:
  "Duplicate_Monitor \<in> set (new_calls monitor_init (launch_tracer
     \<lparr>we_pid = 77, we_echild = False, we_status = 0, we_exe = None, we_now = 0, we_fork = None,
        we_stop = Some (stop_status SIGSTOP 0), we_fork1 = Some 91, we_fork2 = None\<rparr> 77 (tracer_path True) monitor_init))"
  by (subst second_fork_failure_duplicates_monitor [of _ 91]) simp_all

end
