(* ===== verification/Event_Registry.thy ===== *)
theory Event_Registry
  imports Monitor_Loop
begin

text \<open>
  The descriptors of the monitor (\<open>loader/src/ptracer/monitor.cpp\<close>): what \<open>EventLoop::Init\<close>,
  \<open>RegisterHandler\<close>, \<open>UnregisterHandler\<close> and the destructors of the loop and of the two handlers do with the
  epoll instance and with the table of open descriptors, and \<open>init_monitor\<close> with them.  It ignores the results of
  \<open>Init\<close> and \<open>RegisterHandler\<close>.  The kernel follows epoll_ctl(2): a descriptor that is not open, or is of a
  kind that cannot be polled, is refused, as is one that is there already.
\<close>

section \<open>Descriptors and the epoll instance\<close>

datatype ev_handler = H_Socket | H_SigChld

record ev_loop =
  ev_open :: "int set"                           \<comment> \<open>the open descriptors of the process\<close>
  epoll_fd :: int                                \<comment> \<open>\<open>epoll_fd_\<close>\<close>
  ev_interest :: "(int \<times> ev_handler) list"      \<comment> \<open>descriptor and \<open>data.ptr\<close>, in the kernel\<close>
  ev_log :: "int list"                           \<comment> \<open>the calls of \<open>close\<close>\<close>

definition ev_close :: "int \<Rightarrow> ev_loop \<Rightarrow> ev_loop" where
  "ev_close f l = l\<lparr>ev_open := ev_open l - {f}, ev_interest := filter (\<lambda>(g, _). g \<noteq> f) (ev_interest l),
     ev_log := ev_log l @ [f]\<rparr>"

definition ev_opened :: "int \<Rightarrow> ev_loop \<Rightarrow> ev_loop" where
  "ev_opened f l = (if f = -1 then l else l\<lparr>ev_open := insert f (ev_open l)\<rparr>)"

text \<open>\<open>epoll_create\<close> answers \<open>r\<close>.\<close>

definition EventLoop_Init :: "int \<Rightarrow> ev_loop \<Rightarrow> bool \<times> ev_loop" where
  "EventLoop_Init r l = (r \<noteq> -1, (ev_opened r l)\<lparr>epoll_fd := r\<rparr>)"

definition RegisterHandler :: "(int \<Rightarrow> bool) \<Rightarrow> int \<Rightarrow> ev_handler \<Rightarrow> ev_loop \<Rightarrow> bool \<times> ev_loop" where
  "RegisterHandler pollable f h l =
     (if epoll_fd l \<in> ev_open l \<and> f \<in> ev_open l \<and> pollable f \<and> f \<notin> fst ` set (ev_interest l)
      then (True, l\<lparr>ev_interest := ev_interest l @ [(f, h)]\<rparr>) else (False, l))"

definition UnregisterHandler :: "int \<Rightarrow> ev_loop \<Rightarrow> bool \<times> ev_loop" where
  "UnregisterHandler f l =
     (if epoll_fd l \<in> ev_open l \<and> f \<in> ev_open l \<and> f \<in> fst ` set (ev_interest l)
      then (True, l\<lparr>ev_interest := filter (\<lambda>(g, _). g \<noteq> f) (ev_interest l)\<rparr>) else (False, l))"

text \<open>The three destructors have the same text.\<close>

definition close_if_open :: "int \<Rightarrow> ev_loop \<Rightarrow> ev_loop" where
  "close_if_open f l = (if f \<ge> 0 then ev_close f l else l)"

definition destroy_EventLoop :: "ev_loop \<Rightarrow> ev_loop" where
  "destroy_EventLoop l = close_if_open (epoll_fd l) l"

definition destroy_SocketHandler :: "int \<Rightarrow> ev_loop \<Rightarrow> ev_loop" where
  "destroy_SocketHandler sock_fd l = close_if_open sock_fd l"

definition destroy_SigChldHandler :: "int \<Rightarrow> ev_loop \<Rightarrow> ev_loop" where
  "destroy_SigChldHandler signal_fd l = close_if_open signal_fd l"

section \<open>What the handlers have after their \<open>Init\<close>\<close>

text \<open>\<open>GetFd\<close>: the handlers are value-initialised, so a descriptor that \<open>Init\<close> did not reach is 0.\<close>

definition SocketHandler_GetFd :: "boot \<Rightarrow> int" where
  "SocketHandler_GetFd b = b_sock_fd b"

definition SigChldHandler_GetFd :: "boot \<Rightarrow> int" where
  "SigChldHandler_GetFd b = (if b_mask_ok b then b_signal_fd b else 0)"

definition SigChldHandler_opened :: "boot \<Rightarrow> ev_loop \<Rightarrow> ev_loop" where
  "SigChldHandler_opened b l = (if b_mask_ok b then ev_opened (b_signal_fd b) l else l)"

definition monitor_setup :: "(int \<Rightarrow> bool) \<Rightarrow> boot \<Rightarrow> int \<Rightarrow> ev_loop \<Rightarrow> ev_loop" where
  "monitor_setup pollable b r l =
     (let l1 = ev_opened (b_sock_fd b) l;
          l2 = SigChldHandler_opened b l1;
          l3 = snd (EventLoop_Init r l2);
          l4 = snd (RegisterHandler pollable (SocketHandler_GetFd b) H_Socket l3)
      in snd (RegisterHandler pollable (SigChldHandler_GetFd b) H_SigChld l4))"

definition monitor_teardown :: "boot \<Rightarrow> ev_loop \<Rightarrow> ev_loop" where
  "monitor_teardown b l =
     destroy_SocketHandler (SocketHandler_GetFd b) (destroy_SigChldHandler (SigChldHandler_GetFd b) (destroy_EventLoop l))"

section \<open>The monitor with its descriptors\<close>

text \<open>A descriptor that is ready, with what the reads from it will give to the socket handler and to the child
  handler.  \<open>epoll_wait\<close> answers -1 without an epoll instance, and else reports the ready descriptors that were
  registered, each with the handler it was registered for.\<close>

type_synonym ready = "int \<times> rx list \<times> sread list"

definition event_of :: "ev_handler \<Rightarrow> rx list \<Rightarrow> sread list \<Rightarrow> event" where
  "event_of h q rs = (case h of H_Socket \<Rightarrow> Inl q | H_SigChld \<Rightarrow> Inr rs)"

definition epoll_wait :: "ev_loop \<Rightarrow> ready list option \<Rightarrow> event list option" where
  "epoll_wait l b =
     (if epoll_fd l \<in> ev_open l
      then map_option (List.map_filter (\<lambda>(f, q, rs). map_option (\<lambda>h. event_of h q rs) (map_of (ev_interest l) f))) b
      else None)"

definition init_monitor_fds ::
  "(int \<Rightarrow> bool) \<Rightarrow> boot \<Rightarrow> int \<Rightarrow> ready list option list \<Rightarrow> ev_loop \<Rightarrow> monitor \<Rightarrow> (monitor \<times> ev_loop) res option" where
  "init_monitor_fds pollable b r bs l m =
     (let l' = monitor_setup pollable b r l
      in case init_monitor b (map (epoll_wait l') bs) m of
           None \<Rightarrow> None
         | Some (Inl f) \<Rightarrow> Some (Inl f)
         | Some (Inr m') \<Rightarrow> Some (Inr (m', if running m' then l' else monitor_teardown b l')))"

section \<open>Properties\<close>

text \<open>Registering and unregistering.\<close>

lemma unregister_register:
  assumes "RegisterHandler pollable f h l = (True, l1)"
  shows "UnregisterHandler f l1 = (True, l)"
proof -
  have "filter (\<lambda>(g, _). g \<noteq> f) (ev_interest l) = ev_interest l" if "f \<notin> fst ` set (ev_interest l)"
    using that by (intro filter_True) (force simp: image_iff)
  then show ?thesis
    using assms by (auto simp: RegisterHandler_def UnregisterHandler_def split: if_splits)
qed

definition fresh_fds :: "(int \<Rightarrow> bool) \<Rightarrow> boot \<Rightarrow> int \<Rightarrow> ev_loop \<Rightarrow> bool" where
  "fresh_fds pollable b r l \<longleftrightarrow>
     b_mask_ok b \<and> distinct [b_sock_fd b, b_signal_fd b, r] \<and>
     list_all (\<lambda>f. f \<ge> 0 \<and> f \<notin> ev_open l) [b_sock_fd b, b_signal_fd b, r] \<and>
     pollable (b_sock_fd b) \<and> pollable (b_signal_fd b) \<and> ev_interest l = []"

lemma monitor_setup_fresh:
  assumes "fresh_fds pollable b r l"
  shows "monitor_setup pollable b r l =
    l\<lparr>ev_open := insert r (insert (b_signal_fd b) (insert (b_sock_fd b) (ev_open l))), epoll_fd := r,
      ev_interest := [(b_sock_fd b, H_Socket), (b_signal_fd b, H_SigChld)]\<rparr>"
  using assms
  by (auto simp: fresh_fds_def monitor_setup_def ev_opened_def SigChldHandler_opened_def EventLoop_Init_def
      RegisterHandler_def SocketHandler_GetFd_def SigChldHandler_GetFd_def Let_def)

text \<open>What the two handlers get to see of a batch of ready descriptors.\<close>

definition by_fd :: "boot \<Rightarrow> ready \<Rightarrow> event option" where
  "by_fd b x = (case x of (f, q, rs) \<Rightarrow>
     if f = b_sock_fd b then Some (Inl q) else if f = b_signal_fd b then Some (Inr rs) else None)"

lemma epoll_wait_fresh:
  assumes "fresh_fds pollable b r l"
  shows "epoll_wait (monitor_setup pollable b r l) = map_option (List.map_filter (by_fd b))"
proof -
  have "(\<lambda>(f, q, rs). map_option (\<lambda>h. event_of h q rs)
      (map_of [(b_sock_fd b, H_Socket), (b_signal_fd b, H_SigChld)] f)) = by_fd b"
    using assms by (auto simp: fun_eq_iff by_fd_def event_of_def fresh_fds_def)
  then show ?thesis by (auto simp: fun_eq_iff epoll_wait_def monitor_setup_fresh [OF assms])
qed

lemma teardown_fresh:
  assumes "fresh_fds pollable b r l"
  shows "ev_open (monitor_teardown b (monitor_setup pollable b r l)) = ev_open l \<and>
    ev_interest (monitor_teardown b (monitor_setup pollable b r l)) = [] \<and>
    ev_log (monitor_teardown b (monitor_setup pollable b r l)) = ev_log l @ [r, b_signal_fd b, b_sock_fd b]"
  using assms unfolding monitor_setup_fresh [OF assms]
  by (auto simp: fresh_fds_def monitor_teardown_def destroy_EventLoop_def destroy_SocketHandler_def
      destroy_SigChldHandler_def close_if_open_def ev_close_def SocketHandler_GetFd_def SigChldHandler_GetFd_def)

text \<open>C37: When the kernel grants the descriptors, the monitor with its epoll instance behaves as the loop over the two
  handlers: what is ready on the socket goes to the socket handler, what is ready on the signal descriptor to the
  child handler, and nothing else is handled; and when it ends, the loop's, the child handler's and the socket
  handler's descriptors are closed in this order and the process has the descriptors it started with.\<close>

theorem monitor_descriptors_refine:
  assumes "fresh_fds pollable b r l"
  shows "init_monitor_fds pollable b r bs l m =
      map_option (map_sum id (\<lambda>m'. (m', if running m' then monitor_setup pollable b r l
          else monitor_teardown b (monitor_setup pollable b r l))))
        (init_monitor b (map (map_option (List.map_filter (by_fd b))) bs) m) \<and>
    ev_open (monitor_teardown b (monitor_setup pollable b r l)) = ev_open l \<and>
    ev_log (monitor_teardown b (monitor_setup pollable b r l)) = ev_log l @ [r, b_signal_fd b, b_sock_fd b]"
  using teardown_fresh [OF assms]
  by (auto simp: init_monitor_fds_def epoll_wait_fresh [OF assms] Let_def split: option.split sum.split)

text \<open>Descriptors 3, 4 and 5 are granted; the socket gets the command to exit.\<close>

theorem monitor_descriptors_refine_witness:
  "\<exists>m' l'. init_monitor_fds (\<lambda>_. True) \<lparr>b_tmp = ''/data/adb/rezygisk'', b_prop = Some [], b_sock_fd = 3, b_bind_ok = True,
        b_mask_ok = True, b_signal_fd = 4\<rparr> 5 [Some [(0, [], []), (3, [Rx_Dgram (enc_u32 3)], [])]]
       \<lparr>ev_open = {0, 1, 2}, epoll_fd = 0, ev_interest = [], ev_log = []\<rparr> monitor_init = Some (Inr (m', l')) \<and>
     tracing_state m' = EXITING \<and> ev_open l' = {0, 1, 2} \<and> ev_log l' = [5, 4, 3]"
    (is "\<exists>m' l'. init_monitor_fds ?p ?b 5 ?bs ?l _ = _ \<and> _")
proof -
  have f: "fresh_fds ?p ?b 5 ?l" by (simp add: fresh_fds_def)
  have "case init_monitor ?b [Some [Inl [Rx_Dgram (enc_u32 3)]]] monitor_init of
      Some (Inr m) \<Rightarrow> tracing_state m = EXITING \<and> \<not> running m | _ \<Rightarrow> False" by code_simp
  then obtain m where m: "init_monitor ?b [Some [Inl [Rx_Dgram (enc_u32 3)]]] monitor_init = Some (Inr m)"
    "tracing_state m = EXITING" "\<not> running m"
    by (auto split: option.splits sum.splits)
  have "map (map_option (List.map_filter (by_fd ?b))) ?bs = [Some [Inl [Rx_Dgram (enc_u32 3)]]]"
    by (simp add: by_fd_def map_filter_simps)
  with monitor_descriptors_refine [OF f, of ?bs monitor_init] m show ?thesis by simp
qed

section \<open>When the kernel refuses\<close>

lemma loop_run_waits: "loop_run h (map (\<lambda>_. None) bs) m = Some (Inr m)"
  by (induction bs) auto

text \<open>Without an epoll instance \<open>init_monitor\<close> never leaves its loop and never handles anything, however often it
  goes round.\<close>

lemma monitor_without_epoll:
  assumes "-1 \<notin> ev_open l" and "b_sock_fd b \<noteq> -1" and "b_mask_ok b" and "b_signal_fd b \<noteq> -1"
    and "prepare_environment (b_tmp b) (b_prop b) m = Inr (True, m1)"
    and "SocketHandler_Init (b_tmp b) (b_sock_fd b) (b_bind_ok b) = Inr x"
  shows "\<exists>m' l'. init_monitor_fds pollable b (-1) bs l m = Some (Inr (m', l')) \<and> running m' \<and>
    m' = (call (Ptrace_Seize 1) m1)\<lparr>running := True\<rparr> \<and> ev_interest l' = ev_interest l"
proof -
  let ?l = "monitor_setup pollable b (-1) l"
  have l: "epoll_fd ?l = -1" "-1 \<notin> ev_open ?l" "ev_interest ?l = ev_interest l"
    using assms(1-4) by (auto simp: monitor_setup_def ev_opened_def SigChldHandler_opened_def EventLoop_Init_def
        RegisterHandler_def Let_def)
  have w: "map (epoll_wait ?l) bs = map (\<lambda>_. None) bs" using l by (simp add: epoll_wait_def)
  show ?thesis
    using assms(3-6) l unfolding init_monitor_fds_def Let_def w
    by (simp add: init_monitor_def SigChldHandler_Init_def Loop_def loop_run_waits [of _ bs])
qed

text \<open>When the signal mask cannot be set, the child handler keeps descriptor 0: the monitor registers its standard
  input in its place, and closes it when it ends.\<close>

lemma unset_mask_takes_stdin:
  assumes "\<not> b_mask_ok b" and "0 \<in> ev_open l" and "pollable 0" and "ev_interest l = []"
    and "r > 0" and "b_sock_fd b > 0" and "pollable (b_sock_fd b)"
  shows "map_of (ev_interest (monitor_setup pollable b r l)) 0 = Some H_SigChld \<and>
    0 \<notin> ev_open (monitor_teardown b (monitor_setup pollable b r l))"
  using assms
  by (auto simp: monitor_setup_def ev_opened_def SigChldHandler_opened_def EventLoop_Init_def RegisterHandler_def
      SocketHandler_GetFd_def SigChldHandler_GetFd_def monitor_teardown_def destroy_EventLoop_def
      destroy_SocketHandler_def destroy_SigChldHandler_def close_if_open_def ev_close_def Let_def)

end
