(* ===== verification/Scanf.thy ===== *)
theory Scanf
  imports Zygisk_Prelude
begin

text \<open>
  The part of the C library's \<open>sscanf\<close> and \<open>getline\<close> that the loader's parsers of \<open>/proc\<close> files rely on.
  A format is a list of directives, and a run gives what the directives stored, in order, up to the first
  one that fails.  The input is a C string without its NUL.
\<close>

section \<open>Directives\<close>

datatype directive =
    Lit char           \<comment> \<open>an ordinary character\<close>
  | Ws                 \<comment> \<open>white space: any amount, also none\<close>
  | Uint nat           \<comment> \<open>\<open>%u\<close>, \<open>%lu\<close> (base 10), \<open>%x\<close>, \<open>%lx\<close> (base 16)\<close>
  | Text nat           \<comment> \<open>\<open>%4s\<close> with its width\<close>
  | Skip_Text          \<comment> \<open>\<open>%*s\<close>\<close>
  | Skip_Not char      \<comment> \<open>\<open>%*[^c]\<close>\<close>
  | Pos                \<comment> \<open>\<open>%n\<close>\<close>

datatype out = Num nat | Str string | At nat

definition isspace :: "char \<Rightarrow> bool" where
  "isspace c \<longleftrightarrow> c \<in> {CHR '' '', CHR 0x09, CHR 0x0A, CHR 0x0B, CHR 0x0C, CHR 0x0D}"

definition digit_val :: "char \<Rightarrow> nat option" where
  "digit_val c =
     (let n = (of_char c :: nat)
      in if 48 \<le> n \<and> n \<le> 57 then Some (n - 48)
         else if 97 \<le> n \<and> n \<le> 102 then Some (n - 87)
         else if 65 \<le> n \<and> n \<le> 70 then Some (n - 55)
         else None)"

definition is_digit :: "nat \<Rightarrow> char \<Rightarrow> bool" where
  "is_digit base c = (case digit_val c of None \<Rightarrow> False | Some d \<Rightarrow> d < base)"

definition num_of :: "nat \<Rightarrow> string \<Rightarrow> nat" where
  "num_of base ds = foldl (\<lambda>a c. a * base + the (digit_val c)) 0 ds"

text \<open>\<open>strtoumax\<close>: white space, a sign, for base 16 a prefix \<open>0x\<close> with a digit behind it, the digits; the value
  saturates at the largest 64-bit number and a minus sign negates it modulo \<open>2 ^ 64\<close>.  The result has the number
  of characters read.\<close>

definition scan_uint :: "nat \<Rightarrow> string \<Rightarrow> (nat \<times> nat) option" where
  "scan_uint base s =
     (let ws = length (takeWhile isspace s);
          s1 = drop ws s;
          sg = (if s1 \<noteq> [] \<and> (hd s1 = CHR ''-'' \<or> hd s1 = CHR ''+'') then 1 else 0);
          s2 = drop sg s1;
          px = (if base = 16 \<and> length s2 \<ge> 3 \<and> s2 ! 0 = CHR ''0'' \<and> (s2 ! 1 = CHR ''x'' \<or> s2 ! 1 = CHR ''X'') \<and>
                   is_digit base (s2 ! 2) then 2 else 0);
          ds = takeWhile (is_digit base) (drop px s2);
          v = min (num_of base ds) (2 ^ 64 - 1)
      in if ds = [] then None
         else Some (if sg = 1 \<and> hd s1 = CHR ''-'' then (2 ^ 64 - v) mod 2 ^ 64 else v,
                    ws + sg + px + length ds))"

fun sscanf :: "directive list \<Rightarrow> nat \<Rightarrow> string \<Rightarrow> out list" where
  "sscanf [] pos s = []"
| "sscanf (Lit c # fs) pos s = (case s of [] \<Rightarrow> [] | c' # s' \<Rightarrow> if c = c' then sscanf fs (pos + 1) s' else [])"
| "sscanf (Ws # fs) pos s =
     (let k = length (takeWhile isspace s) in sscanf fs (pos + k) (drop k s))"
| "sscanf (Uint base # fs) pos s =
     (case scan_uint base s of None \<Rightarrow> [] | Some (v, k) \<Rightarrow> Num v # sscanf fs (pos + k) (drop k s))"
| "sscanf (Text n # fs) pos s =
     (let ws = length (takeWhile isspace s);
          t = take n (takeWhile (\<lambda>c. \<not> isspace c) (drop ws s))
      in if t = [] then [] else Str t # sscanf fs (pos + ws + length t) (drop (ws + length t) s))"
| "sscanf (Skip_Text # fs) pos s =
     (let ws = length (takeWhile isspace s);
          t = takeWhile (\<lambda>c. \<not> isspace c) (drop ws s)
      in if t = [] then [] else sscanf fs (pos + ws + length t) (drop (ws + length t) s))"
| "sscanf (Skip_Not c # fs) pos s =
     (let t = takeWhile (\<lambda>x. x \<noteq> c) s
      in if t = [] then [] else sscanf fs (pos + length t) (drop (length t) s))"
| "sscanf (Pos # fs) pos s = At pos # sscanf fs pos s"

text \<open>The value \<open>sscanf\<close> returns: the conversions stored, which \<open>%n\<close> is not.\<close>

definition conversions :: "out list \<Rightarrow> nat" where
  "conversions os = length (filter (\<lambda>x. case x of At n \<Rightarrow> False | _ \<Rightarrow> True) os)"

section \<open>Lines\<close>

text \<open>\<open>getline\<close> until the end of the file: every line with its newline, the last one without if it has none.\<close>

function lines_of :: "string \<Rightarrow> string list" where
  "lines_of s =
     (if s = [] then []
      else (let l = takeWhile (\<lambda>c. c \<noteq> CHR 0x0A) s; r = drop (length l) s
            in if r = [] then [l] else (l @ [CHR 0x0A]) # lines_of (tl r)))"
  by pat_completeness auto
termination
  by (relation "measure length") (auto simp: neq_Nil_conv)

declare lines_of.simps [simp del]

lemma lines_of_Nil [simp]: "lines_of [] = []"
  by (simp add: lines_of.simps)

lemma lines_of_line:
  assumes "CHR 0x0A \<notin> set l"
  shows "lines_of (l @ CHR 0x0A # r) = (l @ [CHR 0x0A]) # lines_of r"
proof -
  have "takeWhile (\<lambda>c. c \<noteq> CHR 0x0A) (l @ CHR 0x0A # r) = l"
    using assms by (subst takeWhile_append2) auto
  then show ?thesis by (subst lines_of.simps) (simp add: Let_def)
qed

lemma lines_of_concat:
  "\<forall>l \<in> set ls. CHR 0x0A \<notin> set l \<Longrightarrow>
   lines_of (concat (map (\<lambda>l. l @ [CHR 0x0A]) ls)) = map (\<lambda>l. l @ [CHR 0x0A]) ls"
  by (induction ls) (auto simp: lines_of_line)

section \<open>Numbers that were printed\<close>

lemma digit_val_hex: "d < 16 \<Longrightarrow> digit_val (hex_digit d) = Some d"
  by (auto simp: digit_val_def hex_digit_def Let_def of_char_of)

lemma num_of_append: "num_of base (ds @ es) = num_of base ds * base ^ length es + num_of base es"
proof (induction es rule: rev_induct)
  case (snoc e es)
  have snoc_eq: "num_of base (xs @ [e]) = num_of base xs * base + the (digit_val e)" for xs
    by (simp add: num_of_def)
  show ?case
    unfolding append_assoc [symmetric] snoc_eq snoc.IH by (simp add: algebra_simps)
qed (simp add: num_of_def)

lemma num_of_snoc: "num_of base (ds @ [c]) = num_of base ds * base + the (digit_val c)"
  by (simp add: num_of_def)

lemma show_hex_digits: "c \<in> set (show_hex n) \<Longrightarrow> is_digit 16 c"
proof (induction n rule: show_hex.induct)
  case (1 n)
  then show ?case
    by (subst (asm) (2) show_hex.simps)
      (auto simp: is_digit_def digit_val_hex split: if_splits)
qed

lemma num_of_show_hex: "num_of 16 (show_hex n) = n"
proof (induction n rule: show_hex.induct)
  case (1 n)
  show ?case
  proof (cases "n < 16")
    case True
    then show ?thesis by (subst show_hex.simps) (simp add: num_of_def digit_val_hex)
  next
    case False
    with 1 show ?thesis by (subst show_hex.simps) (simp add: num_of_snoc digit_val_hex)
  qed
qed

lemma digit_val_dec: "d < 10 \<Longrightarrow> digit_val (char_of (48 + d :: nat)) = Some d"
  by (simp add: digit_val_def Let_def of_char_of)

lemma show_nat_is_digit: "c \<in> set (show_nat n) \<Longrightarrow> is_digit 10 c"
  using show_nat_digits [of c n] by (auto simp: is_digit_def digit_val_def Let_def)

lemma num_of_show_nat: "num_of 10 (show_nat n) = n"
proof (induction n rule: show_nat.induct)
  case (1 n)
  show ?case
  proof (cases "n < 10")
    case True
    then show ?thesis by (subst show_nat.simps) (simp add: num_of_def digit_val_dec)
  next
    case False
    with 1 show ?thesis by (subst show_nat.simps) (simp add: num_of_snoc digit_val_dec)
  qed
qed

lemma digit_not_special: "is_digit base c \<Longrightarrow> base \<le> 16 \<Longrightarrow> \<not> isspace c \<and> c \<noteq> CHR ''-'' \<and> c \<noteq> CHR ''+'' \<and> c \<noteq> CHR ''x'' \<and> c \<noteq> CHR ''X''"
  by (auto simp: is_digit_def digit_val_def isspace_def Let_def split: option.splits if_splits)

text \<open>Digits with a character behind them that is none are read whole.\<close>

lemma scan_uint_digits:
  assumes "ds \<noteq> []" and "\<forall>c \<in> set ds. is_digit base c" and "base \<le> 16" and "num_of base ds < 2 ^ 64"
    and "rest = [] \<or> \<not> is_digit base (hd rest)" and "rest \<noteq> [] \<longrightarrow> hd rest \<notin> {CHR ''x'', CHR ''X''}"
  shows "scan_uint base (ds @ rest) = Some (num_of base ds, length ds)"
proof -
  obtain c cs where ds: "ds = c # cs" using assms(1) by (cases ds) auto
  have c: "\<not> isspace c" "c \<noteq> CHR ''-''" "c \<noteq> CHR ''+''"
    using digit_not_special [of base c] assms(2,3) ds by auto
  have x: "(ds @ rest) ! 1 \<notin> {CHR ''x'', CHR ''X''}" if "length (ds @ rest) \<ge> 3"
  proof (cases cs)
    case Nil
    with ds that assms(6) show ?thesis by (cases rest) auto
  next
    case (Cons d cs')
    with ds assms(2,3) digit_not_special [of base d] show ?thesis by auto
  qed
  have tw: "takeWhile (is_digit base) (ds @ rest) = ds"
    using assms(2,5) by (cases rest) (auto simp: takeWhile_append2)
  show ?thesis
    using c x tw assms(4) ds unfolding scan_uint_def Let_def by auto
qed

lemma scan_uint_hex:
  assumes "n < 2 ^ 64" and "rest = [] \<or> \<not> is_digit 16 (hd rest)"
    and "rest \<noteq> [] \<longrightarrow> hd rest \<notin> {CHR ''x'', CHR ''X''}"
  shows "scan_uint 16 (replicate k (CHR ''0'') @ show_hex n @ rest) =
    Some (n, k + length (show_hex n))"
proof -
  have z: "num_of 16 (replicate k (CHR ''0'')) = 0"
    by (induction k) (simp_all add: num_of_def digit_val_def Let_def)
  have zd: "is_digit 16 (CHR ''0'')" by (simp add: is_digit_def digit_val_def Let_def)
  have ne: "show_hex n \<noteq> []" by (subst show_hex.simps) simp
  have v: "num_of 16 (replicate k (CHR ''0'') @ show_hex n) = n"
    by (simp add: num_of_append z num_of_show_hex)
  have "\<forall>c \<in> set (replicate k (CHR ''0'') @ show_hex n). is_digit 16 c"
    using zd show_hex_digits [of _ n] by auto
  from scan_uint_digits [OF _ this _ _ assms(2,3)] ne assms(1) show ?thesis by (simp add: v)
qed

lemma scan_uint_dec:
  assumes "n < 2 ^ 64" and "rest = [] \<or> \<not> is_digit 10 (hd rest)"
    and "rest \<noteq> [] \<longrightarrow> hd rest \<notin> {CHR ''x'', CHR ''X''}"
  shows "scan_uint 10 (show_nat n @ rest) = Some (n, length (show_nat n))"
  using scan_uint_digits [of "show_nat n" 10 rest] assms show_nat_is_digit by (simp add: num_of_show_nat)

end
