(* ===== verification/Proc_Maps.thy ===== *)
theory Proc_Maps
  imports Scanf
begin

text \<open>
  \<open>/proc/<pid>/maps\<close> and the look-ups in it: \<open>MapInfo::Scan\<close>, \<open>get_addr_mem_region\<close>,
  \<open>find_module_return_addr\<close>, \<open>find_module_base\<close> and \<open>find_func_addr\<close> of \<open>loader/src/ptracer/utils.cpp\<close>.
\<close>

unbundle bit_operations_syntax

section \<open>Memory regions\<close>

record map_info =
  mi_start :: u64
  mi_end :: u64
  mi_perms :: u8
  mi_private :: bool
  mi_offset :: u64
  mi_dev :: u64
  mi_inode :: u64
  mi_path :: string

abbreviation (input) PROT_READ :: u8 where "PROT_READ \<equiv> 1"
abbreviation (input) PROT_WRITE :: u8 where "PROT_WRITE \<equiv> 2"
abbreviation (input) PROT_EXEC :: u8 where "PROT_EXEC \<equiv> 4"

text \<open>Bionic's \<open>makedev\<close>.\<close>

definition makedev :: "u64 \<Rightarrow> u64 \<Rightarrow> u64" where
  "makedev ma mi =
     push_bit 32 (ma AND 0xfffff000) OR push_bit 8 (ma AND 0xfff) OR
     push_bit 12 (mi AND 0xffffff00) OR (mi AND 0xff)"

text \<open>\<open>"%lx-%lx %4s %lx %x:%x %lu %n%*s"\<close>\<close>

definition map_format :: "directive list" where
  "map_format = [Uint 16, Lit (CHR ''-''), Uint 16, Ws, Text 4, Ws, Uint 16, Ws, Uint 16, Lit (CHR '':''),
                 Uint 16, Ws, Uint 10, Ws, Pos, Skip_Text]"

definition perm_at :: "string \<Rightarrow> nat \<Rightarrow> char" where
  "perm_at perm i = (if i < length perm then perm ! i else NUL)"

definition perm_bits :: "string \<Rightarrow> u8" where
  "perm_bits perm =
     (if perm_at perm 0 = CHR ''r'' then PROT_READ else 0) OR
     (if perm_at perm 1 = CHR ''w'' then PROT_WRITE else 0) OR
     (if perm_at perm 2 = CHR ''x'' then PROT_EXEC else 0)"

text \<open>One line as \<open>getline\<close> gives it; its last character is overwritten with a NUL.  \<open>unsigned int\<close> fields
  keep 32 bits.\<close>

definition scan_map_line :: "string \<Rightarrow> map_info option" where
  "scan_map_line l =
     (let line = butlast l in
      case sscanf map_format 0 (c_str line) of
        [Num start, Num end, Str perm, Num off, Num dev_major, Num dev_minor, Num inode, At path_off] \<Rightarrow>
          (let k = path_off + length (takeWhile isspace (drop path_off (c_str line)))
           in Some \<lparr>mi_start = word_of_nat start, mi_end = word_of_nat end, mi_perms = perm_bits perm,
                    mi_private = (perm_at perm 3 = CHR ''p''), mi_offset = word_of_nat off,
                    mi_dev = makedev (word_of_nat (dev_major mod 2 ^ 32)) (word_of_nat (dev_minor mod 2 ^ 32)),
                    mi_inode = word_of_nat inode, mi_path = c_str (drop k line)\<rparr>)
      | _ \<Rightarrow> None)"

definition MapInfo_Scan :: "string option \<Rightarrow> map_info list" where
  "MapInfo_Scan maps = (case maps of None \<Rightarrow> [] | Some content \<Rightarrow> List.map_filter scan_map_line (lines_of content))"

section \<open>Look-ups\<close>

definition get_addr_mem_region :: "map_info list \<Rightarrow> u64 \<Rightarrow> string" where
  "get_addr_mem_region info addr =
     (case find (\<lambda>m. mi_start m \<le> addr \<and> mi_end m > addr) info of
        None \<Rightarrow> ''<unknown>''
      | Some m \<Rightarrow> mi_path m @ '' '' @
          (if mi_perms m AND PROT_READ \<noteq> 0 then ''r'' else ''-'') @
          (if mi_perms m AND PROT_WRITE \<noteq> 0 then ''w'' else ''-'') @
          (if mi_perms m AND PROT_EXEC \<noteq> 0 then ''x'' else ''-''))"

definition find_module_return_addr :: "map_info list \<Rightarrow> string \<Rightarrow> u64" where
  "find_module_return_addr info sfx =
     (case find (\<lambda>m. mi_perms m AND PROT_EXEC = 0 \<and> ends_with (mi_path m) sfx) info of
        None \<Rightarrow> 0 | Some m \<Rightarrow> mi_start m)"

definition find_module_base :: "map_info list \<Rightarrow> string \<Rightarrow> u64" where
  "find_module_base info sfx =
     (case find (\<lambda>m. mi_offset m = 0 \<and> ends_with (mi_path m) sfx) info of
        None \<Rightarrow> 0 | Some m \<Rightarrow> mi_start m)"

text \<open>\<open>dlopen\<close> and \<open>dlsym\<close> are the parameters \<open>dl\<close>: for a library that opens, its symbols.\<close>

definition find_func_addr ::
  "(string \<Rightarrow> (string \<Rightarrow> u64) option) \<Rightarrow> map_info list \<Rightarrow> map_info list \<Rightarrow> string \<Rightarrow> string \<Rightarrow> u64" where
  "find_func_addr dl local_info remote_info module func =
     (case dl module of
        None \<Rightarrow> 0
      | Some syms \<Rightarrow>
          (let sym = syms func; local_base = find_module_base local_info module;
               remote_base = find_module_base remote_info module
           in if sym = 0 then 0 else if local_base = 0 then 0 else if remote_base = 0 then 0
              else (sym - local_base) + remote_base))"

section \<open>The kernel's text of a region\<close>

record kmap =
  km_start :: nat
  km_end :: nat
  km_r :: bool
  km_w :: bool
  km_x :: bool
  km_p :: bool
  km_off :: nat
  km_major :: nat
  km_minor :: nat
  km_inode :: nat
  km_pad :: nat
  km_path :: string

definition pad_hex :: "nat \<Rightarrow> nat \<Rightarrow> string" where
  "pad_hex w n = replicate (w - length (show_hex n)) (CHR ''0'') @ show_hex n"

definition kperm :: "kmap \<Rightarrow> string" where
  "kperm k = [if km_r k then CHR ''r'' else CHR ''-'', if km_w k then CHR ''w'' else CHR ''-'',
              if km_x k then CHR ''x'' else CHR ''-'', if km_p k then CHR ''p'' else CHR ''s'']"

definition kline :: "kmap \<Rightarrow> string" where
  "kline k =
     pad_hex 8 (km_start k) @ ''-'' @ pad_hex 8 (km_end k) @ '' '' @ kperm k @ '' '' @
     pad_hex 8 (km_off k) @ '' '' @ pad_hex 2 (km_major k) @ '':'' @ pad_hex 2 (km_minor k) @ '' '' @
     show_nat (km_inode k) @ '' '' @ replicate (km_pad k) (CHR '' '') @ km_path k"

definition kmap_ok :: "kmap \<Rightarrow> bool" where
  "kmap_ok k \<longleftrightarrow> km_start k < 2 ^ 64 \<and> km_end k < 2 ^ 64 \<and> km_off k < 2 ^ 64 \<and> km_major k < 2 ^ 32 \<and>
     km_minor k < 2 ^ 32 \<and> km_inode k < 2 ^ 64 \<and>
     CHR 0x0A \<notin> set (km_path k) \<and> NUL \<notin> set (km_path k) \<and> (km_path k \<noteq> [] \<longrightarrow> \<not> isspace (hd (km_path k)))"

definition kmap_info :: "kmap \<Rightarrow> map_info" where
  "kmap_info k =
     \<lparr>mi_start = word_of_nat (km_start k), mi_end = word_of_nat (km_end k),
      mi_perms = (if km_r k then PROT_READ else 0) OR (if km_w k then PROT_WRITE else 0) OR
                 (if km_x k then PROT_EXEC else 0),
      mi_private = km_p k, mi_offset = word_of_nat (km_off k),
      mi_dev = makedev (word_of_nat (km_major k)) (word_of_nat (km_minor k)),
      mi_inode = word_of_nat (km_inode k), mi_path = km_path k\<rparr>"

section \<open>Reading the kernel's lines\<close>

lemma sscanf_hex:
  assumes "n < 2 ^ 64" and "r = [] \<or> \<not> is_digit 16 (hd r)" and "r \<noteq> [] \<longrightarrow> hd r \<notin> {CHR ''x'', CHR ''X''}"
  shows "sscanf (Uint 16 # fs) pos (pad_hex w n @ r) = Num n # sscanf fs (pos + length (pad_hex w n)) r"
  using scan_uint_hex [OF assms, of "w - length (show_hex n)"] by (simp add: pad_hex_def)

lemma sscanf_dec:
  assumes "n < 2 ^ 64" and "r = [] \<or> \<not> is_digit 10 (hd r)" and "r \<noteq> [] \<longrightarrow> hd r \<notin> {CHR ''x'', CHR ''X''}"
  shows "sscanf (Uint 10 # fs) pos (show_nat n @ r) = Num n # sscanf fs (pos + length (show_nat n)) r"
  using scan_uint_dec [OF assms] by simp

lemma pad_hex_nonspace: "c \<in> set (pad_hex w n) \<Longrightarrow> \<not> isspace c"
  using show_hex_digits [of c n] digit_not_special [of 16 c]
  by (auto simp: pad_hex_def isspace_def)

lemma show_nat_nonspace: "c \<in> set (show_nat n) \<Longrightarrow> \<not> isspace c"
  using show_nat_is_digit [of c n] digit_not_special [of 10 c] by simp

lemma pad_hex_nonempty [simp]: "pad_hex w n \<noteq> []"
  unfolding pad_hex_def by (subst (2) show_hex.simps) simp

lemma sscanf_ws: "t \<noteq> [] \<Longrightarrow> \<not> isspace (hd t) \<Longrightarrow> sscanf (Ws # fs) pos (CHR '' '' # t) = sscanf fs (Suc pos) t"
  by (cases t) (simp_all add: isspace_def)

lemma sscanf_perm:
  "sscanf (Text 4 # fs) pos (kperm k @ CHR '' '' # r) = Str (kperm k) # sscanf fs (pos + 4) (CHR '' '' # r)"
  by (simp add: kperm_def isspace_def Let_def numeral_eq_Suc)

lemma hd_kperm: "kperm k \<noteq> []" "\<not> isspace (hd (kperm k))"
  by (simp_all add: kperm_def isspace_def)

lemma takeWhile_replicate_space:
  "t = [] \<or> \<not> isspace (hd t) \<Longrightarrow> takeWhile isspace (replicate n (CHR '' '') @ t) = replicate n (CHR '' '')"
  by (induction n) (cases t, auto simp: isspace_def)

lemma sscanf_path:
  assumes "t = [] \<or> \<not> isspace (hd t)"
  shows "sscanf [Ws, Pos, Skip_Text] pos (CHR '' '' # replicate n (CHR '' '') @ t) = [At (pos + Suc n)]"
proof -
  have tw: "takeWhile isspace (CHR '' '' # replicate n (CHR '' '') @ t) = replicate (Suc n) (CHR '' '')"
    using takeWhile_replicate_space [OF assms, of "Suc n"] by simp
  have d: "drop (Suc n) (CHR '' '' # replicate n (CHR '' '') @ t) = t" by simp
  show ?thesis
    unfolding sscanf.simps(3) tw length_replicate Let_def d by (simp add: Let_def)
qed

lemma hd_pad_hex: "\<not> isspace (hd (pad_hex w n))"
  using pad_hex_nonspace [of "hd (pad_hex w n)" w n] by simp

lemma hd_show_nat: "\<not> isspace (hd (show_nat n))"
  using show_nat_nonspace [of "hd (show_nat n)" n] by simp

lemma separators: "\<not> is_digit 16 (CHR ''-'')" "\<not> is_digit 16 (CHR '' '')" "\<not> is_digit 16 (CHR '':'')"
  "\<not> is_digit 10 (CHR '' '')"
  by (simp_all add: is_digit_def digit_val_def Let_def)

text \<open>The line without the blanks and the path at its end.\<close>

lemma sscanf_kline:
  assumes "kmap_ok k"
  shows "sscanf map_format 0 (kline k) =
    [Num (km_start k), Num (km_end k), Str (kperm k), Num (km_off k), Num (km_major k), Num (km_minor k),
     Num (km_inode k), At (length (kline k) - length (km_path k))]"
proof -
  have b: "km_start k < 2 ^ 64" "km_end k < 2 ^ 64" "km_off k < 2 ^ 64" "km_major k < 2 ^ 64"
    "km_minor k < 2 ^ 64" "km_inode k < 2 ^ 64"
    using assms by (auto simp: kmap_ok_def)
  have p: "km_path k = [] \<or> \<not> isspace (hd (km_path k))" using assms by (auto simp: kmap_ok_def)
  let ?t = "replicate (km_pad k) (CHR '' '') @ km_path k"
  have "sscanf map_format 0 (kline k) =
      [Num (km_start k), Num (km_end k), Str (kperm k), Num (km_off k), Num (km_major k), Num (km_minor k),
       Num (km_inode k), At (length (pad_hex 8 (km_start k)) + 1 + length (pad_hex 8 (km_end k)) + 1 + 4 + 1 +
         length (pad_hex 8 (km_off k)) + 1 + length (pad_hex 2 (km_major k)) + 1 +
         length (pad_hex 2 (km_minor k)) + 1 + length (show_nat (km_inode k)) + Suc (km_pad k))]"
    unfolding map_format_def kline_def
    by (simp add: sscanf_hex sscanf_dec sscanf_ws sscanf_perm sscanf_path [OF p]
        b [simplified] separators hd_pad_hex hd_show_nat hd_kperm
        del: sscanf.simps(3) sscanf.simps(4) sscanf.simps(5))
  moreover have "length (kline k) - length (km_path k) =
      length (pad_hex 8 (km_start k)) + 1 + length (pad_hex 8 (km_end k)) + 1 + 4 + 1 +
         length (pad_hex 8 (km_off k)) + 1 + length (pad_hex 2 (km_major k)) + 1 +
         length (pad_hex 2 (km_minor k)) + 1 + length (show_nat (km_inode k)) + Suc (km_pad k)"
    by (simp add: kline_def kperm_def)
  ultimately show ?thesis by simp
qed

lemma kline_chars:
  assumes "kmap_ok k"
  shows "CHR 0x0A \<notin> set (kline k)" and "NUL \<notin> set (kline k)"
proof -
  have h: "c \<notin> set (pad_hex w n)" if "c = CHR 0x0A \<or> c = NUL" for c w n
    using that show_hex_digits [of c n]
    by (auto simp: pad_hex_def is_digit_def digit_val_def Let_def)
  have d: "c \<notin> set (show_nat n)" if "c = CHR 0x0A \<or> c = NUL" for c n
    using that show_nat_digits [of c n] by auto
  show "CHR 0x0A \<notin> set (kline k)" "NUL \<notin> set (kline k)"
    using assms h d by (auto simp: kline_def kperm_def kmap_ok_def)
qed

lemma perm_bits_kperm: "perm_bits (kperm k) = mi_perms (kmap_info k)" "perm_at (kperm k) 3 = CHR ''p'' \<longleftrightarrow> km_p k"
  by (simp_all add: perm_bits_def perm_at_def kperm_def kmap_info_def)

lemma kline_path: "drop (length (kline k) - length (km_path k)) (kline k) = km_path k"
proof -
  have "\<exists>pre. kline k = pre @ km_path k" by (simp only: kline_def append_assoc [symmetric]) blast
  then show ?thesis by auto
qed

lemma scan_kline: "kmap_ok k \<Longrightarrow> scan_map_line (kline k @ [CHR 0x0A]) = Some (kmap_info k)"
proof -
  assume ok: "kmap_ok k"
  have c: "c_str (kline k) = kline k" by (rule c_str_no_nul [OF kline_chars(2) [OF ok]])
  have p: "c_str (km_path k) = km_path k" using ok by (simp add: kmap_ok_def c_str_no_nul)
  have tw: "takeWhile isspace (km_path k) = []"
    using ok by (cases "km_path k") (auto simp: kmap_ok_def)
  have m: "km_major k mod 2 ^ 32 = km_major k" "km_minor k mod 2 ^ 32 = km_minor k"
    using ok by (simp_all add: kmap_ok_def)
  have "scan_map_line (kline k @ [CHR 0x0A]) =
      Some \<lparr>mi_start = word_of_nat (km_start k), mi_end = word_of_nat (km_end k),
        mi_perms = perm_bits (kperm k), mi_private = (perm_at (kperm k) 3 = CHR ''p''),
        mi_offset = word_of_nat (km_off k),
        mi_dev = makedev (word_of_nat (km_major k mod 2 ^ 32)) (word_of_nat (km_minor k mod 2 ^ 32)),
        mi_inode = word_of_nat (km_inode k), mi_path = c_str (km_path k)\<rparr>"
    unfolding scan_map_line_def by (simp add: Let_def c sscanf_kline [OF ok] kline_path tw)
  then show ?thesis unfolding perm_bits_kperm m p by (simp add: kmap_info_def)
qed

section \<open>Properties\<close>

lemma map_filter_Some: "(\<And>x. x \<in> set xs \<Longrightarrow> f (g x) = Some (h x)) \<Longrightarrow> List.map_filter f (map g xs) = map h xs"
  by (induction xs) (simp_all add: map_filter_simps)

text \<open>C23: \<open>MapInfo::Scan\<close> reads the maps file as the kernel writes it: every region, in order, with its bounds,
  permissions, offset, device, inode and path.\<close>

theorem MapInfo_Scan_roundtrip:
  assumes "list_all kmap_ok ks"
  shows "MapInfo_Scan (Some (concat (map (\<lambda>k. kline k @ [CHR 0x0A]) ks))) = map kmap_info ks"
proof -
  have ok: "kmap_ok k" if "k \<in> set ks" for k using assms that by (simp add: list_all_iff)
  have "lines_of (concat (map (\<lambda>l. l @ [CHR 0x0A]) (map kline ks))) = map (\<lambda>l. l @ [CHR 0x0A]) (map kline ks)"
    by (rule lines_of_concat) (use ok kline_chars(1) in auto)
  then have "lines_of (concat (map (\<lambda>k. kline k @ [CHR 0x0A]) ks)) = map (\<lambda>k. kline k @ [CHR 0x0A]) ks"
    by (simp add: comp_def)
  then show ?thesis
    using map_filter_Some [of ks scan_map_line "\<lambda>k. kline k @ [CHR 0x0A]" kmap_info] ok scan_kline
    by (simp add: MapInfo_Scan_def)
qed

theorem MapInfo_Scan_roundtrip_witness:
  "MapInfo_Scan (Some (concat (map (\<lambda>k. kline k @ [CHR 0x0A])
     [\<lparr>km_start = 0x7000, km_end = 0x8000, km_r = True, km_w = False, km_x = True, km_p = True, km_off = 0,
       km_major = 253, km_minor = 1, km_inode = 42, km_pad = 3, km_path = ''/system/lib64/libc.so''\<rparr>]))) =
   map kmap_info
     [\<lparr>km_start = 0x7000, km_end = 0x8000, km_r = True, km_w = False, km_x = True, km_p = True, km_off = 0,
       km_major = 253, km_minor = 1, km_inode = 42, km_pad = 3, km_path = ''/system/lib64/libc.so''\<rparr>]"
  by (rule MapInfo_Scan_roundtrip) (simp add: kmap_ok_def isspace_def)

lemma find_module_base_hit:
  assumes "find_module_base info sfx = b" and "b \<noteq> 0"
  shows "\<exists>m \<in> set info. mi_start m = b \<and> mi_offset m = 0 \<and> ends_with (mi_path m) sfx"
  using assms by (auto simp: find_module_base_def find_Some_iff split: option.splits)

text \<open>\<open>find_func_addr\<close> moves a symbol from the local copy of a library to the remote one: the result is as
  far from the start of the first mapping of that library in the target, at file offset 0, as the symbol is
  from the start of its mapping here.\<close>

lemma find_func_addr_translates:
  assumes "find_func_addr dl local_info remote_info module func = a" and "a \<noteq> 0"
  shows "\<exists>syms ml mr. dl module = Some syms \<and> ml \<in> set local_info \<and> mr \<in> set remote_info \<and>
    ends_with (mi_path ml) module \<and> ends_with (mi_path mr) module \<and> mi_offset ml = 0 \<and> mi_offset mr = 0 \<and>
    a - mi_start mr = syms func - mi_start ml"
proof -
  let ?lb = "find_module_base local_info module" and ?rb = "find_module_base remote_info module"
  obtain syms where s: "dl module = Some syms" and nz: "?lb \<noteq> 0" "?rb \<noteq> 0"
    and a: "a = (syms func - ?lb) + ?rb"
    using assms by (auto simp: find_func_addr_def Let_def split: option.splits if_splits)
  obtain ml mr where "ml \<in> set local_info" "mi_start ml = ?lb" "mi_offset ml = 0" "ends_with (mi_path ml) module"
    "mr \<in> set remote_info" "mi_start mr = ?rb" "mi_offset mr = 0" "ends_with (mi_path mr) module"
    using find_module_base_hit [OF refl nz(1)] find_module_base_hit [OF refl nz(2)] by blast
  with s a show ?thesis by (metis add_diff_cancel_right')
qed

lemma find_func_addr_translates_witness:
  "find_func_addr (\<lambda>_. Some (\<lambda>_. 0x1234))
     [kmap_info \<lparr>km_start = 0x1000, km_end = 0x8000, km_r = True, km_w = False, km_x = True, km_p = True, km_off = 0,
       km_major = 253, km_minor = 1, km_inode = 42, km_pad = 3, km_path = ''/a/libdl.so''\<rparr>]
     [kmap_info \<lparr>km_start = 0x7000, km_end = 0x8000, km_r = True, km_w = False, km_x = True, km_p = True, km_off = 0,
       km_major = 253, km_minor = 1, km_inode = 42, km_pad = 3, km_path = ''/a/libdl.so''\<rparr>]
     ''libdl.so'' ''dlopen'' = 0x7234"
    (is "find_func_addr ?dl ?l ?r _ _ = _")
proof -
  have nz: "find_func_addr ?dl ?l ?r ''libdl.so'' ''dlopen'' \<noteq> 0"
    by (simp add: find_func_addr_def find_module_base_def kmap_info_def ends_with_def suffix_def)
  from find_func_addr_translates [OF refl nz] show ?thesis
    by (auto simp: kmap_info_def diff_eq_eq)
qed

end
