(* ===== verification/Tracee.thy ===== *)
theory Tracee
  imports Proc_Maps Wait_Status
begin

text \<open>
  The traced process as the tracer sees it, and the primitives of \<open>loader/src/ptracer/utils.cpp\<close> on it:
  \<open>read_proc\<close>, \<open>write_proc\<close>, \<open>get_regs\<close>, \<open>set_regs\<close>, \<open>wait_for_trace\<close>, \<open>align_stack\<close>, \<open>push_string\<close> and
  \<open>remote_call\<close>, for the two 64-bit architectures.

  What the process does between a continue and its next stop is a function of its registers and memory, the
  next one of \<open>t_runs\<close>; an exhausted list is a process that is gone.  Every continue is logged with the
  registers and the memory it starts from.
\<close>

section \<open>State\<close>

datatype arch = X86_64 | AArch64

text \<open>\<open>r_arg\<close> are the argument registers in order: \<open>rdi, rsi, rdx, rcx, r8, r9\<close> or \<open>x0\<close> to \<open>x7\<close>.\<close>

record user_regs =
  r_sp :: u64
  r_ip :: u64
  r_arg :: "nat \<Rightarrow> u64"
  r_lr :: u64
  r_ax :: u64

type_synonym memory = "u64 \<Rightarrow> char option"

datatype wret = W_Eintr | W_Error | W_Status u32

datatype tev =
    Tev_Cont user_regs memory
  | Tev_Detach u32
  | Tev_Kill u32

record tracee =
  t_mem :: memory
  t_regs :: user_regs
  t_runs :: "(user_regs \<times> memory \<Rightarrow> wret list \<times> user_regs \<times> memory) list"
  t_ok :: "bool list"          \<comment> \<open>whether the next calls of \<open>ptrace\<close> and \<open>kill\<close> succeed; no more: they do\<close>
  t_log :: "tev list"

definition REG_RET :: "arch \<Rightarrow> user_regs \<Rightarrow> u64" where
  "REG_RET a r = (case a of X86_64 \<Rightarrow> r_ax r | AArch64 \<Rightarrow> r_arg r 0)"

definition next_ok :: "tracee \<Rightarrow> bool \<times> tracee" where
  "next_ok t = (case t_ok t of [] \<Rightarrow> (True, t) | b # bs \<Rightarrow> (b, t\<lparr>t_ok := bs\<rparr>))"

definition tlog :: "tev \<Rightarrow> tracee \<Rightarrow> tracee" where
  "tlog e t = t\<lparr>t_log := t_log t @ [e]\<rparr>"

section \<open>Memory\<close>

fun read_bytes :: "memory \<Rightarrow> u64 \<Rightarrow> nat \<Rightarrow> string" where
  "read_bytes m a 0 = []"
| "read_bytes m a (Suc n) = (case m a of None \<Rightarrow> [] | Some c \<Rightarrow> c # read_bytes m (a + 1) n)"

fun write_bytes :: "memory \<Rightarrow> u64 \<Rightarrow> string \<Rightarrow> memory \<times> nat" where
  "write_bytes m a [] = (m, 0)"
| "write_bytes m a (c # cs) =
     (if m a = None then (m, 0)
      else (case write_bytes (m(a := Some c)) (a + 1) cs of (m', k) \<Rightarrow> (m', Suc k)))"

text \<open>\<open>process_vm_readv\<close> and \<open>process_vm_writev\<close> transfer up to the first byte that is not mapped, and fail if that
  is the first one.\<close>

definition read_proc :: "u64 \<Rightarrow> nat \<Rightarrow> memory \<Rightarrow> int \<times> string" where
  "read_proc addr len m =
     (let b = read_bytes m addr len
      in (if b = [] \<and> len > 0 then -1 else int (length b), b))"

definition write_proc :: "u64 \<Rightarrow> string \<Rightarrow> tracee \<Rightarrow> int \<times> tracee" where
  "write_proc addr buf t =
     (case write_bytes (t_mem t) addr buf of (m, k) \<Rightarrow>
        (if k = 0 \<and> buf \<noteq> [] then -1 else int k, t\<lparr>t_mem := m\<rparr>))"

text \<open>A read into a local variable whose result is not looked at: what was not read stays uninitialised.\<close>

definition read_u32_at :: "u64 \<Rightarrow> memory \<Rightarrow> u32 res" where
  "read_u32_at addr m =
     (case read_proc addr 4 m of (l, b) \<Rightarrow> if l = 4 then Inr (dec_word b) else Inl Uninit_Read)"

definition read_u64_at :: "u64 \<Rightarrow> memory \<Rightarrow> u64 res" where
  "read_u64_at addr m =
     (case read_proc addr 8 m of (l, b) \<Rightarrow> if l = 8 then Inr (dec_word b) else Inl Uninit_Read)"

section \<open>Registers and stops\<close>

definition get_regs :: "tracee \<Rightarrow> user_regs option \<times> tracee" where
  "get_regs t = (case next_ok t of (ok, t1) \<Rightarrow> (if ok then Some (t_regs t1) else None, t1))"

definition set_regs :: "user_regs \<Rightarrow> tracee \<Rightarrow> bool \<times> tracee" where
  "set_regs r t = (case next_ok t of (ok, t1) \<Rightarrow> (ok, if ok then t1\<lparr>t_regs := r\<rparr> else t1))"

fun wait_for_trace :: "wret list \<Rightarrow> u32 res" where
  "wait_for_trace [] = Inl (Exit_Process 1)"
| "wait_for_trace (W_Eintr # ws) = wait_for_trace ws"
| "wait_for_trace (W_Error # ws) = Inl (Exit_Process 1)"
| "wait_for_trace (W_Status s # ws) = (if WIFSTOPPED s then Inr s else Inl (Exit_Process 1))"

definition run_to_stop :: "tracee \<Rightarrow> (u32 \<times> tracee) res" where
  "run_to_stop t =
     (case t_runs t of
        [] \<Rightarrow> Inl (Exit_Process 1)
      | f # fs \<Rightarrow>
          (case f (t_regs t, t_mem t) of (ws, r, m) \<Rightarrow>
             bind_r (wait_for_trace ws) (\<lambda>s. Inr (s, t\<lparr>t_regs := r, t_mem := m, t_runs := fs\<rparr>))))"

text \<open>\<open>ptrace(PTRACE_CONT, ...)\<close> followed by \<open>wait_for_trace\<close>.\<close>

definition cont_and_wait :: "tracee \<Rightarrow> (u32 \<times> tracee) res" where
  "cont_and_wait t = run_to_stop (tlog (Tev_Cont (t_regs t) (t_mem t)) t)"

section \<open>Calling a function in the process\<close>

definition align_stack :: "user_regs \<Rightarrow> u64 \<Rightarrow> user_regs" where
  "align_stack r preserve = r\<lparr>r_sp := (r_sp r - preserve) AND NOT 0xf\<rparr>"

text \<open>The result of \<open>write_proc\<close> is only compared with 0, and then only logged.\<close>

definition push_string :: "string \<Rightarrow> user_regs \<Rightarrow> tracee \<Rightarrow> u64 \<times> user_regs \<times> tracee" where
  "push_string str r t =
     (let len = length (c_str str) + 1;
          r1 = align_stack (r\<lparr>r_sp := r_sp r - word_of_nat len\<rparr>) 0;
          addr = r_sp r1
      in (addr, r1, snd (write_proc addr (c_str str @ [NUL]) t)))"

definition max_reg_args :: "arch \<Rightarrow> nat" where
  "max_reg_args a = (case a of X86_64 \<Rightarrow> 6 | AArch64 \<Rightarrow> 8)"

definition set_args :: "arch \<Rightarrow> u64 list \<Rightarrow> user_regs \<Rightarrow> user_regs" where
  "set_args a args r =
     r\<lparr>r_arg := (\<lambda>i. if i < length args \<and> i < max_reg_args a then args ! i else r_arg r i)\<rparr>"

text \<open>More arguments than registers: room for the rest is made on the stack, but the bytes written there are
  those of the first arguments (\<open>args.data()\<close>).\<close>

definition push_rest :: "arch \<Rightarrow> u64 list \<Rightarrow> user_regs \<Rightarrow> tracee \<Rightarrow> user_regs \<times> tracee" where
  "push_rest a args r t =
     (if length args > max_reg_args a
      then (let remain = (length args - max_reg_args a) * 8;
                r1 = align_stack r (word_of_nat remain)
            in (r1, snd (write_proc (r_sp r1) (take remain (concat (map enc_u64 args))) t)))
      else (r, t))"

definition setup_call :: "arch \<Rightarrow> u64 \<Rightarrow> u64 \<Rightarrow> u64 list \<Rightarrow> user_regs \<Rightarrow> tracee \<Rightarrow> user_regs \<times> tracee" where
  "setup_call a func_addr return_addr args r t =
     (case push_rest a args (set_args a args (align_stack r 0)) t of (r1, t1) \<Rightarrow>
        case a of
          X86_64 \<Rightarrow>
            (let r2 = r1\<lparr>r_sp := r_sp r1 - 8\<rparr>
             in (r2\<lparr>r_ip := func_addr\<rparr>, snd (write_proc (r_sp r2) (enc_u64 return_addr) t1)))
        | AArch64 \<Rightarrow> (r1\<lparr>r_lr := return_addr, r_ip := func_addr\<rparr>, t1))"

definition remote_call ::
  "arch \<Rightarrow> u64 \<Rightarrow> u64 \<Rightarrow> u64 list \<Rightarrow> user_regs \<Rightarrow> tracee \<Rightarrow> (u64 \<times> user_regs \<times> tracee) res" where
  "remote_call a func_addr return_addr args r t =
     (case setup_call a func_addr return_addr args r t of (r1, t1) \<Rightarrow>
      case set_regs r1 t1 of (ok, t2) \<Rightarrow>
        if \<not> ok then Inr (0, r1, t2)
        else
          bind_r (cont_and_wait t2) (\<lambda>(status, t3).
            case get_regs t3 of
              (None, t4) \<Rightarrow> Inr (0, r1, t4)
            | (Some r2, t4) \<Rightarrow>
                if WSTOPSIG status = SIGSEGV
                then if r_ip r2 \<noteq> return_addr then Inr (0, r2, t4) else Inr (REG_RET a r2, r2, t4)
                else Inr (0, r2, t4)))"

section \<open>Alignment\<close>

lemma and_not_mask: "w AND NOT (mask n) = push_bit n (drop_bit n (w :: u64))"
  by (rule bit_word_eqI) (auto simp: bit_simps)

lemma and_minus_16: "w AND - 16 = push_bit 4 (drop_bit 4 (w :: u64))"
proof -
  have "NOT (mask 4 :: u64) = - 16" by (simp add: mask_eq_exp_minus_1)
  with and_not_mask [of w 4] show ?thesis by simp
qed

lemma unat_aligned: "unat (w AND - 16 :: u64) = unat w - unat w mod 16"
proof -
  have "unat w div 16 * 16 \<le> unat w" by simp
  then have lt: "unat w div 16 * 16 < 2 ^ 64" using unat_less_pow [of w] by simp
  have "unat (drop_bit 4 w) = unat w div 16" by (simp add: unat_drop_bit_eq drop_bit_eq_div unat_div)
  then have "unat (push_bit 4 (drop_bit 4 w)) = take_bit 64 (unat w div 16 * 16)"
    by (simp only: unsigned_push_bit_eq) (simp add: push_bit_eq_mult)
  also have "\<dots> = unat w div 16 * 16"
    using lt by (simp add: take_bit_nat_eq_self)
  finally show ?thesis by (simp only: and_minus_16 minus_mod_eq_div_mult)
qed

lemma aligned_mod: "unat (w AND - 16 :: u64) mod 16 = 0"
  by (simp only: unat_aligned minus_mod_eq_div_mult) simp

lemma align_stack_mod: "unat (r_sp (align_stack r p)) mod 16 = 0"
  using aligned_mod [of "r_sp r - p"] by (simp add: align_stack_def)

section \<open>Transfers that go through\<close>

definition mapped :: "memory \<Rightarrow> u64 \<Rightarrow> nat \<Rightarrow> bool" where
  "mapped m a n \<longleftrightarrow> (\<forall>i < n. m (a + word_of_nat i) \<noteq> None)"

definition poke :: "memory \<Rightarrow> u64 \<Rightarrow> string \<Rightarrow> memory" where
  "poke m a bs = (\<lambda>x. if unat (x - a) < length bs then Some (bs ! unat (x - a)) else m x)"

lemma mapped_Suc: "mapped m a (Suc n) \<Longrightarrow> m a \<noteq> None \<and> mapped m (a + 1) n"
  unfolding mapped_def
proof
  assume H: "\<forall>i<Suc n. m (a + word_of_nat i) \<noteq> None"
  show "m a \<noteq> None" using H [rule_format, of 0] by simp
  show "\<forall>i<n. m (a + 1 + word_of_nat i) \<noteq> None"
    using H by (auto simp: add.assoc dest: spec [of _ "Suc _"])
qed

lemma mapped_upd: "mapped m a n \<Longrightarrow> mapped (m(b := Some c)) a n"
  by (simp add: mapped_def)

lemma unat_minus_1: "x \<noteq> (a :: u64) \<Longrightarrow> unat (x - (a + 1)) = unat (x - a) - 1"
proof -
  assume "x \<noteq> a"
  then have "x - a \<noteq> 0" by simp
  then have "unat (x - a - 1) = unat (x - a) - 1" by (rule unat_minus_one)
  then show ?thesis by (simp add: diff_diff_eq)
qed

lemma write_bytes_poke:
  "mapped m a (length bs) \<Longrightarrow> length bs < 2 ^ 64 \<Longrightarrow> write_bytes m a bs = (poke m a bs, length bs)"
proof (induction bs arbitrary: m a)
  case Nil
  show ?case by (simp add: poke_def)
next
  case (Cons c cs)
  have ma: "m a \<noteq> None" "mapped m (a + 1) (length cs)" using mapped_Suc Cons.prems(1) by auto
  have IH: "write_bytes (m(a := Some c)) (a + 1) cs = (poke (m(a := Some c)) (a + 1) cs, length cs)"
    using Cons.prems(2) by (intro Cons.IH mapped_upd ma) simp
  have far: "\<not> unat (a - (a + 1)) < length cs"
  proof -
    have "unat (a - (a + 1)) = 2 ^ 64 - 1" by (simp add: unsigned_minus_1_eq_mask mask_eq_exp_minus_1)
    then show ?thesis using Cons.prems(2) by simp
  qed
  have "poke (m(a := Some c)) (a + 1) cs x = poke m a (c # cs) x" for x
  proof (cases "x = a")
    case True
    then show ?thesis using far by (simp add: poke_def)
  next
    case False
    then have "unat (x - a) \<noteq> 0" by (simp add: unat_eq_zero)
    with False show ?thesis by (auto simp: poke_def unat_minus_1 nth_Cons' less_Suc_eq_0_disj)
  qed
  then show ?case using IH ma by auto
qed

lemma read_bytes_map:
  "(\<And>i. i < length bs \<Longrightarrow> m (a + word_of_nat i) = Some (bs ! i)) \<Longrightarrow> read_bytes m a (length bs) = bs"
proof (induction bs arbitrary: a)
  case (Cons c cs)
  have "m a = Some c" using Cons.prems [of 0] by simp
  moreover have "read_bytes m (a + 1) (length cs) = cs"
    using Cons.prems [of "Suc _"] by (intro Cons.IH) (simp add: add.assoc)
  ultimately show ?case by simp
qed simp

definition holds :: "memory \<Rightarrow> u64 \<Rightarrow> string \<Rightarrow> bool" where
  "holds m a bs \<longleftrightarrow> (\<forall>i < length bs. m (a + word_of_nat i) = Some (bs ! i))"

lemma holds_read: "holds m a bs \<Longrightarrow> read_bytes m a (length bs) = bs"
  by (rule read_bytes_map) (simp add: holds_def)

lemma holds_append: "holds m a (xs @ ys) \<longleftrightarrow> holds m a xs \<and> holds m (a + word_of_nat (length xs)) ys"
proof
  assume H: "holds m a (xs @ ys)"
  have "m (a + word_of_nat (length xs) + word_of_nat j) = Some (ys ! j)" if "j < length ys" for j
    using H [unfolded holds_def, rule_format, of "length xs + j"] that by (simp add: add.assoc)
  then show "holds m a xs \<and> holds m (a + word_of_nat (length xs)) ys"
    using H by (auto simp: holds_def nth_append)
next
  assume H: "holds m a xs \<and> holds m (a + word_of_nat (length xs)) ys"
  show "holds m a (xs @ ys)"
    unfolding holds_def
  proof (intro allI impI)
    fix i assume i: "i < length (xs @ ys)"
    show "m (a + word_of_nat i) = Some ((xs @ ys) ! i)"
    proof (cases "i < length xs")
      case True
      with H show ?thesis by (simp add: holds_def nth_append)
    next
      case False
      then obtain j where j: "i = length xs + j" by (metis le_Suc_ex not_less)
      with H i have "m (a + word_of_nat (length xs) + word_of_nat j) = Some (ys ! j)" by (simp add: holds_def)
      then show ?thesis using j by (simp add: nth_append add.assoc)
    qed
  qed
qed

lemma holds_poke: "length bs < 2 ^ 64 \<Longrightarrow> holds (poke m a bs) a bs"
  by (simp add: holds_def poke_def unat_of_nat take_bit_nat_eq_self)

lemma write_proc_mapped:
  "mapped (t_mem t) a (length bs) \<Longrightarrow> length bs < 2 ^ 64 \<Longrightarrow>
   write_proc a bs t = (int (length bs), t\<lparr>t_mem := poke (t_mem t) a bs\<rparr>)"
  by (simp add: write_proc_def write_bytes_poke)

lemma read_u64_holds: "holds m a (enc_u64 w) \<Longrightarrow> read_u64_at a m = Inr w"
proof -
  assume "holds m a (enc_u64 w)"
  then have "read_bytes m a 8 = enc_u64 w" using holds_read by fastforce
  moreover have "enc_u64 w \<noteq> []" by (metis length_enc(3) list.size(3) zero_neq_numeral)
  ultimately show ?thesis by (simp add: read_u64_at_def read_proc_def Let_def)
qed

lemma read_u32_holds: "holds m a (enc_u32 w) \<Longrightarrow> read_u32_at a m = Inr w"
proof -
  assume "holds m a (enc_u32 w)"
  then have "read_bytes m a 4 = enc_u32 w" using holds_read by fastforce
  moreover have "enc_u32 w \<noteq> []" by (metis length_enc(2) list.size(3) zero_neq_numeral)
  ultimately show ?thesis by (simp add: read_u32_at_def read_proc_def Let_def)
qed

section \<open>The calling convention\<close>

text \<open>What the platform ABIs ask for when a function starts.\<close>

definition call_frame :: "arch \<Rightarrow> u64 \<Rightarrow> u64 \<Rightarrow> u64 list \<Rightarrow> user_regs \<Rightarrow> memory \<Rightarrow> bool" where
  "call_frame a func_addr return_addr args r m \<longleftrightarrow>
     r_ip r = func_addr \<and> (\<forall>i < length args. r_arg r i = args ! i) \<and>
     (case a of
        X86_64 \<Rightarrow> unat (r_sp r + 8) mod 16 = 0 \<and> holds m (r_sp r) (enc_u64 return_addr)
      | AArch64 \<Rightarrow> unat (r_sp r) mod 16 = 0 \<and> r_lr r = return_addr)"

definition stack_room :: "arch \<Rightarrow> user_regs \<Rightarrow> memory \<Rightarrow> bool" where
  "stack_room a r m = (case a of X86_64 \<Rightarrow> mapped m ((r_sp r AND NOT 0xf) - 8) 8 | AArch64 \<Rightarrow> True)"

lemma setup_call_frame:
  assumes "length args \<le> max_reg_args a" and "stack_room a r (t_mem t)"
  obtains r1 m1 where "setup_call a func_addr return_addr args r t = (r1, t\<lparr>t_mem := m1\<rparr>)"
    "call_frame a func_addr return_addr args r1 m1"
proof -
  let ?r0 = "set_args a args (align_stack r 0)"
  have pr: "push_rest a args ?r0 t = (?r0, t)" using assms(1) by (simp add: push_rest_def)
  have sp: "r_sp ?r0 = r_sp r AND NOT 0xf" by (simp add: set_args_def align_stack_def)
  have ar: "\<forall>i < length args. r_arg ?r0 i = args ! i" using assms(1) by (simp add: set_args_def)
  have al: "unat (r_sp ?r0) mod 16 = 0" using align_stack_mod [of r 0] by (simp add: set_args_def)
  show thesis
  proof (cases a)
    case X86_64
    let ?sp = "r_sp ?r0 - 8"
    have "mapped (t_mem t) ?sp (length (enc_u64 return_addr))"
      using assms(2) X86_64 sp by (simp add: stack_room_def)
    then have w: "snd (write_proc ?sp (enc_u64 return_addr) t) = t\<lparr>t_mem := poke (t_mem t) ?sp (enc_u64 return_addr)\<rparr>"
      by (simp add: write_proc_mapped)
    show thesis
    proof (rule that)
      show "setup_call a func_addr return_addr args r t =
          (?r0\<lparr>r_sp := ?sp, r_ip := func_addr\<rparr>, t\<lparr>t_mem := poke (t_mem t) ?sp (enc_u64 return_addr)\<rparr>)"
        using X86_64 pr w by (simp add: setup_call_def Let_def)
      show "call_frame a func_addr return_addr args (?r0\<lparr>r_sp := ?sp, r_ip := func_addr\<rparr>)
          (poke (t_mem t) ?sp (enc_u64 return_addr))"
        using X86_64 ar al by (simp add: call_frame_def holds_poke)
    qed
  next
    case AArch64
    show thesis
      by (rule that [of "?r0\<lparr>r_lr := return_addr, r_ip := func_addr\<rparr>" "t_mem t"])
        (use AArch64 pr ar al in \<open>simp_all add: setup_call_def call_frame_def\<close>)
  qed
qed

text \<open>C22: \<open>remote_call\<close> starts the function with its arguments in the argument registers, the return address
  where the architecture keeps it and the stack aligned as the ABI asks, lets the process run once, and
  returns the result register exactly when the process faulted on the return address, 0 otherwise.\<close>

theorem remote_call_convention:
  assumes "length args \<le> max_reg_args a" and "stack_room a r (t_mem t)" and "t_ok t = []"
    and "t_runs t = (\<lambda>im. ([W_Status s], r', m')) # fs" and "WIFSTOPPED s"
  shows "\<exists>r1 m1. call_frame a func_addr return_addr args r1 m1 \<and>
    remote_call a func_addr return_addr args r t =
      Inr (if WSTOPSIG s = SIGSEGV \<and> r_ip r' = return_addr then REG_RET a r' else 0, r',
           t\<lparr>t_regs := r', t_mem := m', t_runs := fs, t_log := t_log t @ [Tev_Cont r1 m1]\<rparr>)"
proof -
  obtain r1 m1 where s1: "setup_call a func_addr return_addr args r t = (r1, t\<lparr>t_mem := m1\<rparr>)"
    and cf: "call_frame a func_addr return_addr args r1 m1"
    using setup_call_frame [OF assms(1,2)] .
  have "remote_call a func_addr return_addr args r t =
      Inr (if WSTOPSIG s = SIGSEGV \<and> r_ip r' = return_addr then REG_RET a r' else 0, r',
           t\<lparr>t_regs := r', t_mem := m', t_runs := fs, t_log := t_log t @ [Tev_Cont r1 m1]\<rparr>)"
    using assms(3-5)
    by (simp add: remote_call_def s1 set_regs_def get_regs_def next_ok_def cont_and_wait_def run_to_stop_def tlog_def)
  with cf show ?thesis by blast
qed

theorem remote_call_convention_witness:
  "\<exists>r1 m1. call_frame X86_64 0x7000 0x6000 [1, 2] r1 m1 \<and>
    remote_call X86_64 0x7000 0x6000 [1, 2] \<lparr>r_sp = 0x5039, r_ip = 0, r_arg = \<lambda>_. 0, r_lr = 0, r_ax = 0\<rparr>
     \<lparr>t_mem = \<lambda>_. Some NUL, t_regs = \<lparr>r_sp = 0x5039, r_ip = 0, r_arg = \<lambda>_. 0, r_lr = 0, r_ax = 0\<rparr>,
      t_runs = [\<lambda>im. ([W_Status (stop_status SIGSEGV 0)],
        \<lparr>r_sp = 0x5030, r_ip = 0x6000, r_arg = \<lambda>_. 0, r_lr = 0, r_ax = 77\<rparr>, \<lambda>_. Some NUL)],
      t_ok = [], t_log = []\<rparr> =
    Inr (77, \<lparr>r_sp = 0x5030, r_ip = 0x6000, r_arg = \<lambda>_. 0, r_lr = 0, r_ax = 77\<rparr>,
     \<lparr>t_mem = \<lambda>_. Some NUL, t_regs = \<lparr>r_sp = 0x5030, r_ip = 0x6000, r_arg = \<lambda>_. 0, r_lr = 0, r_ax = 77\<rparr>,
      t_runs = [], t_ok = [], t_log = [Tev_Cont r1 m1]\<rparr>)"
proof -
  let ?r = "\<lparr>r_sp = 0x5039, r_ip = 0, r_arg = \<lambda>_. 0, r_lr = 0, r_ax = 0\<rparr>"
  let ?r' = "\<lparr>r_sp = 0x5030, r_ip = 0x6000, r_arg = \<lambda>_. 0, r_lr = 0, r_ax = 77\<rparr>"
  let ?f = "\<lambda>im :: user_regs \<times> memory. ([W_Status (stop_status SIGSEGV 0)], ?r', \<lambda>_ :: u64. Some NUL)"
  let ?t = "\<lparr>t_mem = \<lambda>_. Some NUL, t_regs = ?r, t_runs = [?f], t_ok = [], t_log = []\<rparr>"
  have "stack_room X86_64 ?r (t_mem ?t)" by (simp add: stack_room_def mapped_def)
  moreover have "WIFSTOPPED (stop_status SIGSEGV 0)" by (simp add: stop_status_def wait_defs)
  moreover have "WSTOPSIG (stop_status SIGSEGV 0) = SIGSEGV" by (simp add: stop_status_def wait_defs)
  ultimately show ?thesis
    using remote_call_convention [of "[1, 2]" X86_64 ?r ?t "stop_status SIGSEGV 0" ?r' "\<lambda>_. Some NUL" "[]" "0x7000" "0x6000"]
    by (simp add: max_reg_args_def REG_RET_def)
qed

end
