(* ===== verification/Ptracer.thy ===== *)
theory Ptracer
  imports Tracee
begin

text \<open>
  The tracer of \<open>loader/src/ptracer/ptracer.cpp\<close>: \<open>inject_on_main\<close> and \<open>trace_zygote\<close>, and \<open>switch_mnt_ns\<close> of
  \<open>utils.cpp\<close>.  The memory maps of the two processes and the tracer's own \<open>dlopen\<close> and \<open>dlsym\<close> are inputs.
  The two loops over the kernel's argument block read until they find what they look for and are
  \<open>partial_function\<close>s.
\<close>

section \<open>The kernel's argument block\<close>

abbreviation (input) AT_NULL :: u64 where "AT_NULL \<equiv> 0"
abbreviation (input) AT_ENTRY :: u64 where "AT_ENTRY \<equiv> 9"

text \<open>The loop over \<open>envp\<close>: the address behind the null pointer.\<close>

partial_function (option) skip_envp :: "memory \<Rightarrow> u64 \<Rightarrow> u64 res option" where
  "skip_envp m p =
     (case read_u64_at p m of
        Inl e \<Rightarrow> Some (Inl e)
      | Inr buf \<Rightarrow> if buf = 0 then Some (Inr (p + 8)) else skip_envp m (p + 8))"

text \<open>The loop over the auxiliary vector: the entry address and the address it is stored at, 0 if there is
  none.\<close>

partial_function (option) find_entry :: "memory \<Rightarrow> u64 \<Rightarrow> (u64 \<times> u64) res option" where
  "find_entry m v =
     (case bind_r (read_u64_at v m) (\<lambda>a_type. bind_r (read_u64_at (v + 8) m) (\<lambda>a_val. Inr (a_type, a_val))) of
        Inl e \<Rightarrow> Some (Inl e)
      | Inr (a_type, a_val) \<Rightarrow>
          if a_type = AT_ENTRY then Some (Inr (a_val, v + 8))
          else if a_type = AT_NULL then Some (Inr (0, 0))
          else find_entry m (v + 16))"

declare skip_envp.simps [code] find_entry.simps [code]

definition parse_args_block :: "memory \<Rightarrow> u64 \<Rightarrow> (u64 \<times> u64) res option" where
  "parse_args_block m arg =
     (case read_u32_at arg m of
        Inl e \<Rightarrow> Some (Inl e)
      | Inr argc \<Rightarrow>
          (let argv = arg + 8; envp = argv + word_of_int (8 * (sint argc + 1))
           in case skip_envp m envp of
                None \<Rightarrow> None
              | Some (Inl e) \<Rightarrow> Some (Inl e)
              | Some (Inr auxv) \<Rightarrow> find_entry m auxv))"

definition break_address :: "u64 \<Rightarrow> u64" where
  "break_address entry_addr = (- 0x05ec1cff AND NOT 1) OR (entry_addr AND 1)"

section \<open>Injection\<close>

record inject_env =
  ie_arch :: arch
  ie_lib_path :: string
  ie_tmp_path :: string
  ie_maps :: "map_info list"        \<comment> \<open>\<open>MapInfo::Scan\<close> of the process, at its entry\<close>
  ie_local_maps :: "map_info list"
  ie_dl :: "string \<Rightarrow> (string \<Rightarrow> u64) option"

abbreviation (input) RTLD_NOW :: u64 where "RTLD_NOW \<equiv> 2"

definition find_func :: "inject_env \<Rightarrow> string \<Rightarrow> string \<Rightarrow> u64" where
  "find_func e module func = find_func_addr (ie_dl e) (ie_local_maps e) (ie_maps e) module func"

definition libc_return_addr :: "inject_env \<Rightarrow> u64" where
  "libc_return_addr e = find_module_return_addr (ie_maps e) ''libc.so''"

definition call_remote ::
  "inject_env \<Rightarrow> u64 \<Rightarrow> u64 list \<Rightarrow> user_regs \<Rightarrow> tracee \<Rightarrow> (u64 \<times> user_regs \<times> tracee) res" where
  "call_remote e func args r t = remote_call (ie_arch e) func (libc_return_addr e) args r t"

text \<open>The branch for a null handle: it asks the process for \<open>dlerror\<close> and always ends the injection.\<close>

definition report_dlerror :: "inject_env \<Rightarrow> user_regs \<Rightarrow> tracee \<Rightarrow> (bool \<times> tracee) res" where
  "report_dlerror e r t =
     (if find_func e ''libdl.so'' ''dlerror'' = 0 then Inr (False, t)
      else bind_r (call_remote e (find_func e ''libdl.so'' ''dlerror'') [] r t) (\<lambda>(err, r1, t1).
        if err = 0 then Inr (False, t1)
        else if find_func e ''libc.so'' ''strlen'' = 0 then Inr (False, t1)
        else bind_r (call_remote e (find_func e ''libc.so'' ''strlen'') [err] r1 t1) (\<lambda>(len, r2, t2).
          Inr (False, t2))))"

definition load_library :: "inject_env \<Rightarrow> u64 \<Rightarrow> user_regs \<Rightarrow> tracee \<Rightarrow> (bool \<times> tracee) res" where
  "load_library e entry_addr backup t =
     (if find_func e ''libdl.so'' ''dlopen'' = 0 then Inr (False, t)
      else
        (case push_string (ie_lib_path e) backup t of (str, r1, t1) \<Rightarrow>
          bind_r (call_remote e (find_func e ''libdl.so'' ''dlopen'') [str, RTLD_NOW] r1 t1) (\<lambda>(handle, r2, t2).
            if handle = 0 then report_dlerror e r2 t2
            else if find_func e ''libdl.so'' ''dlsym'' = 0 then Inr (False, t2)
            else
              (case push_string ''entry'' r2 t2 of (str2, r3, t3) \<Rightarrow>
                bind_r (call_remote e (find_func e ''libdl.so'' ''dlsym'') [handle, str2] r3 t3) (\<lambda>(injector, r4, t4).
                  if injector = 0 then Inr (False, t4)
                  else
                    (case push_string (ie_tmp_path e) r4 t4 of (str3, r5, t5) \<Rightarrow>
                      bind_r (call_remote e injector [handle, str3] r5 t5) (\<lambda>(_, r6, t6).
                        Inr (set_regs (backup\<lparr>r_ip := entry_addr\<rparr>) t6))))))))"

text \<open>The stop behind the replaced entry.  A failed \<open>write_proc\<close> returns -1, which is not 0, so the tests only
  catch a write of nothing.\<close>

definition inject_at_stop :: "inject_env \<Rightarrow> u64 \<Rightarrow> u64 \<Rightarrow> u32 \<Rightarrow> tracee \<Rightarrow> (bool \<times> tracee) res" where
  "inject_at_stop e entry_addr addr_of_entry_addr status t =
     (if WIFSTOPPED status \<and> WSTOPSIG status = SIGSEGV
      then
        (case get_regs t of
           (None, t1) \<Rightarrow> Inr (False, t1)
         | (Some r, t1) \<Rightarrow>
             if r_ip r AND NOT 1 \<noteq> break_address entry_addr AND NOT 1 then Inr (False, t1)
             else
               (case write_proc addr_of_entry_addr (enc_u64 entry_addr) t1 of (l, t2) \<Rightarrow>
                  if l = 0 then Inr (False, t2) else load_library e entry_addr r t2))
      else Inr (False, t))"

definition inject_on_main :: "inject_env \<Rightarrow> tracee \<Rightarrow> (bool \<times> tracee) res option" where
  "inject_on_main e t =
     (case get_regs t of
        (None, t1) \<Rightarrow> Some (Inr (False, t1))
      | (Some r, t1) \<Rightarrow>
          (case parse_args_block (t_mem t1) (r_sp r) of
             None \<Rightarrow> None
           | Some (Inl f) \<Rightarrow> Some (Inl f)
           | Some (Inr (entry_addr, addr_of_entry_addr)) \<Rightarrow>
               if entry_addr = 0 then Some (Inr (False, t1))
               else
                 (case write_proc addr_of_entry_addr (enc_u64 (break_address entry_addr)) t1 of (l, t2) \<Rightarrow>
                    if l = 0 then Some (Inr (False, t2))
                    else Some (bind_r (cont_and_wait t2) (\<lambda>(status, t3).
                           inject_at_stop e entry_addr addr_of_entry_addr status t3)))))"

section \<open>Tracing a zygote\<close>

definition lib_path_of :: "string \<Rightarrow> string" where
  "lib_path_of tmp = tmp @ ''/lib64/libzygisk.so''"

text \<open>\<open>CONT_OR_DIE\<close> and \<open>WAIT_OR_DIE\<close>.\<close>

definition cont_or_die :: "tracee \<Rightarrow> (u32 option \<times> tracee) res" where
  "cont_or_die t =
     (case next_ok t of (ok, t1) \<Rightarrow>
        if \<not> ok then Inr (None, t1)
        else bind_r (cont_and_wait t1) (\<lambda>(status, t2). Inr (Some status, t2)))"

text \<open>From the \<open>SIGCONT\<close> on.\<close>

definition resume_zygote :: "tracee \<Rightarrow> (bool \<times> tracee) res" where
  "resume_zygote t =
     bind_r (cont_or_die t) (\<lambda>(s1, t1).
       case s1 of
         None \<Rightarrow> Inr (False, t1)
       | Some status \<Rightarrow>
           if STOPPED_WITH_pt status SIGTRAP PTRACE_EVENT_STOP
           then bind_r (cont_or_die t1) (\<lambda>(s2, t2).
                  case s2 of
                    None \<Rightarrow> Inr (False, t2)
                  | Some status2 \<Rightarrow>
                      Inr (True, if STOPPED_WITH_pt status2 SIGCONT 0 then tlog (Tev_Detach SIGCONT) t2 else t2))
           else Inr (False, tlog (Tev_Detach 0) t1))"

definition trace_zygote :: "inject_env \<Rightarrow> tracee \<Rightarrow> (bool \<times> tracee) res option" where
  "trace_zygote e t =
     (case next_ok t of (seized, t1) \<Rightarrow>
        if \<not> seized then Some (Inr (False, t1))
        else
          (case run_to_stop t1 of
             Inl f \<Rightarrow> Some (Inl f)
           | Inr (status, t2) \<Rightarrow>
               if STOPPED_WITH_pt status SIGSTOP PTRACE_EVENT_STOP
               then
                 (case inject_on_main (e\<lparr>ie_lib_path := lib_path_of (ie_tmp_path e)\<rparr>) t2 of
                    None \<Rightarrow> None
                  | Some (Inl f) \<Rightarrow> Some (Inl f)
                  | Some (Inr (ok, t3)) \<Rightarrow>
                      if \<not> ok then Some (Inr (False, t3))
                      else
                        (case next_ok (tlog (Tev_Kill SIGCONT) t3) of (sent, t4) \<Rightarrow>
                           if \<not> sent then Some (Inr (False, t4))
                           else Some (resume_zygote t4)))
               else Some (Inr (False, tlog (Tev_Detach 0) t2))))"

section \<open>Finding the entry\<close>

lemma skip_envp_block:
  "\<forall>x \<in> set env. x \<noteq> 0 \<Longrightarrow> holds m p (concat (map enc_u64 env) @ enc_u64 0 @ rest) \<Longrightarrow>
   skip_envp m p = Some (Inr (p + word_of_nat (8 * length env + 8)))"
proof (induction env arbitrary: p)
  case Nil
  then have "read_u64_at p m = Inr 0" by (simp add: holds_append read_u64_holds)
  then show ?case by (subst skip_envp.simps) simp
next
  case (Cons x env)
  then have x: "read_u64_at p m = Inr x" "x \<noteq> 0"
    and rest: "holds m (p + 8) (concat (map enc_u64 env) @ enc_u64 0 @ rest)"
    by (simp_all add: holds_append read_u64_holds)
  have "skip_envp m p = skip_envp m (p + 8)" using x by (subst skip_envp.simps) simp
  also have "\<dots> = Some (Inr (p + 8 + word_of_nat (8 * length env + 8)))"
    using Cons.prems(1) by (intro Cons.IH rest) simp
  also have "p + 8 + word_of_nat (8 * length env + 8) = p + (word_of_nat (8 * length (x # env) + 8) :: u64)"
    by (simp add: algebra_simps)
  finally show ?case .
qed

definition enc_aux :: "u64 \<times> u64 \<Rightarrow> string" where
  "enc_aux a = enc_u64 (fst a) @ enc_u64 (snd a)"

lemma length_enc_aux [simp]: "length (enc_aux a) = 16"
  by (simp add: enc_aux_def)

lemma find_entry_block:
  "\<forall>a \<in> set pre. fst a \<noteq> AT_ENTRY \<and> fst a \<noteq> AT_NULL \<Longrightarrow>
   holds m v (concat (map enc_aux pre) @ enc_aux (AT_ENTRY, entry) @ rest) \<Longrightarrow>
   find_entry m v = Some (Inr (entry, v + word_of_nat (16 * length pre + 8)))"
proof (induction pre arbitrary: v)
  case Nil
  then have "read_u64_at v m = Inr 9" "read_u64_at (v + 8) m = Inr entry"
    by (simp_all add: enc_aux_def holds_append read_u64_holds)
  then show ?case by (subst find_entry.simps) simp
next
  case (Cons a pre)
  have h: "holds m v (enc_u64 (fst a))" "holds m (v + 8) (enc_u64 (snd a))"
    and rest: "holds m (v + 16) (concat (map enc_aux pre) @ enc_aux (AT_ENTRY, entry) @ rest)"
    using Cons.prems(2) enc_aux_def [of a] by (simp_all add: holds_append add.assoc)
  have "find_entry m v = find_entry m (v + 16)"
    using Cons.prems(1) h by (subst find_entry.simps) (cases a, simp add: read_u64_holds)
  also have "\<dots> = Some (Inr (entry, v + 16 + word_of_nat (16 * length pre + 8)))"
    using Cons.prems(1) by (intro Cons.IH rest) simp
  also have "v + 16 + word_of_nat (16 * length pre + 8) = v + (word_of_nat (16 * length (a # pre) + 8) :: u64)"
    by (simp add: algebra_simps)
  finally show ?case .
qed

text \<open>The block the kernel puts on the stack of a new program: argument count, argument pointers, a null,
  environment pointers, a null, the auxiliary vector.\<close>

definition args_block :: "u64 list \<Rightarrow> u64 list \<Rightarrow> (u64 \<times> u64) list \<Rightarrow> string" where
  "args_block argv env aux =
     enc_u32 (word_of_nat (length argv)) @ enc_u32 0 @ concat (map enc_u64 argv) @ enc_u64 0 @
     concat (map enc_u64 env) @ enc_u64 0 @ concat (map enc_aux aux)"

lemma length_concat_u64 [simp]: "length (concat (map enc_u64 xs)) = 8 * length xs"
  by (induction xs) simp_all

lemma parse_args_block_found:
  assumes "holds m sp (args_block argv env (pre @ (AT_ENTRY, entry) # post))"
    and "length argv < 2 ^ 31" and "\<forall>x \<in> set env. x \<noteq> 0"
    and "\<forall>a \<in> set pre. fst a \<noteq> AT_ENTRY \<and> fst a \<noteq> AT_NULL"
  shows "parse_args_block m sp = Some (Inr (entry,
    sp + word_of_nat (8 + 8 * length argv + 8 + 8 * length env + 8 + 16 * length pre + 8)))"
proof -
  let ?n = "length argv"
  let ?envp = "sp + word_of_nat (8 + 8 * ?n + 8)"
  let ?auxv = "?envp + word_of_nat (8 * length env + 8)"
  have argc: "read_u32_at sp m = Inr (word_of_nat ?n)"
    using assms(1) by (simp add: args_block_def holds_append read_u32_holds)
  have s: "sint (word_of_nat ?n :: u32) = int ?n"
    using assms(2) by (simp add: signed_of_nat signed_take_bit_int_eq_self)
  have e: "sp + 8 + word_of_int (8 * (int ?n + 1)) = ?envp"
    by (simp add: algebra_simps)
  have he: "holds m ?envp (concat (map enc_u64 env) @ enc_u64 0 @ concat (map enc_aux (pre @ (AT_ENTRY, entry) # post)))"
    using assms(1) by (simp add: args_block_def holds_append add.assoc algebra_simps)
  have sk: "skip_envp m ?envp = Some (Inr ?auxv)" by (rule skip_envp_block [OF assms(3) he])
  have ha: "holds m ?auxv (concat (map enc_aux pre) @ enc_aux (AT_ENTRY, entry) @ concat (map enc_aux post))"
    using he unfolding append_assoc [symmetric] holds_append [of m ?envp _ "_ @ _"]
    by (simp add: holds_append add.assoc algebra_simps)
  have "parse_args_block m sp = find_entry m ?auxv"
    by (simp only: parse_args_block_def argc sum.case Let_def s e sk option.case)
  also have "\<dots> = Some (Inr (entry, ?auxv + word_of_nat (16 * length pre + 8)))"
    by (rule find_entry_block [OF assms(4) ha])
  finally show ?thesis by (simp add: algebra_simps)
qed

text \<open>On the stack the kernel prepares for a new program, the tracer finds the entry address in the
  auxiliary vector and the address it is stored at, behind any arguments, environment and other entries.\<close>

lemma entry_found:
  assumes "holds m sp (args_block argv env (pre @ (AT_ENTRY, entry) # post))"
    and "length argv < 2 ^ 31" and "\<forall>x \<in> set env. x \<noteq> 0"
    and "\<forall>a \<in> set pre. fst a \<noteq> AT_ENTRY \<and> fst a \<noteq> AT_NULL"
  shows "\<exists>addr. parse_args_block m sp = Some (Inr (entry, addr)) \<and> holds m addr (enc_u64 entry)"
proof -
  let ?addr = "sp + word_of_nat (8 + 8 * length argv + 8 + 8 * length env + 8 + 16 * length pre + 8)"
  have "length (concat (map enc_aux pre)) = 16 * length pre" by (induction pre) simp_all
  then have "holds m ?addr (enc_u64 entry)"
    using assms(1) by (simp add: args_block_def holds_append enc_aux_def [of "(_, _)"] add.assoc algebra_simps)
  with parse_args_block_found [OF assms] show ?thesis by blast
qed

lemma entry_found_witness:
  "\<exists>addr. parse_args_block (poke (\<lambda>_. None) 0x1000 (args_block [1] [2, 3] [(6, 4096), (9, 0x4010), (0, 0)])) 0x1000 =
     Some (Inr (0x4010, addr))"
proof -
  have "holds (poke (\<lambda>_. None) 0x1000 (args_block [1] [2, 3] [(6, 4096), (9, 0x4010), (0, 0)])) 0x1000
      (args_block [1] [2, 3] ([(6, 4096)] @ (9, 0x4010) # [(0, 0)]))"
    unfolding append.simps by (rule holds_poke) (simp add: args_block_def)
  from entry_found [OF this] show ?thesis by auto
qed

section \<open>Outcome of an injection\<close>

lemma next_ok_keeps:
  "next_ok t = (b, t') \<Longrightarrow> t_log t' = t_log t \<and> t_mem t' = t_mem t \<and> t_regs t' = t_regs t \<and> t_runs t' = t_runs t"
  by (auto simp: next_ok_def split: list.splits)

lemma push_string_log: "push_string s r t = (a, r', t') \<Longrightarrow> t_log t' = t_log t"
  by (auto simp: push_string_def write_proc_def Let_def split: prod.splits)

lemma write_proc_log: "write_proc a bs t = (l, t') \<Longrightarrow> t_log t' = t_log t"
  by (auto simp: write_proc_def split: prod.splits)

lemma setup_call_log: "setup_call a f ret args r t = (r', t') \<Longrightarrow> t_log t' = t_log t \<and> r_ip r' = f"
  by (auto simp: setup_call_def push_rest_def write_proc_def Let_def split: prod.splits arch.splits if_splits)

lemma run_to_stop_log: "run_to_stop t = Inr (s, t') \<Longrightarrow> t_log t' = t_log t"
  by (auto simp: run_to_stop_def res_simps split: list.splits prod.splits)

lemma cont_and_wait_log:
  "cont_and_wait t = Inr (s, t') \<Longrightarrow> t_log t' = t_log t @ [Tev_Cont (t_regs t) (t_mem t)]"
  by (auto simp: cont_and_wait_def tlog_def dest: run_to_stop_log)

lemma remote_call_log:
  assumes "remote_call a f ret args r t = Inr (v, r', t')" and "v \<noteq> 0"
  shows "\<exists>rc mc. r_ip rc = f \<and> t_log t' = t_log t @ [Tev_Cont rc mc]"
proof -
  obtain r1 t1 where s: "setup_call a f ret args r t = (r1, t1)" by fastforce
  obtain ok t2 where n: "next_ok t1 = (ok, t2)" by fastforce
  from assms s n have ok: "ok" by (cases ok) (auto simp: remote_call_def set_regs_def)
  from assms s n ok obtain st t3 where c: "cont_and_wait (t2\<lparr>t_regs := r1\<rparr>) = Inr (st, t3)"
    and e: "t_log t' = t_log t3"
    by (auto simp: remote_call_def set_regs_def get_regs_def res_simps
        split: prod.splits option.splits if_splits dest!: next_ok_keeps)
  have "t_log t3 = t_log t @ [Tev_Cont r1 (t_mem t2)]"
    using cont_and_wait_log [OF c] next_ok_keeps [OF n] setup_call_log [OF s] by simp
  with e setup_call_log [OF s] show ?thesis by (intro exI [of _ r1] exI [of _ "t_mem t2"]) simp
qed

lemma remote_call_log_any:
  assumes "remote_call a f ret args r t = Inr (v, r', t')"
  shows "\<exists>evs. t_log t' = t_log t @ evs \<and> (\<forall>x \<in> set evs. \<exists>rc mc. x = Tev_Cont rc mc \<and> r_ip rc = f)"
proof -
  obtain r1 t1 where s: "setup_call a f ret args r t = (r1, t1)" by fastforce
  obtain ok t2 where n: "next_ok t1 = (ok, t2)" by fastforce
  show ?thesis
  proof (cases ok)
    case False
    with assms s n next_ok_keeps [OF n] setup_call_log [OF s] show ?thesis
      by (auto simp: remote_call_def set_regs_def)
  next
    case True
    with assms s n obtain st t3 where c: "cont_and_wait (t2\<lparr>t_regs := r1\<rparr>) = Inr (st, t3)"
      and e: "t_log t' = t_log t3"
      by (auto simp: remote_call_def set_regs_def get_regs_def res_simps
          split: prod.splits option.splits if_splits dest!: next_ok_keeps)
    have "t_log t3 = t_log t @ [Tev_Cont r1 (t_mem t2)]"
      using cont_and_wait_log [OF c] next_ok_keeps [OF n] setup_call_log [OF s] by simp
    with e setup_call_log [OF s] show ?thesis by auto
  qed
qed

text \<open>A library that was loaded: three calls, and the registers of the entry stop with the real entry.\<close>

lemma load_library_success:
  assumes "load_library e entry_addr backup t = Inr (True, t')"
  shows "\<exists>r1 m1 r2 m2 evs. r_ip r1 = find_func e ''libdl.so'' ''dlopen'' \<and>
    r_ip r2 = find_func e ''libdl.so'' ''dlsym'' \<and>
    t_log t' = t_log t @ Tev_Cont r1 m1 # Tev_Cont r2 m2 # evs \<and>
    (\<forall>x \<in> set evs. \<exists>rc mc. x = Tev_Cont rc mc \<and> r_ip rc \<noteq> 0) \<and>
    t_regs t' = backup\<lparr>r_ip := entry_addr\<rparr>"
proof -
  let ?dlopen = "find_func e ''libdl.so'' ''dlopen''" and ?dlsym = "find_func e ''libdl.so'' ''dlsym''"
  have nz: "?dlopen \<noteq> 0" using assms by (cases "?dlopen = 0") (simp_all add: load_library_def)
  obtain s1 r1 t1 where p1: "push_string (ie_lib_path e) backup t = (s1, r1, t1)" by (metis surj_pair)
  obtain h r2 t2 where c1: "call_remote e ?dlopen [s1, RTLD_NOW] r1 t1 = Inr (h, r2, t2)"
    using assms nz by (auto simp: load_library_def p1 res_simps)
  have h: "h \<noteq> 0"
  proof
    assume "h = 0"
    then have "report_dlerror e r2 t2 = Inr (True, t')" using assms nz by (simp add: load_library_def p1 c1)
    then show False by (auto simp: report_dlerror_def res_simps split: if_splits)
  qed
  have nz2: "?dlsym \<noteq> 0"
    using assms nz h by (cases "?dlsym = 0") (simp_all add: load_library_def p1 c1)
  obtain s2 r3 t3 where p2: "push_string ''entry'' r2 t2 = (s2, r3, t3)" by (metis surj_pair)
  obtain i r4 t4 where c2: "call_remote e ?dlsym [h, s2] r3 t3 = Inr (i, r4, t4)"
    using assms nz h nz2 by (auto simp: load_library_def p1 c1 p2 res_simps)
  have i: "i \<noteq> 0" using assms nz h nz2 by (cases "i = 0") (simp_all add: load_library_def p1 c1 p2 c2)
  obtain s3 r5 t5 where p3: "push_string (ie_tmp_path e) r4 t4 = (s3, r5, t5)" by (metis surj_pair)
  obtain v r6 t6 where c3: "call_remote e i [h, s3] r5 t5 = Inr (v, r6, t6)"
    using assms nz h nz2 i by (auto simp: load_library_def p1 c1 p2 c2 p3 res_simps)
  have fin: "set_regs (backup\<lparr>r_ip := entry_addr\<rparr>) t6 = (True, t')"
    using assms nz h nz2 i by (simp add: load_library_def p1 c1 p2 c2 p3 c3)
  then have regs: "t_regs t' = backup\<lparr>r_ip := entry_addr\<rparr>" and lg: "t_log t' = t_log t6"
    by (auto simp: set_regs_def split: prod.splits if_splits dest!: next_ok_keeps)
  obtain ra ma where l1: "r_ip ra = ?dlopen" "t_log t2 = t_log t1 @ [Tev_Cont ra ma]"
    using remote_call_log [OF c1 [unfolded call_remote_def] h] by blast
  obtain rb mb where l2: "r_ip rb = ?dlsym" "t_log t4 = t_log t3 @ [Tev_Cont rb mb]"
    using remote_call_log [OF c2 [unfolded call_remote_def] i] by blast
  obtain evs where l3: "t_log t6 = t_log t5 @ evs" "\<forall>x \<in> set evs. \<exists>rc mc. x = Tev_Cont rc mc \<and> r_ip rc = i"
    using remote_call_log_any [OF c3 [unfolded call_remote_def]] by blast
  have "t_log t' = t_log t @ Tev_Cont ra ma # Tev_Cont rb mb # evs"
    using lg l1 l2 l3 push_string_log [OF p1] push_string_log [OF p2] push_string_log [OF p3] by simp
  with l1 l2 l3 i regs show ?thesis by blast
qed



section \<open>Outcome of tracing\<close>

text \<open>After the \<open>SIGCONT\<close> the tracer continues the zygote and looks at its stop.  At the expected group stop it
  continues once more and detaches with \<open>SIGCONT\<close> if that is the signal it sees; if it sees another one it
  reports success all the same and leaves the zygote attached, which the option \<open>PTRACE_O_EXITKILL\<close> kills
  when the tracer ends.  At any other stop it detaches and reports failure.\<close>

lemma resume_zygote_outcome:
  assumes "t_ok t = []" and "t_runs t = (\<lambda>im. ([W_Status s1], r1, m1)) # (\<lambda>im. ([W_Status s2], r2, m2)) # fs"
    and "WIFSTOPPED s1" and "WIFSTOPPED s2"
  shows "\<exists>t'. resume_zygote t = Inr (STOPPED_WITH_pt s1 SIGTRAP PTRACE_EVENT_STOP, t') \<and>
    t_log t' = t_log t @ Tev_Cont (t_regs t) (t_mem t) #
      (if STOPPED_WITH_pt s1 SIGTRAP PTRACE_EVENT_STOP
       then Tev_Cont r1 m1 # (if STOPPED_WITH_pt s2 SIGCONT 0 then [Tev_Detach SIGCONT] else [])
       else [Tev_Detach 0])"
  using assms
  by (simp add: resume_zygote_def cont_or_die_def next_ok_def cont_and_wait_def run_to_stop_def tlog_def)

lemma resume_zygote_outcome_witness:
  "\<exists>t'. resume_zygote \<lparr>t_mem = \<lambda>_. None, t_regs = \<lparr>r_sp = 0, r_ip = 0, r_arg = \<lambda>_. 0, r_lr = 0, r_ax = 0\<rparr>,
      t_runs = [\<lambda>im. ([W_Status (stop_status SIGTRAP PTRACE_EVENT_STOP)],
          \<lparr>r_sp = 0, r_ip = 4, r_arg = \<lambda>_. 0, r_lr = 0, r_ax = 0\<rparr>, \<lambda>_. None),
        \<lambda>im. ([W_Status (stop_status SIGCHLD 0)],
          \<lparr>r_sp = 0, r_ip = 8, r_arg = \<lambda>_. 0, r_lr = 0, r_ax = 0\<rparr>, \<lambda>_. None)],
      t_ok = [], t_log = []\<rparr> = Inr (True, t') \<and> (\<forall>s. Tev_Detach s \<notin> set (t_log t'))"
    (is "\<exists>t'. resume_zygote ?t = _ \<and> _")
proof -
  let ?s1 = "stop_status SIGTRAP PTRACE_EVENT_STOP" and ?s2 = "stop_status SIGCHLD 0"
  have "WIFSTOPPED ?s1" "WIFSTOPPED ?s2" "STOPPED_WITH_pt ?s1 SIGTRAP PTRACE_EVENT_STOP"
    "\<not> STOPPED_WITH_pt ?s2 SIGCONT 0"
    by (simp_all add: stop_status_def wait_defs STOPPED_WITH_pt_def)
  with resume_zygote_outcome [of ?t ?s1 "\<lparr>r_sp = 0, r_ip = 4, r_arg = \<lambda>_. 0, r_lr = 0, r_ax = 0\<rparr>" "\<lambda>_. None"
      ?s2 "\<lparr>r_sp = 0, r_ip = 8, r_arg = \<lambda>_. 0, r_lr = 0, r_ax = 0\<rparr>" "\<lambda>_. None" "[]"]
  show ?thesis by auto
qed

lemma trace_zygote_success:
  assumes "trace_zygote e t = Some (Inr (True, t'))"
  shows "\<exists>t2 t3. inject_on_main (e\<lparr>ie_lib_path := lib_path_of (ie_tmp_path e)\<rparr>) t2 = Some (Inr (True, t3)) \<and>
    t_log t2 = t_log t \<and> (\<exists>evs. t_log t' = t_log t3 @ Tev_Kill SIGCONT # evs)"
proof -
  obtain b t1 where n: "next_ok t = (b, t1)" by fastforce
  have b: "b" using assms by (cases b) (simp_all add: trace_zygote_def n)
  obtain status t2 where r: "run_to_stop t1 = Inr (status, t2)"
    using assms b by (auto simp: trace_zygote_def n split: sum.splits)
  have st: "STOPPED_WITH_pt status SIGSTOP PTRACE_EVENT_STOP"
    using assms b by (cases "STOPPED_WITH_pt status SIGSTOP PTRACE_EVENT_STOP") (simp_all add: trace_zygote_def n r)
  obtain ok t3 where i: "inject_on_main (e\<lparr>ie_lib_path := lib_path_of (ie_tmp_path e)\<rparr>) t2 = Some (Inr (ok, t3))"
    using assms b st by (auto simp: trace_zygote_def n r split: option.splits sum.splits)
  have ok: "ok" using assms b st by (cases ok) (simp_all add: trace_zygote_def n r i)
  obtain s t4 where k: "next_ok (tlog (Tev_Kill SIGCONT) t3) = (s, t4)" by fastforce
  have s: "s" using assms b st ok by (cases s) (simp_all add: trace_zygote_def n r i k)
  have rz: "resume_zygote t4 = Inr (True, t')" using assms b st ok s by (simp add: trace_zygote_def n r i k)
  have mono: "\<exists>evs. t_log t'' = t_log t' @ evs" if "cont_or_die t' = Inr (x, t'')" for x t' t''
    using that by (auto simp: cont_or_die_def res_simps split: prod.splits if_splits
        dest!: next_ok_keeps cont_and_wait_log)
  obtain x1 ta where a: "cont_or_die t4 = Inr (x1, ta)" using rz by (auto simp: resume_zygote_def res_simps)
  obtain sa where x1: "x1 = Some sa" using rz a by (cases x1) (auto simp: resume_zygote_def)
  have sa: "STOPPED_WITH_pt sa SIGTRAP PTRACE_EVENT_STOP"
    using rz a x1 by (cases "STOPPED_WITH_pt sa SIGTRAP PTRACE_EVENT_STOP") (simp_all add: resume_zygote_def)
  obtain x2 tb where c: "cont_or_die ta = Inr (x2, tb)"
    using rz a x1 sa by (auto simp: resume_zygote_def res_simps)
  have "t' = tb \<or> t' = tlog (Tev_Detach SIGCONT) tb"
    using rz a x1 sa c by (cases x2) (auto simp: resume_zygote_def split: if_splits)
  then have "\<exists>evs. t_log t' = t_log t4 @ evs"
    using mono [OF a] mono [OF c] by (auto simp: tlog_def)
  moreover have "t_log t4 = t_log t3 @ [Tev_Kill SIGCONT]" using next_ok_keeps [OF k] by (simp add: tlog_def)
  moreover have "t_log t2 = t_log t" using run_to_stop_log [OF r] next_ok_keeps [OF n] by simp
  ultimately show ?thesis using i ok by auto
qed

section \<open>Mount namespaces\<close>

text \<open>\<open>switch_mnt_ns\<close>: the process' mount namespace and its descriptors of namespaces.  The inputs are the
  namespace of the other process, if it can be opened, whether the own one can, and whether \<open>setns\<close>
  succeeds.  The result has the value of \<open>*fd\<close>, if \<open>fd\<close> was given.\<close>

record ns_state =
  ns_cur :: nat
  ns_open :: "(fd \<times> nat) list"
  ns_fresh :: fd

definition ns_open_fd :: "nat \<Rightarrow> ns_state \<Rightarrow> fd \<times> ns_state" where
  "ns_open_fd n s = (ns_fresh s, s\<lparr>ns_open := (ns_fresh s, n) # ns_open s, ns_fresh := ns_fresh s + 1\<rparr>)"

definition ns_close :: "fd \<Rightarrow> ns_state \<Rightarrow> ns_state" where
  "ns_close f s = s\<lparr>ns_open := filter (\<lambda>x. fst x \<noteq> f) (ns_open s)\<rparr>"

definition switch_mnt_ns ::
  "pid \<Rightarrow> fd option \<Rightarrow> nat option \<Rightarrow> bool \<Rightarrow> bool \<Rightarrow> ns_state \<Rightarrow> bool \<times> fd option \<times> ns_state" where
  "switch_mnt_ns pid fdp target self_ok setns_ok s =
     (let enter = (\<lambda>nsfd old fdp' s1.
            case (if setns_ok then map_of (ns_open s1) nsfd else None) of
              None \<Rightarrow> (False, fdp', ns_close old (ns_close nsfd s1))
            | Some n \<Rightarrow> (True, fdp', ns_close nsfd (s1\<lparr>ns_cur := n\<rparr>)))
      in if pid = 0
         then (case fdp of None \<Rightarrow> (False, None, s) | Some nsfd \<Rightarrow> enter nsfd (-1) (Some (-1)) s)
         else if fdp \<noteq> None \<and> \<not> self_ok then (False, fdp, s)
         else
           (case (if fdp \<noteq> None then (case ns_open_fd (ns_cur s) s of (f, s') \<Rightarrow> (f, Some f, s')) else (-1, None, s))
            of (old, fdp', s1) \<Rightarrow>
              (case target of
                 None \<Rightarrow> (False, fdp', ns_close old s1)
               | Some n \<Rightarrow> (case ns_open_fd n s1 of (nsfd, s2) \<Rightarrow> enter nsfd old fdp' s2))))"

text \<open>Entering the mount namespace of a process and switching back with the descriptor it gave returns to the
  original namespace with no descriptor left open.\<close>

lemma switch_mnt_ns_roundtrip:
  assumes "switch_mnt_ns pid (Some f0) (Some n) True True s = (True, fd, s1)" and "pid \<noteq> 0"
    and "switch_mnt_ns 0 fd None True True s1 = (ok, fd', s2)" and "\<forall>x \<in> set (ns_open s). fst x < ns_fresh s"
  shows "ns_cur s1 = n \<and> ok \<and> fd' = Some (-1) \<and> ns_cur s2 = ns_cur s \<and> ns_open s2 = ns_open s"
proof -
  let ?f = "ns_fresh s"
  have fr: "filter (\<lambda>x. fst x \<noteq> ?f + k) (ns_open s) = ns_open s" if "k \<ge> 0" for k
    using assms(4) that by (auto simp: filter_id_conv)
  have s1: "s1 = s\<lparr>ns_cur := n, ns_open := (?f, ns_cur s) # ns_open s, ns_fresh := ?f + 2\<rparr> \<and> fd = Some ?f"
    using assms(1,2) fr [of 1] by (auto simp: switch_mnt_ns_def Let_def ns_open_fd_def ns_close_def)
  then show ?thesis
    using assms(3) fr [of 0] by (auto simp: switch_mnt_ns_def Let_def ns_close_def)
qed

lemma switch_mnt_ns_roundtrip_witness:
  "\<exists>fd s1 ok fd' s2. switch_mnt_ns 77 (Some 0) (Some 5) True True \<lparr>ns_cur = 1, ns_open = [], ns_fresh = 3\<rparr> = (True, fd, s1) \<and>
     switch_mnt_ns 0 fd None True True s1 = (ok, fd', s2) \<and> ns_cur s1 = 5 \<and> ns_cur s2 = 1 \<and> ns_open s2 = []"
proof -
  have "fst (switch_mnt_ns 77 (Some 0) (Some 5) True True \<lparr>ns_cur = 1, ns_open = [], ns_fresh = 3\<rparr>)" by code_simp
  then obtain fd s1 where a: "switch_mnt_ns 77 (Some 0) (Some 5) True True \<lparr>ns_cur = 1, ns_open = [], ns_fresh = 3\<rparr> = (True, fd, s1)"
    by (metis prod.collapse)
  obtain ok fd' s2 where b: "switch_mnt_ns 0 fd None True True s1 = (ok, fd', s2)" by (metis surj_pair)
  from switch_mnt_ns_roundtrip [OF a _ b] a b show ?thesis by auto
qed

end
