(* ===== verification/Tracer_Main.thy ===== *)
theory Tracer_Main
  imports Ptracer Monitor_Loop Daemon_Client
begin

text \<open>
  The command line of the tracer, \<open>loader/src/ptracer/main.cpp\<close>: the choice of the command from the
  arguments, and what each command does with the components it calls.  Everything outside the process is
  the record \<open>world\<close>.
\<close>

section \<open>Arguments\<close>

text \<open>\<open>strtol(s, 0, 0)\<close>: white space, sign, the base from the prefix, digits, saturation; 0 without digits.\<close>

definition strtol :: "string \<Rightarrow> int" where
  "strtol s =
     (let s1 = dropWhile isspace s;
          neg = (s1 \<noteq> [] \<and> hd s1 = CHR ''-'');
          s2 = (if s1 \<noteq> [] \<and> (hd s1 = CHR ''-'' \<or> hd s1 = CHR ''+'') then tl s1 else s1);
          hex = (length s2 \<ge> 3 \<and> s2 ! 0 = CHR ''0'' \<and> (s2 ! 1 = CHR ''x'' \<or> s2 ! 1 = CHR ''X'') \<and> is_digit 16 (s2 ! 2));
          base = (if hex then 16 else if s2 \<noteq> [] \<and> hd s2 = CHR ''0'' then 8 else 10);
          v = int (num_of base (takeWhile (is_digit base) (if hex then drop 2 s2 else s2)))
      in if neg then max (- v) (- (2 ^ 63)) else min v (2 ^ 63 - 1))"

text \<open>The \<open>long\<close> is passed on as an \<open>int\<close>.\<close>

definition to_int32 :: "int \<Rightarrow> int" where
  "to_int32 v = sint (word_of_int v :: u32)"

datatype tracer_cmd =
    Cmd_Monitor | Cmd_Trace int bool | Cmd_Ctl Command | Cmd_Ctl_Usage | Cmd_Version | Cmd_Info | Cmd_Usage

text \<open>\<open>argv[argc]\<close> is null, and \<open>strcmp\<close> reads through it.\<close>

definition parse_command :: "string list \<Rightarrow> tracer_cmd res" where
  "parse_command argv =
     (let argc = length argv in
      if argc \<ge> 2 \<and> argv ! 1 = ''monitor'' then Inr Cmd_Monitor
      else if argc \<ge> 3 \<and> argv ! 1 = ''trace''
      then Inr (Cmd_Trace (strtol (argv ! 2)) (argc \<ge> 4 \<and> argv ! 3 = ''--restart''))
      else if argc \<ge> 2 \<and> argv ! 1 = ''ctl''
      then if argc = 2 then Inl Null_Deref
           else if argv ! 2 = ''start'' then Inr (Cmd_Ctl START)
           else if argv ! 2 = ''stop'' then Inr (Cmd_Ctl STOP)
           else if argv ! 2 = ''exit'' then Inr (Cmd_Ctl EXIT)
           else Inr Cmd_Ctl_Usage
      else if argc \<ge> 2 \<and> argv ! 1 = ''version'' then Inr Cmd_Version
      else if argc \<ge> 2 \<and> argv ! 1 = ''info'' then Inr Cmd_Info
      else Inr Cmd_Usage)"

section \<open>The text of info\<close>

definition get_or_uninit :: "'a option \<Rightarrow> 'a res" where
  "get_or_uninit x = (case x of None \<Rightarrow> Inl Uninit_Read | Some v \<Rightarrow> Inr v)"

definition root_line :: "zygote_root_impl \<Rightarrow> string" where
  "root_line r = ''Root implementation: '' @
     (case r of ZYGOTE_ROOT_IMPL_NONE \<Rightarrow> ''none'' | ZYGOTE_ROOT_IMPL_APATCH \<Rightarrow> ''APatch''
      | ZYGOTE_ROOT_IMPL_KERNELSU \<Rightarrow> ''KernelSU'' | ZYGOTE_ROOT_IMPL_MAGISK \<Rightarrow> ''Magisk'') @ [NL]"

definition state_lines :: "monitor \<Rightarrow> string" where
  "state_lines m =
     ''Daemon64 running: '' @ (if daemon_running (status64 m) then ''1'' else ''0'') @ [NL] @
     ''Zygote64 injected: '' @ (if zygote_injected (status64 m) then ''yes'' else ''no'') @ [NL] @
     ''Tracing state: '' @
     (case tracing_state m of
        TRACING \<Rightarrow> ''TRACING'' @ [NL]
      | STOPPING \<Rightarrow> ''STOPPING'' @ [NL] @ ''Stop reason: '' @ monitor_stop_reason m @ [NL]
      | STOPPED \<Rightarrow> ''STOPPED'' @ [NL] @ ''Stop reason: '' @ monitor_stop_reason m @ [NL]
      | EXITING \<Rightarrow> ''EXITING'' @ [NL])"

fun module_lines :: "string option list \<Rightarrow> string res" where
  "module_lines [] = Inr []"
| "module_lines (x # xs) =
     bind_r (get_or_uninit x) (\<lambda>name. bind_r (module_lines xs) (\<lambda>r. Inr ('' - '' @ name @ [NL] @ r)))"

definition info_text :: "zygote_info \<Rightarrow> monitor \<Rightarrow> string res" where
  "info_text info m =
     bind_r (get_or_uninit (zi_pid info)) (\<lambda>pid.
     bind_r (get_or_uninit (zi_root_impl info)) (\<lambda>root.
     case zi_modules info of
       Uninit \<Rightarrow> Inl Uninit_Read
     | Null \<Rightarrow> Inl Null_Deref
     | Ptr modules \<Rightarrow>
         bind_r (if modules = [] then Inr (''Modules: N/A'' @ [NL])
                 else bind_r (module_lines modules)
                        (\<lambda>t. Inr (''Modules: '' @ show_nat (length modules) @ [NL] @ t)))
           (\<lambda>t. Inr (''Daemon process PID: '' @ show_int pid @ [NL] @ root_line root @ state_lines m @ t))))"

section \<open>The program\<close>

record world =
  w_version :: string
  w_boot :: boot
  w_events :: "event list option list"
  w_env :: inject_env
  w_tracee :: tracee
  w_sockfd :: int
  w_nsend :: int
  w_peer :: peer
  w_props :: "string \<Rightarrow> string option"
  w_malloc1 :: bool
  w_malloc2 :: bool
  w_client :: client

text \<open>What the program leaves behind, in order.\<close>

datatype effect =
    E_Killed int u32
  | E_Datagram string
  | E_Monitor monitor
  | E_Tracee tracee
  | E_Restarted sock
  | E_Printed string

text \<open>\<open>w_tracee w\<close> is the process with the given id.\<close>

definition main_trace :: "world \<Rightarrow> client \<Rightarrow> int \<Rightarrow> bool \<Rightarrow> (int \<times> effect list) res option" where
  "main_trace w c pid restart =
     (case (if restart then bind_r (ZygoteRestart (w_peer w) c) (\<lambda>(s, c'). Inr [E_Restarted s]) else Inr []) of
        Inl f \<Rightarrow> Some (Inl f)
      | Inr effs \<Rightarrow>
          (case trace_zygote ((w_env w)\<lparr>ie_tmp_path := GetTmpPath c\<rparr>) (w_tracee w) of
             None \<Rightarrow> None
           | Some (Inl f) \<Rightarrow> Some (Inl f)
           | Some (Inr (ok, t)) \<Rightarrow>
               if ok
               then Some (Inr (0, effs @ [E_Tracee t, E_Printed (''[ReZygisk]: Tracing '' @ show_int pid @ ''...'' @ [NL])]))
               else Some (Inr (1, effs @ [E_Tracee t, E_Killed (to_int32 pid) SIGKILL]))))"

definition main_ctl :: "world \<Rightarrow> Command \<Rightarrow> int \<times> effect list" where
  "main_ctl w cmd =
     (case send_control_command cmd (w_sockfd w) (w_nsend w) of (r, d) \<Rightarrow>
        (if r = -1 then 1 else 0,
         (if w_sockfd w = -1 then [] else [E_Datagram d]) @
         [E_Printed (if r = -1 then ''[ReZygisk]: Failed to send the command, is the daemon running?'' @ [NL]
                     else ''[ReZygisk]: command sent'' @ [NL])]))"

definition usage_text :: string where
  "usage_text = concat (map (\<lambda>l. l @ [NL])
     [''Available commands:'', '' - monitor'', '' - trace <pid> [--restart]'', '' - ctl <start|stop|exit>'',
      '' - version: Shows the version of ReZygisk.'',
      '' - info: Shows information about the created daemon/injection.'', [],
      ''<...>: Obligatory'', ''[...]: Optional''])"

definition banner :: "world \<Rightarrow> effect" where
  "banner w = E_Printed (''The ReZygisk Tracer '' @ w_version w @ [NL, NL])"

definition run_command :: "world \<Rightarrow> client \<Rightarrow> string \<Rightarrow> tracer_cmd \<Rightarrow> (int \<times> effect list) res option" where
  "run_command w c argv0 cmd =
     (case cmd of
        Cmd_Monitor \<Rightarrow>
          (case init_monitor (w_boot w) (w_events w) monitor_init of
             None \<Rightarrow> None
           | Some r \<Rightarrow>
               Some (bind_r r (\<lambda>m. Inr (0, [E_Monitor m, E_Printed (''[ReZygisk]: Started monitoring...'' @ [NL])]))))
      | Cmd_Trace pid restart \<Rightarrow> main_trace w c pid restart
      | Cmd_Ctl command \<Rightarrow> Some (Inr (main_ctl w command))
      | Cmd_Ctl_Usage \<Rightarrow>
          Some (Inr (1, [E_Printed (''[ReZygisk]: Usage: '' @ argv0 @ '' ctl <start|stop|exit>'' @ [NL])]))
      | Cmd_Version \<Rightarrow> Some (Inr (0, []))
      | Cmd_Info \<Rightarrow>
          Some (bind_r (GetInfo (w_peer w) (w_props w) (w_malloc1 w) (w_malloc2 w) zygote_info_uninit c)
            (\<lambda>(info, c'). bind_r (info_text info monitor_init) (\<lambda>t. Inr (0, [E_Printed t]))))
      | Cmd_Usage \<Rightarrow> Some (Inr (1, [E_Printed usage_text])))"

definition main :: "world \<Rightarrow> string list \<Rightarrow> (int \<times> effect list) res option" where
  "main w argv =
     (let c = Init ''/data/adb/rezygisk'' (w_client w) in
      case parse_command argv of
        Inl f \<Rightarrow> Some (Inl f)
      | Inr cmd \<Rightarrow>
          (case run_command w c (argv ! 0) cmd of
             None \<Rightarrow> None
           | Some r \<Rightarrow> Some (bind_r r (\<lambda>(code, effs). Inr (code, banner w # effs)))))"

text \<open>A world for examples: one module, APatch, and a tracee that cannot be seized.\<close>

definition sample_daemon :: daemon where
  "sample_daemon = \<lparr>dn_root = \<lparr>rq_impl = APatch, rq_granted_root = \<lambda>u. False, rq_should_umount = \<lambda>u. False,
     rq_is_manager = \<lambda>u. False\<rparr>, dn_modules = [\<lparr>dm_name = ''lsp'', dm_lib_fd = 7\<rparr>], dn_pid = 99,
     dn_companion = \<lambda>_. True, dn_module_dir = \<lambda>_. None\<rparr>"

definition sample_world :: "bool list \<Rightarrow> world" where
  "sample_world cs =
     \<lparr>w_version = ''v1'', w_boot = \<lparr>b_tmp = ''/t'', b_prop = None, b_sock_fd = 3, b_bind_ok = True, b_mask_ok = True,
        b_signal_fd = 4\<rparr>, w_events = [],
      w_env = \<lparr>ie_arch = X86_64, ie_lib_path = [], ie_tmp_path = [], ie_maps = [], ie_local_maps = [],
        ie_dl = \<lambda>_. None\<rparr>,
      w_tracee = \<lparr>t_mem = \<lambda>_. None, t_regs = \<lparr>r_sp = 0, r_ip = 0, r_arg = \<lambda>_. 0, r_lr = 0, r_ax = 0\<rparr>,
        t_runs = [], t_ok = [False], t_log = []\<rparr>,
      w_sockfd = 5, w_nsend = 4,
      w_peer = \<lparr>daemon_reply = handle_daemon_action sample_daemon, read_plan = [Intr], write_plan = []\<rparr>,
      w_props = \<lambda>_. None, w_malloc1 = True, w_malloc2 = True,
      w_client = \<lparr>tmp_path = [], open_fds = [], next_fd = 3, connects = cs, sleeps = 0\<rparr>\<rparr>"

section \<open>Properties\<close>

text \<open>C24: \<open>ctl\<close> with one of its three words makes a running monitor handle exactly that command: what the command
  line sends is what the monitor's socket handler takes for the command.\<close>

theorem ctl_reaches_monitor:
  assumes "(arg, c) \<in> {(''start'', START), (''stop'', STOP), (''exit'', EXIT)}" and "w_sockfd w \<noteq> -1" and "w_nsend w = 4"
  shows "\<exists>d. main w [prog, ''ctl'', arg] =
      Some (Inr (0, [banner w, E_Datagram d, E_Printed (''[ReZygisk]: command sent'' @ [NL])])) \<and>
    socket_HandleEvent [Rx_Dgram d] m = Some (handle_command c 0 [] m)"
proof -
  have b: "bare c" using assms(1) by (auto simp: bare_def)
  have p: "parse_command [prog, ''ctl'', arg] = Inr (Cmd_Ctl c)" using assms(1) by (auto simp: parse_command_def)
  have "handle_all [Rx_Dgram (enc_u32 (Command_u32 c))] m = handle_command c 0 [] m"
    unfolding handle_bare [OF b] by (cases "handle_command c 0 [] m") auto
  then have "socket_HandleEvent [Rx_Dgram (enc_u32 (Command_u32 c))] m = Some (handle_command c 0 [] m)"
    unfolding socket_HandleEvent_reference using peek_size_bare [OF b] by (simp split: sum.split)
  then show ?thesis using assms(2,3) by (simp add: main_def run_command_def p main_ctl_def send_control_command_def)
qed

theorem ctl_reaches_monitor_witness:
  "\<exists>d. main (sample_world []) [''tracer'', ''ctl'', ''stop''] = Some (Inr (0, [banner (sample_world []), E_Datagram d,
      E_Printed (''[ReZygisk]: command sent'' @ [NL])])) \<and>
    socket_HandleEvent [Rx_Dgram d] monitor_init = Some (handle_command STOP 0 [] monitor_init)"
  using ctl_reaches_monitor [of "''stop''" STOP "sample_world []" "''tracer''" monitor_init]
  by (simp add: sample_world_def)

text \<open>\<open>ctl\<close> without its argument reads through the null pointer behind the arguments.\<close>

lemma ctl_without_argument: "main w [prog, ''ctl''] = Some (Inl Null_Deref)"
  by (simp add: main_def parse_command_def)

text \<open>\<open>info\<close> reads uninitialised fields whenever the daemon cannot be reached.\<close>

lemma info_without_daemon:
  assumes "connects (w_client w) = []" and "next_fd (w_client w) \<ge> 0"
  shows "main w [prog, ''info''] = Some (Inl Uninit_Read)"
proof -
  define c where "c = Init ''/data/adb/rezygisk'' (w_client w)"
  have "\<exists>c1. Connect 1 c = Inr (-1, c1)"
    using assms by (simp add: Connect_def open_fd_def c_def Init_def c_str_def kCPSocketName_def)
  then obtain c1 where "GetInfo (w_peer w) (w_props w) (w_malloc1 w) (w_malloc2 w) zygote_info_uninit c =
      Inr (zygote_info_uninit\<lparr>zi_running := Some False\<rparr>, c1)"
    by (auto simp: GetInfo_def)
  then show ?thesis unfolding main_def run_command_def c_def [symmetric]
    by (simp add: parse_command_def info_text_def get_or_uninit_def zygote_info_uninit_def)
qed

lemma info_without_daemon_witness: "main (sample_world []) [''tracer'', ''info''] = Some (Inl Uninit_Read)"
  using info_without_daemon [of "sample_world []" "''tracer''"] by (simp add: sample_world_def)

lemma module_lines_all: "module_lines (map Some names) = Inr (concat (map (\<lambda>n. '' - '' @ n @ [NL]) names))"
  by (induction names) (simp_all add: get_or_uninit_def)

text \<open>With a daemon that answers, \<open>info\<close> prints the daemon's process id, root implementation and the names of its
  modules.  The lines between them come from the statics of the process that prints them, not from the
  monitor: whatever the system is doing they say that no daemon runs and nothing is injected.\<close>

lemma info_end_to_end:
  assumes "serves d (w_peer w)" and "connects (w_client w) \<noteq> []" and "hd (connects (w_client w))"
    and "next_fd (w_client w) \<ge> 0" and "root_flag (rq_impl (dn_root d)) \<noteq> None"
    and "length (dn_modules d) < 2 ^ 64 - 1" and "\<forall>m \<in> set (dn_modules d). fit_string (dm_name m)"
    and "map (module_display_name (w_props w) \<circ> dm_name) (dn_modules d) = map Some names"
    and "w_malloc1 w" and "w_malloc2 w"
  shows "main w [prog, ''info''] = Some (Inr (0, [banner w, E_Printed (
    ''Daemon process PID: '' @ show_int (sint (dn_pid d)) @ [NL] @ root_line (zygote_root (rq_impl (dn_root d))) @
    ''Daemon64 running: 0'' @ [NL] @ ''Zygote64 injected: no'' @ [NL] @ ''Tracing state: TRACING'' @ [NL] @
    (if names = [] then ''Modules: N/A'' @ [NL]
     else ''Modules: '' @ show_nat (length names) @ [NL] @ concat (map (\<lambda>n. '' - '' @ n @ [NL]) names)))]))"
proof -
  define c where "c = Init ''/data/adb/rezygisk'' (w_client w)"
  have r: "reachable_daemon c" using assms(2-4) by (simp add: reachable_daemon_def c_def Init_def)
  have s: "state_lines monitor_init = ''Daemon64 running: 0'' @ [NL] @ ''Zygote64 injected: no'' @ [NL] @
      ''Tracing state: TRACING'' @ [NL]"
    by (simp add: state_lines_def monitor_init_def Status_init_def)
  have p: "parse_command [prog, ''info''] = Inr Cmd_Info" by (simp add: parse_command_def)
  obtain c' where "GetInfo (w_peer w) (w_props w) (w_malloc1 w) (w_malloc2 w) zygote_info_uninit c =
      Inr (\<lparr>zi_modules = Ptr (map Some names), zi_root_impl = Some (zygote_root (rq_impl (dn_root d))),
            zi_pid = Some (sint (dn_pid d)), zi_running = Some True\<rparr>, c')"
    using GetInfo_end_to_end [OF assms(1) r assms(5-7), of "w_props w" zygote_info_uninit] assms(8-10) by auto
  then show ?thesis unfolding main_def run_command_def c_def [symmetric]
    by (simp add: p info_text_def get_or_uninit_def module_lines_all s)
qed

lemma info_end_to_end_witness:
  "main (sample_world [True]) [''tracer'', ''info''] = Some (Inr (0, [banner (sample_world [True]), E_Printed (
    ''Daemon process PID: 99'' @ [NL] @ ''Root implementation: APatch'' @ [NL] @ ''Daemon64 running: 0'' @ [NL] @
    ''Zygote64 injected: no'' @ [NL] @ ''Tracing state: TRACING'' @ [NL] @ ''Modules: 1'' @ [NL] @ '' - lsp'' @ [NL])]))"
proof -
  have n: "show_int 99 = ''99''" "show_nat (Suc 0) = ''1''" by code_simp+
  show ?thesis
    using info_end_to_end [of sample_daemon "sample_world [True]" "[''lsp'']" "''tracer''"] n
    by (simp add: sample_world_def sample_daemon_def serves_def fit_string_def root_flag_def zygote_root_def
        module_display_name_def root_line_def)
qed

text \<open>A \<open>trace\<close> whose process id is not a number ends, when the tracing fails, in a \<open>SIGKILL\<close> for the tracer's own
  process group (process id 0).\<close>

lemma trace_of_no_number_kills_group:
  assumes "trace_zygote ((w_env w)\<lparr>ie_tmp_path := ''/data/adb/rezygisk''\<rparr>) (w_tracee w) = Some (Inr (False, t))" and "is_digit 10 (hd s) = False" and "s \<noteq> []"
    and "hd s \<notin> {CHR ''-'', CHR ''+''}" and "\<not> isspace (hd s)"
  shows "main w [prog, ''trace'', s] = Some (Inr (1, [banner w, E_Tracee t, E_Killed 0 SIGKILL]))"
proof -
  have d: "hd s \<noteq> CHR ''0''" using assms(2) by (auto simp: is_digit_def digit_val_def Let_def)
  obtain c cs where s: "s = c # cs" using assms(3) by (cases s) auto
  have "strtol s = 0"
    using assms d unfolding strtol_def Let_def s by (simp add: num_of_def)
  then show ?thesis
    using assms(1) by (simp add: main_def run_command_def parse_command_def main_trace_def to_int32_def Init_def GetTmpPath_def)
qed

lemma trace_of_no_number_kills_group_witness:
  "\<exists>t. main (sample_world []) [''tracer'', ''trace'', ''zygote''] =
     Some (Inr (1, [banner (sample_world []), E_Tracee t, E_Killed 0 SIGKILL]))"
proof -
  have "trace_zygote ((w_env (sample_world []))\<lparr>ie_tmp_path := ''/data/adb/rezygisk''\<rparr>) (w_tracee (sample_world [])) =
      Some (Inr (False, (w_tracee (sample_world []))\<lparr>t_ok := []\<rparr>))"
    by (simp add: trace_zygote_def sample_world_def next_ok_def)
  from trace_of_no_number_kills_group [OF this, of "''zygote''" "''tracer''"] show ?thesis
    by (auto simp: is_digit_def digit_val_def isspace_def)
qed

end
