(* ===== verification/Zygisk_Module.thy ===== *)
theory Zygisk_Module
  imports Daemon_Client
begin

text \<open>
  Modules as the injected library sees them: the ABI structures and \<open>ZygiskModule\<close> of
  \<open>loader/src/injector/module.hpp\<close> with the members that \<open>loader/src/injector/hook.cpp\<close> defines, and the module's
  side of the ABI in \<open>loader/src/include/api.hpp\<close>.
\<close>

section \<open>The function table\<close>

text \<open>The functions the library puts into a table.  The two pairs with a version serve the same slot in
  different versions of the ABI.\<close>

datatype api_fn =
    Fn_hookJniNativeMethods | Fn_pltHookRegister_v1 | Fn_pltHookExclude | Fn_pltHookCommit_v1
  | Fn_connectCompanion | Fn_setOption | Fn_getModuleDir | Fn_getFlags
  | Fn_pltHookRegister_v4 | Fn_exemptFd | Fn_pltHookCommit_v4

text \<open>C types as far as the signatures need them.\<close>

datatype cty = T_void | T_bool | T_int | T_u32 | T_env | T_cstr | T_methods | T_ptr | T_pptr | T_module | T_option
  | T_dev | T_ino

type_synonym csig = "cty list \<times> cty"

definition fn_sig :: "api_fn \<Rightarrow> csig" where
  "fn_sig f =
     (case f of
        Fn_hookJniNativeMethods \<Rightarrow> ([T_env, T_cstr, T_methods, T_int], T_void)
      | Fn_pltHookRegister_v1 \<Rightarrow> ([T_cstr, T_cstr, T_ptr, T_pptr], T_void)
      | Fn_pltHookExclude \<Rightarrow> ([T_cstr, T_cstr], T_void)
      | Fn_pltHookCommit_v1 \<Rightarrow> ([], T_bool)
      | Fn_connectCompanion \<Rightarrow> ([T_module], T_int)
      | Fn_setOption \<Rightarrow> ([T_module, T_option], T_void)
      | Fn_getModuleDir \<Rightarrow> ([T_module], T_int)
      | Fn_getFlags \<Rightarrow> ([T_module], T_u32)
      | Fn_pltHookRegister_v4 \<Rightarrow> ([T_dev, T_ino, T_cstr, T_ptr, T_pptr], T_void)
      | Fn_exemptFd \<Rightarrow> ([T_int], T_bool)
      | Fn_pltHookCommit_v4 \<Rightarrow> ([], T_bool))"

text \<open>The members behind the base of the table, as \<open>api_abi_v1\<close>, \<open>api_abi_v2\<close> and \<open>api_abi_v4\<close> declare them.\<close>

definition api_abi_v1 :: "csig list" where
  "api_abi_v1 =
     [([T_env, T_cstr, T_methods, T_int], T_void), ([T_cstr, T_cstr, T_ptr, T_pptr], T_void),
      ([T_cstr, T_cstr], T_void), ([], T_bool), ([T_module], T_int), ([T_module, T_option], T_void)]"

definition api_abi_v2 :: "csig list" where
  "api_abi_v2 = api_abi_v1 @ [([T_module], T_int), ([T_module], T_u32)]"

definition api_abi_v4 :: "csig list" where
  "api_abi_v4 =
     [([T_env, T_cstr, T_methods, T_int], T_void), ([T_dev, T_ino, T_cstr, T_ptr, T_pptr], T_void),
      ([T_int], T_bool), ([], T_bool), ([T_module], T_int), ([T_module, T_option], T_void),
      ([T_module], T_int), ([T_module], T_u32)]"

definition abi_of :: "int \<Rightarrow> csig list" where
  "abi_of v = (if v \<le> 0 then [] else if v = 1 then api_abi_v1 else if v \<le> 3 then api_abi_v2 else api_abi_v4)"

text \<open>\<open>union ApiTable\<close>: \<open>registerModule\<close> of the base and the eight slots.\<close>

record api_table =
  t_register :: bool
  t_slots :: "api_fn option list"

definition null_table :: api_table where
  "null_table = \<lparr>t_register = False, t_slots = replicate 8 None\<rparr>"

section \<open>Modules\<close>

definition ZYGISK_API_VERSION :: int where "ZYGISK_API_VERSION = 4"

text \<open>What a module hands over: its \<open>module_abi_v1\<close>, with which of its pointers are set.\<close>

record module_abi =
  abi_version :: int
  abi_impl :: bool
  abi_preApp :: bool
  abi_postApp :: bool
  abi_preServer :: bool
  abi_postServer :: bool

record zmodule =
  m_id :: nat
  m_unload :: bool
  m_handle :: nat
  m_api :: api_table
  m_mod :: "module_abi option"

definition ZygiskModule :: "nat \<Rightarrow> nat \<Rightarrow> zmodule" where
  "ZygiskModule i handle =
     \<lparr>m_id = i, m_unload = False, m_handle = handle, m_api = null_table\<lparr>t_register := True\<rparr>, m_mod = None\<rparr>"

definition fill_api :: "int \<Rightarrow> api_fn option list \<Rightarrow> api_fn option list" where
  "fill_api api_version s =
     (let s1 = (if api_version \<ge> 1
                then s[0 := Some Fn_hookJniNativeMethods, 1 := Some Fn_pltHookRegister_v1, 2 := Some Fn_pltHookExclude,
                       3 := Some Fn_pltHookCommit_v1, 4 := Some Fn_connectCompanion, 5 := Some Fn_setOption]
                else s);
          s2 = (if api_version \<ge> 2 then s1[6 := Some Fn_getModuleDir, 7 := Some Fn_getFlags] else s1)
      in if api_version \<ge> 4
         then s2[3 := Some Fn_pltHookCommit_v4, 1 := Some Fn_pltHookRegister_v4, 2 := Some Fn_exemptFd]
         else s2)"

text \<open>\<open>api_given\<close>: the module passed a table (its own), not a null pointer.\<close>

definition RegisterModuleImpl :: "bool \<Rightarrow> module_abi option \<Rightarrow> zmodule \<Rightarrow> bool \<times> zmodule" where
  "RegisterModuleImpl api_given module m =
     (case (if api_given then module else None) of
        None \<Rightarrow> (False, m)
      | Some abi \<Rightarrow>
          if abi_version abi > ZYGISK_API_VERSION then (False, m)
          else (True, m\<lparr>m_mod := Some abi,
                        m_api := (m_api m)\<lparr>t_slots := fill_api (abi_version abi) (t_slots (m_api m))\<rparr>\<rparr>))"

definition valid :: "zmodule \<Rightarrow> bool" where
  "valid m =
     (case m_mod m of
        None \<Rightarrow> False
      | Some abi \<Rightarrow>
          abi_version abi \<in> {1, 2, 3, 4} \<and> abi_impl abi \<and> abi_preApp abi \<and> abi_postApp abi \<and>
          abi_preServer abi \<and> abi_postServer abi)"

text \<open>\<open>call_app\<close>: the struct that the module's function gets, or no call.  Calling through a null pointer, and
  reading the version through one, is a fault.\<close>

datatype app_args = Args_v1 | Args_v5

definition call_app :: "(module_abi \<Rightarrow> bool) \<Rightarrow> zmodule \<Rightarrow> app_args option res" where
  "call_app method m =
     (case m_mod m of
        None \<Rightarrow> Inl Null_Deref
      | Some abi \<Rightarrow>
          if abi_version abi \<in> {1, 2} then if method abi then Inr (Some Args_v1) else Inl Null_Deref
          else if abi_version abi \<in> {3, 4, 5} then if method abi then Inr (Some Args_v5) else Inl Null_Deref
          else Inr None)"

definition call_server :: "(module_abi \<Rightarrow> bool) \<Rightarrow> zmodule \<Rightarrow> unit res" where
  "call_server method m =
     (case m_mod m of None \<Rightarrow> Inl Null_Deref | Some abi \<Rightarrow> if method abi then Inr () else Inl Null_Deref)"

definition clearApi :: "zmodule \<Rightarrow> zmodule" where
  "clearApi m = m\<lparr>m_api := null_table\<rparr>"

section \<open>The module's side\<close>

text \<open>\<open>entry_impl\<close> registers a \<open>module_abi\<close> that has every function and runs the module's \<open>onLoad\<close> only if
  that succeeds.  The version is the one of the header the module was built with.\<close>

definition module_abi_of :: "int \<Rightarrow> module_abi" where
  "module_abi_of v = \<lparr>abi_version = v, abi_impl = True, abi_preApp = True, abi_postApp = True, abi_preServer = True,
     abi_postServer = True\<rparr>"

definition entry_impl :: "int \<Rightarrow> zmodule \<Rightarrow> bool \<times> zmodule" where
  "entry_impl v m = RegisterModuleImpl True (Some (module_abi_of v)) m"

section \<open>Properties\<close>

lemma fill_api_null:
  "v \<le> 4 \<Longrightarrow> fill_api v (replicate 8 None) =
     (if v \<le> 0 then replicate 8 None
      else if v = 1 then map Some [Fn_hookJniNativeMethods, Fn_pltHookRegister_v1, Fn_pltHookExclude,
        Fn_pltHookCommit_v1, Fn_connectCompanion, Fn_setOption] @ [None, None]
      else if v \<le> 3 then map Some [Fn_hookJniNativeMethods, Fn_pltHookRegister_v1, Fn_pltHookExclude,
        Fn_pltHookCommit_v1, Fn_connectCompanion, Fn_setOption, Fn_getModuleDir, Fn_getFlags]
      else map Some [Fn_hookJniNativeMethods, Fn_pltHookRegister_v4, Fn_exemptFd,
        Fn_pltHookCommit_v4, Fn_connectCompanion, Fn_setOption, Fn_getModuleDir, Fn_getFlags])"
  by (auto simp: fill_api_def Let_def numeral_eq_Suc)

text \<open>C27: A module that registers with a version the library supports finds in every slot of the table, as its
  version of the ABI declares it, a function of exactly the declared signature, and nothing in the slots its
  version does not have.\<close>

theorem api_table_typed:
  assumes "RegisterModuleImpl True (Some abi) (ZygiskModule i h) = (True, m)"
  shows "abi_version abi \<le> 4 \<and>
    map (map_option fn_sig) (t_slots (m_api m)) =
      map Some (abi_of (abi_version abi)) @ replicate (8 - length (abi_of (abi_version abi))) None"
proof -
  have v: "abi_version abi \<le> 4"
    and s: "t_slots (m_api m) = fill_api (abi_version abi) (replicate 8 None)"
    using assms by (auto simp: RegisterModuleImpl_def ZygiskModule_def null_table_def ZYGISK_API_VERSION_def
        split: if_splits)
  show ?thesis
    using v unfolding s fill_api_null [OF v]
    by (auto simp: fn_sig_def abi_of_def api_abi_v1_def api_abi_v2_def api_abi_v4_def numeral_eq_Suc)
qed

theorem api_table_typed_witness:
  "\<exists>m. RegisterModuleImpl True (Some (module_abi_of 2)) (ZygiskModule 0 7) = (True, m) \<and>
     map (map_option fn_sig) (t_slots (m_api m)) = map Some api_abi_v2"
proof -
  have "fst (RegisterModuleImpl True (Some (module_abi_of 2)) (ZygiskModule 0 7))"
    by (simp add: RegisterModuleImpl_def module_abi_of_def ZYGISK_API_VERSION_def)
  then obtain m where m: "RegisterModuleImpl True (Some (module_abi_of 2)) (ZygiskModule 0 7) = (True, m)"
    by (metis prod.collapse)
  from api_table_typed [OF m] m show ?thesis
    by (auto simp: module_abi_of_def abi_of_def api_abi_v2_def api_abi_v1_def)
qed

lemma entry_impl_supported:
  "v \<le> 4 \<Longrightarrow> 1 \<le> v \<Longrightarrow> \<exists>m'. entry_impl v m = (True, m') \<and> valid m' \<and> m_id m' = m_id m"
  by (auto simp: entry_impl_def RegisterModuleImpl_def module_abi_of_def ZYGISK_API_VERSION_def valid_def)

lemma entry_impl_newer: "v > 4 \<Longrightarrow> entry_impl v m = (False, m)"
  by (simp add: entry_impl_def RegisterModuleImpl_def module_abi_of_def ZYGISK_API_VERSION_def)

end
