(* ===== verification/Mount_Info.thy ===== *)
theory Mount_Info
  imports Misc_Utils Proc_Maps
begin

text \<open>
  Reading files line by line and the parser of \<open>/proc/self/mountinfo\<close>: \<open>loader/src/common/files.cpp\<close> and
  \<open>loader/src/include/files.hpp\<close>.  The kernel's side, the text it prints for a mount, is \<open>kn_line\<close>.
\<close>

section \<open>Lines of a file\<close>

text \<open>The callback sees the line up to its first NUL and says whether to go on.\<close>

definition readline_view :: "bool \<Rightarrow> string \<Rightarrow> string" where
  "readline_view trim line =
     c_str (if trim
            then dropWhile (\<lambda>c. c = CHR '' '')
                   (rev (dropWhile (\<lambda>c. c \<in> {CHR 0x0A, CHR 0x0D, CHR '' ''}) (rev line)))
            else line)"

fun file_readline :: "bool \<Rightarrow> (string \<Rightarrow> 's \<Rightarrow> (bool \<times> 's) res) \<Rightarrow> string list \<Rightarrow> 's \<Rightarrow> 's res" where
  "file_readline trim fn [] s = Inr s"
| "file_readline trim fn (line # ls) s =
     bind_r (fn (readline_view trim line) s) (\<lambda>(go, s'). if go then file_readline trim fn ls s' else Inr s')"

text \<open>\<^term>\<open>None\<close> is a file that cannot be opened.\<close>

definition file_readline_path ::
  "bool \<Rightarrow> (string \<Rightarrow> 's \<Rightarrow> (bool \<times> 's) res) \<Rightarrow> string option \<Rightarrow> 's \<Rightarrow> 's res" where
  "file_readline_path trim fn file s =
     (case file of None \<Rightarrow> Inr s | Some text \<Rightarrow> file_readline trim fn (lines_of text) s)"

section \<open>Mounts\<close>

record mount_info =
  mnt_id :: u32
  mnt_parent :: u32
  mnt_device :: u64
  mnt_root :: string
  mnt_target :: string
  mnt_vfs_option :: string
  mnt_shared :: u32
  mnt_master :: u32
  mnt_propagate_from :: u32
  mnt_type :: string
  mnt_source :: string
  mnt_fs_option :: string

definition mount_format :: "directive list" where
  "mount_format =
     [Uint 10, Ws, Uint 10, Ws, Uint 10, Lit (CHR '':''), Uint 10, Ws,
      Pos, Skip_Text, Pos, Ws, Pos, Skip_Text, Pos, Ws, Pos, Skip_Text, Pos,
      Pos, Skip_Not (CHR ''-''), Pos, Ws, Lit (CHR ''-''), Ws,
      Pos, Skip_Text, Pos, Ws, Pos, Skip_Text, Pos, Ws, Pos, Skip_Text, Pos]"

fun out_nums :: "out list \<Rightarrow> nat list" where
  "out_nums [] = []"
| "out_nums (Num n # os) = n # out_nums os"
| "out_nums (_ # os) = out_nums os"

fun out_positions :: "out list \<Rightarrow> nat list" where
  "out_positions [] = []"
| "out_positions (At n # os) = n # out_positions os"
| "out_positions (_ # os) = out_positions os"

text \<open>\<open>line.substr(start, end - start)\<close>: a negative length is a huge \<open>size_t\<close>.\<close>

definition view_sub :: "string \<Rightarrow> int \<Rightarrow> int \<Rightarrow> string" where
  "view_sub s st en = (if en < st then drop (nat st) s else take (nat (en - st)) (drop (nat st) s))"

definition optional_value :: "string \<Rightarrow> string \<Rightarrow> u32" where
  "optional_value key optional =
     (case str_find optional key 0 of
        None \<Rightarrow> 0
      | Some pos \<Rightarrow> word_of_int (parse_int (drop (pos + length key) optional)))"

text \<open>The positions that \<open>%n\<close> has not stored keep their initial 0, the four numbers have no initial value.
  \<open>substr\<close> throws behind the end of the line.\<close>

definition parse_mount_line :: "string \<Rightarrow> mount_info res" where
  "parse_mount_line line =
     (let os = sscanf mount_format 0 line;
          ns = out_nums os;
          ps = out_positions os;
          at = (\<lambda>k. if k < length ps then int (ps ! k) else 0);
          optional_start = at 6 + 1;
          optional_end = at 7 - 1;
          optional = view_sub line optional_start
            (optional_start + (if optional_end - optional_start > 0 then optional_end - optional_start else 0))
      in if optional_start > int (length line) then Inl Out_Of_Bounds
         else if length ns < 4 then Inl Uninit_Read
         else Inr \<lparr>mnt_id = word_of_nat (ns ! 0), mnt_parent = word_of_nat (ns ! 1),
                   mnt_device = makedev (word_of_nat (ns ! 2 mod 2 ^ 32)) (word_of_nat (ns ! 3 mod 2 ^ 32)),
                   mnt_root = view_sub line (at 0) (at 1), mnt_target = view_sub line (at 2) (at 3),
                   mnt_vfs_option = view_sub line (at 4) (at 5),
                   mnt_shared = optional_value ''shared:'' optional,
                   mnt_master = optional_value ''master:'' optional,
                   mnt_propagate_from = optional_value ''propagate_from:'' optional,
                   mnt_type = view_sub line (at 8) (at 9), mnt_source = view_sub line (at 10) (at 11),
                   mnt_fs_option = view_sub line (at 12) (at 13)\<rparr>)"

definition parse_mount_info :: "string option \<Rightarrow> mount_info list res" where
  "parse_mount_info file =
     file_readline_path False
       (\<lambda>line result. bind_r (parse_mount_line line) (\<lambda>m. Inr (True, result @ [m]))) file []"

section \<open>The kernel's text of a mount\<close>

record kmount =
  kn_id :: nat
  kn_parent :: nat
  kn_major :: nat
  kn_minor :: nat
  kn_root :: string
  kn_target :: string
  kn_vfs :: string
  kn_shared :: "nat option"
  kn_master :: "nat option"
  kn_from :: "nat option"
  kn_unbindable :: bool
  kn_type :: string
  kn_source :: string
  kn_fs :: string

definition opt_field :: "string \<Rightarrow> nat option \<Rightarrow> string list" where
  "opt_field key v = (case v of None \<Rightarrow> [] | Some n \<Rightarrow> [key @ show_nat n])"

definition kn_fields :: "kmount \<Rightarrow> string list" where
  "kn_fields k = opt_field ''shared:'' (kn_shared k) @ opt_field ''master:'' (kn_master k) @
     opt_field ''propagate_from:'' (kn_from k) @ (if kn_unbindable k then [''unbindable''] else [])"

definition kn_line :: "kmount \<Rightarrow> string" where
  "kn_line k =
     show_nat (kn_id k) @ '' '' @ show_nat (kn_parent k) @ '' '' @ show_nat (kn_major k) @ '':'' @
     show_nat (kn_minor k) @ '' '' @ kn_root k @ '' '' @ kn_target k @ '' '' @ kn_vfs k @
     concat (map (\<lambda>f. CHR '' '' # f) (kn_fields k)) @ '' - '' @ kn_type k @ '' '' @ kn_source k @ '' '' @ kn_fs k"

definition word_ok :: "string \<Rightarrow> bool" where
  "word_ok w \<longleftrightarrow> w \<noteq> [] \<and> list_all (\<lambda>c. \<not> isspace c \<and> c \<noteq> NUL) w"

definition small :: "nat option \<Rightarrow> bool" where
  "small v \<longleftrightarrow> (case v of None \<Rightarrow> True | Some n \<Rightarrow> n < 2 ^ 31)"

definition kn_ok :: "kmount \<Rightarrow> bool" where
  "kn_ok k \<longleftrightarrow> kn_id k < 2 ^ 32 \<and> kn_parent k < 2 ^ 32 \<and> kn_major k < 2 ^ 32 \<and> kn_minor k < 2 ^ 32 \<and>
     list_all word_ok [kn_root k, kn_target k, kn_vfs k, kn_type k, kn_source k, kn_fs k] \<and>
     list_all small [kn_shared k, kn_master k, kn_from k]"

text \<open>What the parser makes of an optional field: its number if it is the last of the line's optional fields,
  and otherwise the \<open>-1\<close> that \<open>parse_int\<close> returns for a number with text behind it.\<close>

definition opt_read :: "nat option \<Rightarrow> bool \<Rightarrow> u32" where
  "opt_read v is_last = (case v of None \<Rightarrow> 0 | Some n \<Rightarrow> if is_last then word_of_nat n else - 1)"

definition kn_info :: "kmount \<Rightarrow> mount_info" where
  "kn_info k =
     \<lparr>mnt_id = word_of_nat (kn_id k), mnt_parent = word_of_nat (kn_parent k),
      mnt_device = makedev (word_of_nat (kn_major k)) (word_of_nat (kn_minor k)),
      mnt_root = kn_root k, mnt_target = kn_target k, mnt_vfs_option = kn_vfs k,
      mnt_shared = opt_read (kn_shared k) (kn_master k = None \<and> kn_from k = None \<and> \<not> kn_unbindable k),
      mnt_master = opt_read (kn_master k) (kn_from k = None \<and> \<not> kn_unbindable k),
      mnt_propagate_from = opt_read (kn_from k) (\<not> kn_unbindable k),
      mnt_type = kn_type k, mnt_source = kn_source k, mnt_fs_option = kn_fs k\<rparr>"

section \<open>Optional fields\<close>

lemma optional_value_Nil: "d \<noteq> [] \<Longrightarrow> optional_value d [] = 0"
  by (simp add: optional_value_def str_find_def)

lemma optional_value_Cons:
  "optional_value d (c # s) =
     (if prefix d (c # s) then word_of_int (parse_int (drop (length d) (c # s))) else optional_value d s)"
  by (simp add: optional_value_def str_find_def option.case_eq_if option.map_sel)

lemma optional_value_skip:
  "d \<noteq> [] \<Longrightarrow> \<forall>c \<in> set p. c \<noteq> hd d \<Longrightarrow> optional_value d (p @ s) = optional_value d s"
proof (induction p)
  case (Cons c p)
  then have "\<not> prefix d (c # p @ s)" by (cases d) auto
  then show ?case using Cons by (simp add: optional_value_Cons)
qed simp

lemma show_nat_letters: "c \<in> set (show_nat n) \<Longrightarrow> c \<noteq> CHR ''s'' \<and> c \<noteq> CHR ''m'' \<and> c \<noteq> CHR ''p''"
  using show_nat_digits [of c n] by auto

lemma optional_value_number:
  "d0 \<in> {CHR ''s'', CHR ''m'', CHR ''p''} \<Longrightarrow> optional_value (d0 # ds) (show_nat n @ s) = optional_value (d0 # ds) s"
  by (rule optional_value_skip) (use show_nat_letters in auto)

lemma optional_value_number_end:
  "d0 \<in> {CHR ''s'', CHR ''m'', CHR ''p''} \<Longrightarrow> optional_value (d0 # ds) (show_nat n) = 0"
  using optional_value_number [of d0 ds n "[]"] by (simp add: optional_value_Nil)

lemmas optional_value_simps =
  optional_value_Nil optional_value_Cons optional_value_number optional_value_number_end

lemma parse_int_loop_text: "\<forall>c \<in> set ds. digit c \<Longrightarrow> parse_int_loop v (ds @ CHR '' '' # r) = - 1"
  by (induction ds arbitrary: v) (auto simp: digit_def)

lemma parse_int_more [simp]: "parse_int (show_nat n @ CHR '' '' # r) = - 1"
  using parse_int_loop_text [OF digit_show_nat, of 0 n r] by (simp add: parse_int_def)

lemma optional_fields:
  assumes "kn_ok k"
  defines "optional \<equiv> tl (concat (map (\<lambda>f. CHR '' '' # f) (kn_fields k)))"
  shows "optional_value ''shared:'' optional = mnt_shared (kn_info k)"
    and "optional_value ''master:'' optional = mnt_master (kn_info k)"
    and "optional_value ''propagate_from:'' optional = mnt_propagate_from (kn_info k)"
  using assms(1) unfolding optional_def
  by (cases "kn_shared k"; cases "kn_master k"; cases "kn_from k"; cases "kn_unbindable k";
      simp add: kn_fields_def opt_field_def kn_info_def opt_read_def optional_value_simps parse_int_show_nat
        kn_ok_def small_def)+

section \<open>Reading the kernel's lines\<close>

lemma word_ok_split:
  assumes "word_ok w" and "r = [] \<or> isspace (hd r)"
  shows "takeWhile isspace (w @ r) = []" and "takeWhile (\<lambda>c. \<not> isspace c) (w @ r) = w" and "w \<noteq> []"
proof -
  obtain c cs where w: "w = c # cs" using assms(1) by (cases w) (auto simp: word_ok_def)
  have ns: "\<forall>c \<in> set w. \<not> isspace c" using assms(1) by (auto simp: word_ok_def list_all_iff)
  show "takeWhile isspace (w @ r) = []" "w \<noteq> []" using ns w by auto
  have "takeWhile (\<lambda>c. \<not> isspace c) r = []" using assms(2) by (cases r) auto
  then show "takeWhile (\<lambda>c. \<not> isspace c) (w @ r) = w" using ns by (subst takeWhile_append2) auto
qed

lemma sscanf_skip_word:
  "word_ok w \<Longrightarrow> r = [] \<or> isspace (hd r) \<Longrightarrow>
   sscanf (Pos # Skip_Text # Pos # fs) pos (w @ r) = At pos # At (pos + length w) # sscanf fs (pos + length w) r"
  using word_ok_split [of w r] by (simp add: Let_def)

lemma sscanf_word:
  assumes "word_ok w" and "t \<noteq> []" and "\<not> isspace (hd t)"
  shows "sscanf (Pos # Skip_Text # Pos # Ws # fs) pos (w @ CHR '' '' # t) =
    At pos # At (pos + length w) # sscanf fs (pos + length w + 1) t"
  using sscanf_skip_word [OF assms(1), of "CHR '' '' # t" "Ws # fs" pos] sscanf_ws [OF assms(2,3)]
  by (simp add: isspace_def [of "CHR '' ''"] del: sscanf.simps)

lemma sscanf_optional:
  assumes "CHR ''-'' \<notin> set opts" and "t \<noteq> []" and "\<not> isspace (hd t)"
  shows "sscanf (Pos # Skip_Not (CHR ''-'') # Pos # Ws # Lit (CHR ''-'') # Ws # fs) pos (opts @ '' - '' @ t) =
    At pos # At (pos + length opts + 1) # sscanf fs (pos + length opts + 3) t"
proof -
  have tw: "takeWhile (\<lambda>x. x \<noteq> CHR ''-'') (opts @ '' - '' @ t) = opts @ '' ''"
    using assms(1) by (subst takeWhile_append2) auto
  have d: "drop (length opts + 1) (opts @ '' - '' @ t) = ''- '' @ t" by simp
  have "sscanf (Skip_Not (CHR ''-'') # Pos # Ws # Lit (CHR ''-'') # Ws # fs) pos (opts @ '' - '' @ t) =
      sscanf (Pos # Ws # Lit (CHR ''-'') # Ws # fs) (pos + (length opts + 1)) (''- '' @ t)"
    by (simp only: sscanf.simps(7) tw Let_def length_append list.size d) (simp add: Let_def)
  also have "\<dots> = At (pos + length opts + 1) # sscanf (Ws # fs) (pos + length opts + 2) (CHR '' '' # t)"
    by (simp add: isspace_def [of "CHR ''-''"] del: sscanf.simps(3)) (simp add: isspace_def [of "CHR ''-''"])
  finally show ?thesis using sscanf_ws [OF assms(2,3), of fs "pos + length opts + 2"]
    by (simp add: numeral_eq_Suc del: sscanf.simps(3,7))
qed

lemma word_ok_hd: "word_ok w \<Longrightarrow> w @ r \<noteq> [] \<and> \<not> isspace (hd (w @ r))"
  by (cases w) (auto simp: word_ok_def)

lemma view_sub_mid: "view_sub (p @ w @ r) (int (length p)) (int (length p + length w)) = w"
  by (simp add: view_sub_def)

lemma opts_no_dash: "CHR ''-'' \<notin> set (concat (map (\<lambda>f. CHR '' '' # f) (kn_fields k)))"
proof -
  have "CHR ''-'' \<notin> set (show_nat n)" for n using show_nat_digits [of "CHR ''-''" n] by auto
  then show ?thesis by (auto simp: kn_fields_def opt_field_def split: option.splits)
qed

lemma sscanf_number:
  "n < 2 ^ 64 \<Longrightarrow> t \<noteq> [] \<Longrightarrow> \<not> isspace (hd t) \<Longrightarrow>
   sscanf (Uint 10 # Ws # fs) pos (show_nat n @ CHR '' '' # t) = Num n # sscanf fs (pos + length (show_nat n) + 1) t"
  using sscanf_dec [of n "CHR '' '' # t" "Ws # fs" pos] sscanf_ws [of t fs "pos + length (show_nat n)"]
  by (simp add: separators del: sscanf.simps)

lemma sscanf_kn_numbers:
  assumes "kn_ok k" and "t \<noteq> []" and "\<not> isspace (hd t)"
  defines "p \<equiv> show_nat (kn_id k) @ '' '' @ show_nat (kn_parent k) @ '' '' @ show_nat (kn_major k) @ '':'' @
    show_nat (kn_minor k) @ '' ''"
  shows "sscanf (Uint 10 # Ws # Uint 10 # Ws # Uint 10 # Lit (CHR '':'') # Uint 10 # Ws # fs) 0 (p @ t) =
    Num (kn_id k) # Num (kn_parent k) # Num (kn_major k) # Num (kn_minor k) # sscanf fs (length p) t"
proof -
  have b: "kn_id k < 2 ^ 64" "kn_parent k < 2 ^ 64" "kn_major k < 2 ^ 64" "kn_minor k < 2 ^ 64"
    using assms(1) by (auto simp: kn_ok_def)
  have c: "\<not> is_digit 10 (CHR '':'')" by (simp add: is_digit_def digit_val_def Let_def)
  show ?thesis
    unfolding p_def using assms(2,3)
    by (simp add: sscanf_number sscanf_dec b [simplified] c hd_show_nat add.assoc del: sscanf.simps(3,4))
qed

lemma sscanf_kn_line:
  assumes "kn_ok k"
  defines "opts \<equiv> concat (map (\<lambda>f. CHR '' '' # f) (kn_fields k))"
  defines "a0 \<equiv> length (show_nat (kn_id k) @ '' '' @ show_nat (kn_parent k) @ '' '' @ show_nat (kn_major k) @ '':'' @
    show_nat (kn_minor k) @ '' '')"
  defines "a1 \<equiv> a0 + length (kn_root k) + 1"
  defines "a2 \<equiv> a1 + length (kn_target k) + 1"
  defines "o1 \<equiv> a2 + length (kn_vfs k)"
  defines "a3 \<equiv> o1 + length opts + 3"
  defines "a4 \<equiv> a3 + length (kn_type k) + 1"
  defines "a5 \<equiv> a4 + length (kn_source k) + 1"
  shows "sscanf mount_format 0 (kn_line k @ [CHR 0x0A]) =
    [Num (kn_id k), Num (kn_parent k), Num (kn_major k), Num (kn_minor k),
     At a0, At (a0 + length (kn_root k)), At a1, At (a1 + length (kn_target k)), At a2, At o1, At o1,
     At (o1 + length opts + 1), At a3, At (a3 + length (kn_type k)), At a4, At (a4 + length (kn_source k)),
     At a5, At (a5 + length (kn_fs k))]"
proof -
  have w: "word_ok (kn_root k)" "word_ok (kn_target k)" "word_ok (kn_vfs k)" "word_ok (kn_type k)"
    "word_ok (kn_source k)" "word_ok (kn_fs k)"
    using assms(1) by (simp_all add: kn_ok_def)
  let ?p = "show_nat (kn_id k) @ '' '' @ show_nat (kn_parent k) @ '' '' @ show_nat (kn_major k) @ '':'' @
    show_nat (kn_minor k) @ '' ''"
  let ?t5 = "kn_fs k @ [CHR 0x0A]"
  let ?t4 = "kn_source k @ CHR '' '' # ?t5"
  let ?t3 = "kn_type k @ CHR '' '' # ?t4"
  let ?o = "opts @ '' - '' @ ?t3"
  let ?t2 = "kn_vfs k @ ?o"
  let ?t1 = "kn_target k @ CHR '' '' # ?t2"
  let ?t0 = "kn_root k @ CHR '' '' # ?t1"
  have h0: "?t0 \<noteq> [] \<and> \<not> isspace (hd ?t0)" by (rule word_ok_hd [OF w(1)])
  have h1: "?t1 \<noteq> [] \<and> \<not> isspace (hd ?t1)" by (rule word_ok_hd [OF w(2)])
  have h2: "?t2 \<noteq> [] \<and> \<not> isspace (hd ?t2)" by (rule word_ok_hd [OF w(3)])
  have h3: "?t3 \<noteq> [] \<and> \<not> isspace (hd ?t3)" by (rule word_ok_hd [OF w(4)])
  have h4: "?t4 \<noteq> [] \<and> \<not> isspace (hd ?t4)" by (rule word_ok_hd [OF w(5)])
  have h5: "?t5 \<noteq> [] \<and> \<not> isspace (hd ?t5)" by (rule word_ok_hd [OF w(6)])
  note h = conjunct1 [OF h0] conjunct2 [OF h0] conjunct1 [OF h1] conjunct2 [OF h1] conjunct1 [OF h2] conjunct2 [OF h2]
    conjunct1 [OF h3] conjunct2 [OF h3] conjunct1 [OF h4] conjunct2 [OF h4] conjunct1 [OF h5] conjunct2 [OF h5]
  have o: "isspace (hd ?o)" unfolding opts_def by (cases "kn_fields k") (simp_all add: isspace_def)
  have nd: "CHR ''-'' \<notin> set opts" unfolding opts_def by (rule opts_no_dash)
  have sp: "[CHR 0x0A] = [] \<or> isspace (hd [CHR 0x0A])" by (simp add: isspace_def)
  have "sscanf [] (a5 + length (kn_fs k)) [CHR 0x0A] = []" by simp
  with sscanf_skip_word [OF w(6) sp, of "[]" a5]
  have fin: "sscanf [Pos, Skip_Text, Pos] a5 ?t5 = [At a5, At (a5 + length (kn_fs k))]" by (simp only:)
  have line: "kn_line k @ [CHR 0x0A] = ?p @ ?t0" by (simp add: kn_line_def opts_def)
  have a: "length ?p = a0" by (simp only: a0_def)
  show ?thesis
    unfolding line mount_format_def sscanf_kn_numbers [OF assms(1) h(1,2)] a
    unfolding sscanf_word [OF w(1) h(3,4)] a1_def [symmetric] sscanf_word [OF w(2) h(5,6)] a2_def [symmetric]
      sscanf_skip_word [OF w(3) disjI2 [OF o]] o1_def [symmetric] sscanf_optional [OF nd h(7,8)] a3_def [symmetric]
      sscanf_word [OF w(4) h(9,10)] a4_def [symmetric] sscanf_word [OF w(5) h(11,12)] a5_def [symmetric]
    by (simp only: fin)
qed

lemma view_sub_field: "\<exists>r. s = p @ w @ r \<Longrightarrow> view_sub s (int (length p)) (int (length p + length w)) = w"
  using view_sub_mid by blast

text \<open>The optional fields, with the blank in front of them left out; the view is empty if there are none.\<close>

lemma view_optional:
  assumes "line = q @ opts @ rest" and "opts = [] \<or> opts = CHR '' '' # tl opts"
  shows "view_sub line (int (length q) + 1) (int (length q) + 1 +
      (if int (length q + length opts + 1) - 1 - (int (length q) + 1) > 0
       then int (length q + length opts + 1) - 1 - (int (length q) + 1) else 0)) = tl opts"
  using assms(2)
proof
  assume "opts = CHR '' '' # tl opts"
  then obtain os where os: "opts = CHR '' '' # os" by blast
  have "\<exists>r. line = (q @ '' '') @ os @ r" unfolding assms(1) os by simp
  from view_sub_field [OF this] have "view_sub line (int (length q) + 1) (int (length q) + 1 + int (length os)) = os"
    by (simp add: ac_simps)
  then show ?thesis unfolding os by (simp add: view_sub_def)
qed (simp add: view_sub_def)

lemma parse_kn_line:
  assumes "kn_ok k"
  shows "parse_mount_line (kn_line k @ [CHR 0x0A]) = Inr (kn_info k)"
proof -
  define opts where "opts = concat (map (\<lambda>f. CHR '' '' # f) (kn_fields k))"
  define p0 where "p0 = show_nat (kn_id k) @ '' '' @ show_nat (kn_parent k) @ '' '' @ show_nat (kn_major k) @ '':'' @
    show_nat (kn_minor k) @ '' ''"
  define p1 where "p1 = p0 @ kn_root k @ '' ''"
  define p2 where "p2 = p1 @ kn_target k @ '' ''"
  define q where "q = p2 @ kn_vfs k"
  define p3 where "p3 = q @ opts @ '' - ''"
  define p4 where "p4 = p3 @ kn_type k @ '' ''"
  define p5 where "p5 = p4 @ kn_source k @ '' ''"
  define line where "line = kn_line k @ [CHR 0x0A]"
  note pd = p0_def p1_def p2_def q_def p3_def p4_def p5_def
  have lens: "length p1 = length p0 + length (kn_root k) + 1" "length p2 = length p1 + length (kn_target k) + 1"
    "length q = length p2 + length (kn_vfs k)" "length p3 = length q + length opts + 3"
    "length p4 = length p3 + length (kn_type k) + 1" "length p5 = length p4 + length (kn_source k) + 1"
    by (simp_all add: p1_def p2_def q_def p3_def p4_def p5_def)
  have sc: "sscanf mount_format 0 line =
    [Num (kn_id k), Num (kn_parent k), Num (kn_major k), Num (kn_minor k),
     At (length p0), At (length p0 + length (kn_root k)), At (length p1), At (length p1 + length (kn_target k)),
     At (length p2), At (length p2 + length (kn_vfs k)), At (length q), At (length q + length opts + 1),
     At (length p3), At (length p3 + length (kn_type k)), At (length p4), At (length p4 + length (kn_source k)),
     At (length p5), At (length p5 + length (kn_fs k))]"
    unfolding line_def sscanf_kn_line [OF assms] lens opts_def [symmetric] p0_def [symmetric] by (simp only:)
  have ln: "\<exists>r. line = p0 @ kn_root k @ r"
    "\<exists>r. line = p1 @ kn_target k @ r"
    "\<exists>r. line = p2 @ kn_vfs k @ r"
    "\<exists>r. line = p3 @ kn_type k @ r"
    "\<exists>r. line = p4 @ kn_source k @ r"
    "\<exists>r. line = p5 @ kn_fs k @ r"
    by (simp_all add: line_def kn_line_def opts_def pd)
  have fs: "view_sub line (int (length p0)) (int (length p0 + length (kn_root k))) = kn_root k"
    "view_sub line (int (length p1)) (int (length p1 + length (kn_target k))) = kn_target k"
    "view_sub line (int (length p2)) (int (length p2 + length (kn_vfs k))) = kn_vfs k"
    "view_sub line (int (length p3)) (int (length p3 + length (kn_type k))) = kn_type k"
    "view_sub line (int (length p4)) (int (length p4 + length (kn_source k))) = kn_source k"
    "view_sub line (int (length p5)) (int (length p5 + length (kn_fs k))) = kn_fs k"
    by (rule view_sub_field, rule ln)+
  have lq: "line = q @ opts @ '' - '' @ kn_type k @ '' '' @ kn_source k @ '' '' @ kn_fs k @ [CHR 0x0A]"
    by (simp add: line_def kn_line_def opts_def pd)
  have bound: "int (length q) + 1 \<le> int (length line)" by (simp add: lq)
  have "opts = [] \<or> opts = CHR '' '' # tl opts" by (cases "kn_fields k") (simp_all add: opts_def)
  note op = view_optional [OF lq this]
  have m: "kn_major k mod 2 ^ 32 = kn_major k" "kn_minor k mod 2 ^ 32 = kn_minor k" using assms by (simp_all add: kn_ok_def)
  show ?thesis
    unfolding parse_mount_line_def line_def [symmetric] sc
    using bound fs op optional_fields [OF assms, folded opts_def]
    by (cases "Suc 0 < length opts") (simp_all add: m [simplified] kn_info_def Let_def)
qed

lemma kn_line_chars:
  assumes "kn_ok k"
  shows "CHR 0x0A \<notin> set (kn_line k)" and "NUL \<notin> set (kn_line k)"
proof -
  have d: "c \<notin> set (show_nat n)" if "c = CHR 0x0A \<or> c = NUL" for c n
    using that show_nat_digits [of c n] by auto
  have f: "c \<notin> set (concat (map (\<lambda>f. CHR '' '' # f) (kn_fields k)))" if "c = CHR 0x0A \<or> c = NUL" for c
    using that d [OF that]
    by (cases "kn_shared k"; cases "kn_master k"; cases "kn_from k") (auto simp: kn_fields_def opt_field_def)
  have w: "c \<notin> set x" if "c = CHR 0x0A \<or> c = NUL" "word_ok x" for c x
    using that by (auto simp: word_ok_def list_all_iff isspace_def)
  have "c \<notin> set (kn_line k)" if c: "c = CHR 0x0A \<or> c = NUL" for c
    unfolding kn_line_def set_append using assms d [OF c] f [OF c] w [OF c] c by (auto simp: kn_ok_def simp del: set_concat)
  then show "CHR 0x0A \<notin> set (kn_line k)" "NUL \<notin> set (kn_line k)" by auto
qed

lemma file_readline_collect:
  assumes "\<And>x. x \<in> set xs \<Longrightarrow> readline_view trim (g x) = g x \<and> f (g x) = Inr (h x)"
  shows "file_readline trim (\<lambda>line r. bind_r (f line) (\<lambda>m. Inr (True, r @ [m]))) (map g xs) r0 = Inr (r0 @ map h xs)"
  using assms by (induction xs arbitrary: r0) simp_all

lemma parse_kernel_line:
  assumes "kn_ok k"
  shows "parse_mount_info (Some (kn_line k @ [CHR 0x0A])) = Inr [kn_info k]"
  using lines_of_line [OF kn_line_chars(1) [OF assms], of "[]"] parse_kn_line [OF assms] kn_line_chars(2) [OF assms]
  by (simp add: parse_mount_info_def file_readline_path_def readline_view_def c_str_no_nul)

text \<open>\<open>parse_mount_info\<close> reads the mountinfo file as the kernel writes it: every mount in order with its ids, device,
  root, target, options, type and source.  Of the optional fields it gets the number only where no other
  optional field follows: a mount that is both shared and a slave is reported with \<open>shared\<close> \<open>0xffffffff\<close>.\<close>

lemma parse_mount_info_roundtrip:
  assumes "list_all kn_ok ks"
  shows "parse_mount_info (Some (concat (map (\<lambda>k. kn_line k @ [CHR 0x0A]) ks))) = Inr (map kn_info ks)"
proof -
  have ok: "kn_ok k" if "k \<in> set ks" for k using assms that by (simp add: list_all_iff)
  have "lines_of (concat (map (\<lambda>l. l @ [CHR 0x0A]) (map kn_line ks))) = map (\<lambda>l. l @ [CHR 0x0A]) (map kn_line ks)"
    by (rule lines_of_concat) (use ok kn_line_chars(1) in auto)
  then have l: "lines_of (concat (map (\<lambda>k. kn_line k @ [CHR 0x0A]) ks)) = map (\<lambda>k. kn_line k @ [CHR 0x0A]) ks"
    by (simp add: comp_def)
  have "readline_view False (kn_line k @ [CHR 0x0A]) = kn_line k @ [CHR 0x0A] \<and>
      parse_mount_line (kn_line k @ [CHR 0x0A]) = Inr (kn_info k)" if "k \<in> set ks" for k
    using parse_kn_line [OF ok [OF that]] kn_line_chars(2) [OF ok [OF that]]
    by (simp add: readline_view_def c_str_no_nul)
  from file_readline_collect [of ks False "\<lambda>k. kn_line k @ [CHR 0x0A]" parse_mount_line kn_info "[]", OF this]
  show ?thesis by (simp add: parse_mount_info_def file_readline_path_def l)
qed

lemma parse_mount_info_roundtrip_witness:
  "\<exists>m. parse_mount_info (Some (concat (map (\<lambda>k. kn_line k @ [CHR 0x0A])
     [\<lparr>kn_id = 36, kn_parent = 35, kn_major = 98, kn_minor = 0, kn_root = ''/'', kn_target = ''/data/adb/modules'',
       kn_vfs = ''rw,noatime'', kn_shared = Some 5, kn_master = Some 7, kn_from = None, kn_unbindable = False,
       kn_type = ''ext4'', kn_source = ''/dev/block/loop4'', kn_fs = ''rw''\<rparr>]))) = Inr [m] \<and>
   mnt_target m = ''/data/adb/modules'' \<and> mnt_source m = ''/dev/block/loop4'' \<and> mnt_shared m = 0xffffffff \<and>
   mnt_master m = 7"
  using parse_mount_info_roundtrip [of "[\<lparr>kn_id = 36, kn_parent = 35, kn_major = 98, kn_minor = 0, kn_root = ''/'',
       kn_target = ''/data/adb/modules'', kn_vfs = ''rw,noatime'', kn_shared = Some 5, kn_master = Some 7,
       kn_from = None, kn_unbindable = False, kn_type = ''ext4'', kn_source = ''/dev/block/loop4'', kn_fs = ''rw''\<rparr>]"]
  by (simp add: kn_ok_def word_ok_def small_def isspace_def kn_info_def opt_read_def)

end
