(* ===== verification/Zygisk_Context.thy ===== *)
theory Zygisk_Context
  imports Zygisk_Module Mount_Info
begin

text \<open>
  The context of one specialisation, \<open>ZygiskContext\<close> of \<open>loader/src/injector/hook.cpp\<close>: the process' state with the
  current context in it, the module API as the modules' code reaches it, the forks with their bookkeeping of
  descriptors, and the runs of the modules before and after the specialisation.

  A module's own code enters as the list of what it does in each of its functions; the system, the JNI and
  the libraries the code calls (\<open>lsplt\<close>, \<open>regex\<close>, the dynamic linker) are the record \<open>zenv\<close>.
\<close>

section \<open>State\<close>

datatype zflag =
    POST_SPECIALIZE | APP_FORK_AND_SPECIALIZE | APP_SPECIALIZE | SERVER_FORK_AND_SPECIALIZE | DO_REVERT_UNMOUNT
  | SKIP_FD_SANITIZATION

definition MAX_FD_SIZE :: int where "MAX_FD_SIZE = 1024"

definition PRIVATE_MASK :: u32 where "PRIVATE_MASK = PROCESS_IS_SYS_UI"

text \<open>\<open>RegisterInfo\<close> and \<open>IgnoreInfo\<close>; function pointers and the places for backups are numbers, 0 is null.\<close>

record register_info =
  ri_regex :: string
  ri_symbol :: string
  ri_callback :: nat
  ri_backup :: nat

record ignore_info =
  ii_regex :: string
  ii_symbol :: string

datatype ls_call = LS_Register u64 u64 string nat nat | LS_Commit

text \<open>What a module can do: call a function of its table, or use descriptors of its own.\<close>

datatype api_call =
    Call_connectCompanion
  | Call_getModuleDir
  | Call_setOption int
  | Call_getFlags
  | Call_exemptFd fd
  | Call_pltHookRegister u64 u64 "string option" nat nat
  | Call_pltHookRegister_v1 "string option" "string option" nat nat
  | Call_pltHookExclude "string option" "string option"
  | Call_pltHookCommit

datatype act =
    Act_register bool "module_abi option"
  | Act_api api_call
  | Act_open fd
  | Act_close fd

record mcode =
  mc_entry :: "act list"
  mc_preApp :: "act list"
  mc_postApp :: "act list"
  mc_preServer :: "act list"
  mc_postServer :: "act list"

datatype zev =
    Z_OnLoad nat | Z_PreApp nat app_args | Z_PostApp nat app_args | Z_PreServer nat | Z_PostServer nat
  | Z_Dlclose nat
  | Z_Bool bool | Z_Fd fd | Z_Flags u32

text \<open>Calls on the memory map: \<open>mmap\<close> of an anonymous copy, \<open>mprotect\<close>, the copying, \<open>mremap\<close> over the
  original, the name of an anonymous mapping, and the clearing of a name in the linker's list.\<close>

datatype mem_op =
    M_Mmap u64 | M_Mprotect u64 u64 u8 | M_Copy u64 u64 | M_Mremap u64 u64 | M_Name u64 u64 string | M_Nullify string

record zygote =
  z_client :: client
  z_log :: "zev list"
  z_ls :: "ls_call list"
  z_mem :: "mem_op list"
  g_ctx :: bool
  sigchld_blocked :: bool
  logfd :: fd
  zygisk_enabled :: bool
  c_process :: "string option"
  c_modules :: "(zmodule \<times> mcode) list"
  c_pid :: int
  c_flags :: "zflag set"
  c_info_flags :: u32
  c_allowed_fds :: "fd set"
  c_exempted_fds :: "fd list"
  c_register_info :: "register_info list"
  c_ignore_info :: "ignore_info list"
  c_uid :: u32
  c_fds_to_ignore :: "fd list option option"   \<comment> \<open>the pointer, and the array it points at\<close>

record zenv =
  e_peer :: peer
  e_fork :: int                          \<comment> \<open>what \<open>fork\<close> returns\<close>
  e_opendir1 :: bool
  e_opendir2 :: bool
  e_new_array :: bool                    \<comment> \<open>\<open>NewIntArray\<close> succeeds\<close>
  e_dlopen :: "fd \<Rightarrow> nat"
  e_dlsym :: "nat \<Rightarrow> mcode option"       \<comment> \<open>\<open>zygisk_module_entry\<close> of a library, with the module's code\<close>
  e_nice_name :: "string option"
  e_maps :: "map_info list"
  e_regcomp :: "string \<Rightarrow> bool"
  e_regexec :: "string \<Rightarrow> string \<Rightarrow> bool"
  e_commit :: "ls_call list \<Rightarrow> bool"
  e_solist :: bool                       \<comment> \<open>\<open>SoList::Initialize\<close>\<close>
  e_maps_post :: "map_info list"
  e_maps_anon :: "map_info list"
  e_mmap :: "nat \<Rightarrow> bool"               \<comment> \<open>whether the n-th \<open>mmap\<close> succeeds\<close>
  e_rand :: "nat \<Rightarrow> nat"                \<comment> \<open>\<open>rand()\<close> after the seeding with the time\<close>

abbreviation z_fds :: "zygote \<Rightarrow> fd list" where
  "z_fds z \<equiv> open_fds (z_client z)"

definition zlog :: "zev \<Rightarrow> zygote \<Rightarrow> zygote" where
  "zlog ev z = z\<lparr>z_log := z_log z @ [ev]\<rparr>"

definition z_close :: "fd \<Rightarrow> zygote \<Rightarrow> zygote" where
  "z_close f z = z\<lparr>z_client := close_fd f (z_client z)\<rparr>"

definition z_open :: "fd \<Rightarrow> zygote \<Rightarrow> zygote" where
  "z_open f z = z\<lparr>z_client := (z_client z)\<lparr>open_fds := f # z_fds z\<rparr>\<rparr>"

definition set_flag :: "zflag \<Rightarrow> zygote \<Rightarrow> zygote" where
  "set_flag f z = z\<lparr>c_flags := insert f (c_flags z)\<rparr>"

text \<open>\<open>logging::setfd\<close>.\<close>

definition setfd :: "fd \<Rightarrow> zygote \<Rightarrow> zygote" where
  "setfd f z = (z_close (logfd z) z)\<lparr>logfd := f\<rparr>"

text \<open>The constructor.\<close>

definition ZygiskContext :: "u32 \<Rightarrow> fd list option option \<Rightarrow> zygote \<Rightarrow> zygote" where
  "ZygiskContext uid fds_to_ignore z =
     z\<lparr>g_ctx := True, c_process := None, c_modules := [], c_pid := -1, c_flags := {}, c_info_flags := 0,
       c_allowed_fds := {}, c_exempted_fds := [], c_register_info := [], c_ignore_info := [], c_uid := uid,
       c_fds_to_ignore := fds_to_ignore\<rparr>"

section \<open>The API behind the table\<close>

definition plt_hook_register ::
  "zenv \<Rightarrow> string option \<Rightarrow> string option \<Rightarrow> nat \<Rightarrow> nat \<Rightarrow> zygote \<Rightarrow> zygote" where
  "plt_hook_register e regex symbol fn backup z =
     (case (regex, symbol) of
        (Some re, Some s) \<Rightarrow>
          if fn = 0 \<or> \<not> e_regcomp e re then z
          else z\<lparr>c_register_info := c_register_info z @
                   [\<lparr>ri_regex = re, ri_symbol = s, ri_callback = fn, ri_backup = backup\<rparr>]\<rparr>
      | _ \<Rightarrow> z)"

definition plt_hook_exclude :: "zenv \<Rightarrow> string option \<Rightarrow> string option \<Rightarrow> zygote \<Rightarrow> zygote" where
  "plt_hook_exclude e regex symbol z =
     (case regex of
        None \<Rightarrow> z
      | Some re \<Rightarrow>
          if \<not> e_regcomp e re then z
          else z\<lparr>c_ignore_info := c_ignore_info z @
                   [\<lparr>ii_regex = re, ii_symbol = (case symbol of None \<Rightarrow> [] | Some s \<Rightarrow> s)\<rparr>]\<rparr>)"

definition RegisterHook :: "u64 \<Rightarrow> u64 \<Rightarrow> string \<Rightarrow> nat \<Rightarrow> nat \<Rightarrow> zygote \<Rightarrow> zygote" where
  "RegisterHook dev inode symbol callback backup z =
     z\<lparr>z_ls := z_ls z @ [LS_Register dev inode symbol callback backup]\<rparr>"

fun ignored :: "zenv \<Rightarrow> string \<Rightarrow> string \<Rightarrow> ignore_info list \<Rightarrow> bool" where
  "ignored e path symbol [] = False"
| "ignored e path symbol (ign # is) =
     (if \<not> e_regexec e (ii_regex ign) path then ignored e path symbol is
      else if ii_symbol ign = [] \<or> ii_symbol ign = symbol then True
      else ignored e path symbol is)"

fun process_map :: "zenv \<Rightarrow> map_info \<Rightarrow> register_info list \<Rightarrow> zygote \<Rightarrow> zygote" where
  "process_map e m [] z = z"
| "process_map e m (reg # rs) z =
     (if \<not> e_regexec e (ri_regex reg) (mi_path m) then process_map e m rs z
      else if ignored e (mi_path m) (ri_symbol reg) (c_ignore_info z) then process_map e m rs z
      else process_map e m rs
             (RegisterHook (mi_dev m) (mi_inode m) (ri_symbol reg) (ri_callback reg) (ri_backup reg) z))"

fun process_maps :: "zenv \<Rightarrow> map_info list \<Rightarrow> zygote \<Rightarrow> zygote" where
  "process_maps e [] z = z"
| "process_maps e (m # ms) z =
     (if mi_offset m \<noteq> 0 \<or> \<not> mi_private m \<or> mi_perms m AND PROT_READ = 0 then process_maps e ms z
      else process_maps e ms (process_map e m (c_register_info z) z))"

definition plt_hook_process_regex :: "zenv \<Rightarrow> zygote \<Rightarrow> zygote" where
  "plt_hook_process_regex e z = (if c_register_info z = [] then z else process_maps e (e_maps e) z)"

definition CommitHook :: "zenv \<Rightarrow> zygote \<Rightarrow> bool \<times> zygote" where
  "CommitHook e z = (e_commit e (z_ls z), z\<lparr>z_ls := z_ls z @ [LS_Commit]\<rparr>)"

definition plt_hook_commit :: "zenv \<Rightarrow> zygote \<Rightarrow> bool \<times> zygote" where
  "plt_hook_commit e z =
     CommitHook e ((plt_hook_process_regex e z)\<lparr>c_register_info := [], c_ignore_info := []\<rparr>)"

definition exempt_fd :: "fd \<Rightarrow> zygote \<Rightarrow> bool \<times> zygote" where
  "exempt_fd f z =
     (if POST_SPECIALIZE \<in> c_flags z \<or> SKIP_FD_SANITIZATION \<in> c_flags z then (True, z)
      else if APP_FORK_AND_SPECIALIZE \<notin> c_flags z then (False, z)
      else (True, z\<lparr>c_exempted_fds := c_exempted_fds z @ [f]\<rparr>))"

definition update_module :: "nat \<Rightarrow> (zmodule \<Rightarrow> zmodule) \<Rightarrow> zygote \<Rightarrow> zygote" where
  "update_module k f z =
     (if k < length (c_modules z)
      then z\<lparr>c_modules := (c_modules z)[k := (f (fst (c_modules z ! k)), snd (c_modules z ! k))]\<rparr>
      else z)"

definition setOption :: "nat \<Rightarrow> int \<Rightarrow> zygote \<Rightarrow> zygote" where
  "setOption k opt z =
     (if \<not> g_ctx z then z
      else if opt = 0 then set_flag DO_REVERT_UNMOUNT z
      else if opt = 1 then update_module k (\<lambda>m. m\<lparr>m_unload := True\<rparr>) z
      else z)"

definition getFlags :: "zygote \<Rightarrow> u32" where
  "getFlags z = (if g_ctx z then c_info_flags z AND NOT PRIVATE_MASK else 0)"

text \<open>The descriptor of the module's directory was installed by the kernel when the message came.\<close>

definition getModuleDir :: "zenv \<Rightarrow> nat \<Rightarrow> zygote \<Rightarrow> (fd \<times> zygote) res" where
  "getModuleDir e i z =
     bind_r (GetModuleDir (e_peer e) (word_of_nat i) (z_client z)) (\<lambda>(f, c).
       Inr (f, (if f \<ge> 0 then z_open f else id) (z\<lparr>z_client := c\<rparr>)))"

definition connectCompanion :: "zenv \<Rightarrow> nat \<Rightarrow> zygote \<Rightarrow> (fd \<times> zygote) res" where
  "connectCompanion e i z =
     bind_r (ConnectCompanion (e_peer e) (word_of_nat i) (z_client z)) (\<lambda>(f, c). Inr (f, z\<lparr>z_client := c\<rparr>))"

text \<open>A call through a slot of the module's table.  The module's side makes no call if the slot is null.\<close>

definition slot_of :: "api_call \<Rightarrow> nat" where
  "slot_of c =
     (case c of
        Call_pltHookRegister _ _ _ _ _ \<Rightarrow> 1 | Call_pltHookRegister_v1 _ _ _ _ \<Rightarrow> 1 | Call_pltHookExclude _ _ \<Rightarrow> 2
      | Call_exemptFd _ \<Rightarrow> 2 | Call_pltHookCommit \<Rightarrow> 3 | Call_connectCompanion \<Rightarrow> 4 | Call_setOption _ \<Rightarrow> 5
      | Call_getModuleDir \<Rightarrow> 6 | Call_getFlags \<Rightarrow> 7)"

definition invoke :: "zenv \<Rightarrow> nat \<Rightarrow> nat \<Rightarrow> api_fn \<Rightarrow> api_call \<Rightarrow> zygote \<Rightarrow> zygote res" where
  "invoke e k i f c z =
     (case (f, c) of
        (Fn_connectCompanion, Call_connectCompanion) \<Rightarrow>
          bind_r (connectCompanion e i z) (\<lambda>(r, z'). Inr (zlog (Z_Fd r) z'))
      | (Fn_getModuleDir, Call_getModuleDir) \<Rightarrow> bind_r (getModuleDir e i z) (\<lambda>(r, z'). Inr (zlog (Z_Fd r) z'))
      | (Fn_setOption, Call_setOption opt) \<Rightarrow> Inr (setOption k opt z)
      | (Fn_getFlags, Call_getFlags) \<Rightarrow> Inr (zlog (Z_Flags (getFlags z)) z)
      | (Fn_exemptFd, Call_exemptFd x) \<Rightarrow>
          (if g_ctx z then (case exempt_fd x z of (b, z') \<Rightarrow> Inr (zlog (Z_Bool b) z')) else Inr (zlog (Z_Bool False) z))
      | (Fn_pltHookRegister_v4, Call_pltHookRegister dev inode symbol fn backup) \<Rightarrow>
          (case symbol of
             None \<Rightarrow> Inr z
           | Some s \<Rightarrow> if dev = 0 \<or> inode = 0 \<or> fn = 0 then Inr z else Inr (RegisterHook dev inode s fn backup z))
      | (Fn_pltHookRegister_v1, Call_pltHookRegister_v1 regex symbol fn backup) \<Rightarrow>
          Inr (if g_ctx z then plt_hook_register e regex symbol fn backup z else z)
      | (Fn_pltHookExclude, Call_pltHookExclude regex symbol) \<Rightarrow>
          Inr (if g_ctx z then plt_hook_exclude e regex symbol z else z)
      | (Fn_pltHookCommit_v4, Call_pltHookCommit) \<Rightarrow> (case CommitHook e z of (b, z') \<Rightarrow> Inr (zlog (Z_Bool b) z'))
      | (Fn_pltHookCommit_v1, Call_pltHookCommit) \<Rightarrow>
          (if g_ctx z then (case plt_hook_commit e z of (b, z') \<Rightarrow> Inr (zlog (Z_Bool b) z'))
           else Inr (zlog (Z_Bool False) z))
      | _ \<Rightarrow> Inl Bad_Call)"

definition run_act :: "zenv \<Rightarrow> nat \<Rightarrow> act \<Rightarrow> zygote \<Rightarrow> zygote res" where
  "run_act e k a z =
     (let m = fst (c_modules z ! k) in
      case a of
        Act_register api_given module \<Rightarrow>
          if \<not> t_register (m_api m) then Inl Null_Deref
          else (case RegisterModuleImpl api_given module m of (b, m') \<Rightarrow> Inr (zlog (Z_Bool b) (update_module k (\<lambda>_. m') z)))
      | Act_api c \<Rightarrow>
          (case t_slots (m_api m) ! slot_of c of None \<Rightarrow> Inr z | Some f \<Rightarrow> invoke e k (m_id m) f c z)
      | Act_open f \<Rightarrow> Inr (z_open f z)
      | Act_close f \<Rightarrow> Inr (z_close f z))"

fun run_acts :: "zenv \<Rightarrow> nat \<Rightarrow> act list \<Rightarrow> zygote \<Rightarrow> zygote res" where
  "run_acts e k [] z = Inr z"
| "run_acts e k (a # as) z = bind_r (run_act e k a z) (run_acts e k as)"

section \<open>Forks and descriptors\<close>

text \<open>The names in \<open>/proc/self/fd\<close>, with the descriptor of the directory itself, which is the lowest free one.\<close>

definition lowest_free :: "fd list \<Rightarrow> fd" where
  "lowest_free fds = hd (filter (\<lambda>f. f \<notin> set fds) (map int [0..<Suc (length fds)]))"

definition fd_entries :: "fd list \<Rightarrow> string list" where
  "fd_entries fds = ''.'' # ''..'' # map (show_nat \<circ> nat) fds"

fun record_fds :: "string list \<Rightarrow> zygote \<Rightarrow> zygote" where
  "record_fds [] z = z"
| "record_fds (d_name # es) z =
     (let f = parse_int d_name
      in if f < 0 \<or> f \<ge> MAX_FD_SIZE then record_fds es (z_close f z)
         else record_fds es (z\<lparr>c_allowed_fds := insert f (c_allowed_fds z)\<rparr>))"

text \<open>Indexing the bitset behind its size is undefined.\<close>

definition fork_pre :: "zenv \<Rightarrow> zygote \<Rightarrow> zygote res" where
  "fork_pre e z =
     (let z1 = z\<lparr>sigchld_blocked := True, c_pid := e_fork e\<rparr>
      in if c_pid z1 \<noteq> 0 \<or> SKIP_FD_SANITIZATION \<in> c_flags z1 then Inr z1
         else if \<not> e_opendir1 e then Inl Null_Deref
         else
           (let dfd = lowest_free (z_fds z1);
                z2 = record_fds (fd_entries (dfd # z_fds z1)) (z_open dfd z1)
            in if dfd \<ge> MAX_FD_SIZE then Inl Out_Of_Bounds
               else Inr (z_close dfd (z2\<lparr>c_allowed_fds := c_allowed_fds z2 - {dfd}\<rparr>))))"

definition in_bitset :: "fd \<Rightarrow> bool" where
  "in_bitset f \<longleftrightarrow> 0 \<le> f \<and> f < MAX_FD_SIZE"

definition allow_all :: "fd list \<Rightarrow> zygote \<Rightarrow> zygote" where
  "allow_all fds z = z\<lparr>c_allowed_fds := c_allowed_fds z \<union> set (filter in_bitset fds)\<rparr>"

text \<open>\<open>update_fd_array(off)\<close>: the new array has \<open>off\<close> places in front of the exempted descriptors, which the caller
  fills with the old ones.\<close>

definition update_fd_array :: "zenv \<Rightarrow> fd list \<Rightarrow> zygote \<Rightarrow> zygote" where
  "update_fd_array e old z =
     (if c_exempted_fds z = [] \<or> \<not> e_new_array e then z
      else set_flag SKIP_FD_SANITIZATION
             ((allow_all (c_exempted_fds z) z)\<lparr>c_fds_to_ignore := Some (Some (old @ c_exempted_fds z))\<rparr>))"

fun close_forbidden :: "fd \<Rightarrow> string list \<Rightarrow> zygote \<Rightarrow> zygote" where
  "close_forbidden dfd [] z = z"
| "close_forbidden dfd (d_name # es) z =
     (let f = parse_int d_name
      in close_forbidden dfd es
           (if (f < 0 \<or> f \<ge> MAX_FD_SIZE \<or> f \<notin> c_allowed_fds z) \<and> f \<noteq> dfd then z_close f z else z))"

text \<open>The first half of \<open>sanitize_fds\<close>: the descriptors the method itself is told to ignore.\<close>

definition sanitize_array :: "zenv \<Rightarrow> zygote \<Rightarrow> zygote res" where
  "sanitize_array e z =
     (if APP_FORK_AND_SPECIALIZE \<in> c_flags z
      then (case c_fds_to_ignore z of
              None \<Rightarrow> Inl Null_Deref
            | Some None \<Rightarrow> Inr (update_fd_array e [] z)
            | Some (Some arr) \<Rightarrow> Inr (update_fd_array e arr (allow_all arr z)))
      else Inr z)"

definition sanitize_fds :: "zenv \<Rightarrow> zygote \<Rightarrow> zygote res" where
  "sanitize_fds e z =
     (if SKIP_FD_SANITIZATION \<in> c_flags z then Inr z
      else
        bind_r (sanitize_array e z) (\<lambda>z1.
             if c_pid z1 \<noteq> 0 then Inr z1
             else if \<not> e_opendir2 e then Inl Null_Deref
             else
               (let dfd = lowest_free (z_fds z1)
                in Inr (z_close dfd (close_forbidden dfd (fd_entries (dfd # z_fds z1)) (z_open dfd z1))))))"

definition fork_post :: "zygote \<Rightarrow> zygote" where
  "fork_post z = z\<lparr>sigchld_blocked := False, g_ctx := False\<rparr>"

section \<open>Running the modules\<close>

text \<open>The descriptors in the list of \<open>ReadModules\<close> are closed when the list goes out of scope, before anything else
  looks at the descriptors of the process; a library without an entry stays loaded.\<close>

fun load_modules :: "zenv \<Rightarrow> nat \<Rightarrow> (string \<times> fd) list \<Rightarrow> zygote \<Rightarrow> zygote" where
  "load_modules e i [] z = z"
| "load_modules e i ((name, memfd) # ms) z =
     (let handle = e_dlopen e memfd
      in case (if handle \<noteq> 0 then e_dlsym e handle else None) of
           None \<Rightarrow> load_modules e (Suc i) ms z
         | Some code \<Rightarrow> load_modules e (Suc i) ms (z\<lparr>c_modules := c_modules z @ [(ZygiskModule i handle, code)]\<rparr>))"

definition run_pre :: "zenv \<Rightarrow> nat \<Rightarrow> zygote \<Rightarrow> zygote res" where
  "run_pre e k z =
     (let code = snd (c_modules z ! k); i = m_id (fst (c_modules z ! k)) in
      bind_r (run_acts e k (mc_entry code) (zlog (Z_OnLoad i) z)) (\<lambda>z1.
        let m = fst (c_modules z1 ! k) in
        if APP_SPECIALIZE \<in> c_flags z1
        then bind_r (call_app abi_preApp m) (\<lambda>r.
               case r of None \<Rightarrow> Inr z1 | Some args \<Rightarrow> run_acts e k (mc_preApp code) (zlog (Z_PreApp i args) z1))
        else if SERVER_FORK_AND_SPECIALIZE \<in> c_flags z1
        then bind_r (call_server abi_preServer m) (\<lambda>_. run_acts e k (mc_preServer code) (zlog (Z_PreServer i) z1))
        else Inr z1))"

fun for_modules :: "(nat \<Rightarrow> zygote \<Rightarrow> zygote res) \<Rightarrow> nat list \<Rightarrow> zygote \<Rightarrow> zygote res" where
  "for_modules f [] z = Inr z"
| "for_modules f (k # ks) z = bind_r (f k z) (for_modules f ks)"

definition run_modules_pre :: "zenv \<Rightarrow> zygote \<Rightarrow> zygote res" where
  "run_modules_pre e z =
     bind_r (ReadModules (e_peer e) (z_client z)) (\<lambda>(ms, c).
       let z1 = load_modules e 0 ms (z\<lparr>z_client := c\<rparr>)
       in for_modules (run_pre e) [0..<length (c_modules z1)] z1)"

definition tryUnload :: "zmodule \<Rightarrow> zygote \<Rightarrow> zygote" where
  "tryUnload m z = (if m_unload m then zlog (Z_Dlclose (m_handle m)) z else z)"

definition run_post :: "zenv \<Rightarrow> nat \<Rightarrow> zygote \<Rightarrow> zygote res" where
  "run_post e k z =
     (let m = fst (c_modules z ! k); code = snd (c_modules z ! k); i = m_id m in
      bind_r (if APP_SPECIALIZE \<in> c_flags z
              then bind_r (call_app abi_postApp m) (\<lambda>r.
                     case r of None \<Rightarrow> Inr z | Some args \<Rightarrow> run_acts e k (mc_postApp code) (zlog (Z_PostApp i args) z))
              else if SERVER_FORK_AND_SPECIALIZE \<in> c_flags z
              then bind_r (call_server abi_postServer m) (\<lambda>_. run_acts e k (mc_postServer code) (zlog (Z_PostServer i) z))
              else Inr z)
        (\<lambda>z1. Inr (tryUnload (fst (c_modules z1 ! k)) z1)))"

section \<open>Hiding the library\<close>

definition mem :: "mem_op list \<Rightarrow> zygote \<Rightarrow> zygote" where
  "mem ops z = z\<lparr>z_mem := z_mem z @ ops\<rparr>"

definition mmap_count :: "mem_op list \<Rightarrow> nat" where
  "mmap_count ops = length (filter (\<lambda>op. case op of M_Mmap _ \<Rightarrow> True | _ \<Rightarrow> False) ops)"

text \<open>The calls that put the copy in the place of a mapping.\<close>

definition replace_ops :: "map_info \<Rightarrow> mem_op list" where
  "replace_ops info =
     (let size = mi_end info - mi_start info
      in (if mi_perms info AND PROT_READ = 0 then [M_Mprotect (mi_start info) size PROT_READ] else []) @
         [M_Copy (mi_start info) size, M_Mremap (mi_start info) size,
          M_Mprotect (mi_start info) size (mi_perms info)])"

fun remap_jit_cache :: "zenv \<Rightarrow> map_info list \<Rightarrow> zygote \<Rightarrow> zygote" where
  "remap_jit_cache e [] z = z"
| "remap_jit_cache e (info # ms) z =
     (if find_sub ''jit-cache-zygisk'' (c_str (mi_path info)) = None then remap_jit_cache e ms z
      else
        (let ok = e_mmap e (mmap_count (z_mem z)); z1 = mem [M_Mmap (mi_end info - mi_start info)] z
         in remap_jit_cache e ms (if ok then mem (replace_ops info) z1 else z1)))"

definition charset :: string where
  "charset = ''abcdefghijklmnopqrstuvwxyzABCDEFGHIJKLMNOPQRSTUVWXYZ0123456789''"

definition generateRandomString :: "zenv \<Rightarrow> nat \<Rightarrow> string" where
  "generateRandomString e len = map (\<lambda>i. charset ! (e_rand e i mod length charset)) [0..<len]"

text \<open>Here the result of \<open>mmap\<close> is not checked: a failure makes the copying write to an invalid address.\<close>

fun randomize_anon :: "zenv \<Rightarrow> map_info list \<Rightarrow> zygote \<Rightarrow> zygote res" where
  "randomize_anon e [] z = Inr z"
| "randomize_anon e (info # ms) z =
     (let size = mi_end info - mi_start info;
          exec = (mi_perms info AND PROT_EXEC \<noteq> 0);
          z1 = (if exec \<and> mi_path info = [] then mem [M_Name (mi_start info) size (generateRandomString e 10)] z else z)
      in if exec \<and> mi_dev info = 0 \<and> find_sub ''anon'' (mi_path info) \<noteq> None
         then if e_mmap e (mmap_count (z_mem z1))
              then randomize_anon e ms (mem (M_Mmap size # replace_ops info) z1)
              else Inl Out_Of_Bounds
         else randomize_anon e ms z1)"

definition run_modules_post :: "zenv \<Rightarrow> zygote \<Rightarrow> zygote res" where
  "run_modules_post e z =
     bind_r (for_modules (run_post e) [0..<length (c_modules z)] (set_flag POST_SPECIALIZE z)) (\<lambda>z1.
       let z2 = (if e_solist e then mem [M_Nullify ''jit-cache''] z1 else z1)
       in randomize_anon e (e_maps_anon e) (remap_jit_cache e (e_maps_post e) z2))"

definition app_specialize_pre :: "zenv \<Rightarrow> zygote \<Rightarrow> zygote res" where
  "app_specialize_pre e z =
     bind_r (GetProcessFlags (e_peer e) (c_uid z) (z_client z)) (\<lambda>(fl, c).
       let z1 = (set_flag APP_SPECIALIZE z)\<lparr>z_client := c, c_info_flags := fl\<rparr>;
           z2 = (if fl AND PROCESS_ON_DENYLIST = PROCESS_ON_DENYLIST then set_flag DO_REVERT_UNMOUNT z1 else z1);
           mm = PROCESS_IS_MANAGER OR PROCESS_ROOT_IS_MAGISK
       in if fl AND mm = mm then Inr (z2\<lparr>zygisk_enabled := True\<rparr>) else run_modules_pre e z2)"

definition app_specialize_post :: "zenv \<Rightarrow> zygote \<Rightarrow> zygote res" where
  "app_specialize_post e z =
     bind_r (run_modules_post e z) (\<lambda>z1. Inr (setfd (-1) (z1\<lparr>g_ctx := False\<rparr>)))"

section \<open>The three hooked methods\<close>

definition nativeSpecializeAppProcess_pre :: "zenv \<Rightarrow> zygote \<Rightarrow> zygote res" where
  "nativeSpecializeAppProcess_pre e z =
     app_specialize_pre e (set_flag SKIP_FD_SANITIZATION (z\<lparr>c_process := e_nice_name e\<rparr>))"

definition nativeSpecializeAppProcess_post :: "zenv \<Rightarrow> zygote \<Rightarrow> zygote res" where
  "nativeSpecializeAppProcess_post e z = app_specialize_post e z"

definition nativeForkSystemServer_pre :: "zenv \<Rightarrow> zygote \<Rightarrow> zygote res" where
  "nativeForkSystemServer_pre e z =
     bind_r (fork_pre e (set_flag SERVER_FORK_AND_SPECIALIZE z)) (\<lambda>z1.
       if c_pid z1 \<noteq> 0 then Inr z1
       else
         bind_r (run_modules_pre e z1) (\<lambda>z2.
         bind_r (SystemServerStarted (e_peer e) (z_client z2)) (\<lambda>(s, c).
           sanitize_fds e (z2\<lparr>z_client := c\<rparr>))))"

definition nativeForkSystemServer_post :: "zenv \<Rightarrow> zygote \<Rightarrow> zygote res" where
  "nativeForkSystemServer_post e z =
     bind_r (if c_pid z = 0 then run_modules_post e z else Inr z) (\<lambda>z1. Inr (fork_post z1))"

definition nativeForkAndSpecialize_pre :: "zenv \<Rightarrow> zygote \<Rightarrow> zygote res" where
  "nativeForkAndSpecialize_pre e z =
     (let z1 = set_flag APP_FORK_AND_SPECIALIZE (z\<lparr>c_process := e_nice_name e\<rparr>);
          z2 = (if logfd z1 \<noteq> -1 then z1\<lparr>c_exempted_fds := c_exempted_fds z1 @ [logfd z1]\<rparr> else z1)
      in bind_r (fork_pre e z2) (\<lambda>z3.
         bind_r (if c_pid z3 = 0 then app_specialize_pre e z3 else Inr z3) (sanitize_fds e)))"

definition nativeForkAndSpecialize_post :: "zenv \<Rightarrow> zygote \<Rightarrow> zygote res" where
  "nativeForkAndSpecialize_post e z =
     bind_r (if c_pid z = 0 then app_specialize_post e z else Inr z) (\<lambda>z1. Inr (fork_post z1))"

section \<open>What a module's code leaves alone\<close>

text \<open>The parts of the state that no call of the API and nothing a module does with descriptors changes.\<close>

definition mod_key :: "zmodule \<times> mcode \<Rightarrow> nat \<times> nat \<times> mcode" where
  "mod_key x = (m_id (fst x), m_handle (fst x), snd x)"

definition callback :: "zev \<Rightarrow> bool" where
  "callback ev = (case ev of Z_Bool _ \<Rightarrow> False | Z_Fd _ \<Rightarrow> False | Z_Flags _ \<Rightarrow> False | _ \<Rightarrow> True)"

definition callbacks :: "zygote \<Rightarrow> zev list" where
  "callbacks z = filter callback (z_log z)"

definition frame :: "zygote \<Rightarrow> zygote \<Rightarrow> bool" where
  "frame z z' \<longleftrightarrow>
     c_pid z' = c_pid z \<and> c_allowed_fds z' = c_allowed_fds z \<and> c_fds_to_ignore z' = c_fds_to_ignore z \<and>
     g_ctx z' = g_ctx z \<and> sigchld_blocked z' = sigchld_blocked z \<and> logfd z' = logfd z \<and>
     zygisk_enabled z' = zygisk_enabled z \<and> c_info_flags z' = c_info_flags z \<and>
     insert DO_REVERT_UNMOUNT (c_flags z') = insert DO_REVERT_UNMOUNT (c_flags z) \<and> c_flags z \<subseteq> c_flags z' \<and>
     map mod_key (c_modules z') = map mod_key (c_modules z) \<and> z_mem z' = z_mem z \<and>
     set (c_exempted_fds z) \<subseteq> set (c_exempted_fds z')"

definition quiet :: "zygote \<Rightarrow> zygote \<Rightarrow> bool" where
  "quiet z z' \<longleftrightarrow> frame z z' \<and> callbacks z' = callbacks z"

lemma frame_refl [simp]: "frame z z"
  by (simp add: frame_def)

lemma frame_trans [trans]: "frame a b \<Longrightarrow> frame b c \<Longrightarrow> frame a c"
  unfolding frame_def by (metis subset_trans)

lemma quiet_refl [simp]: "quiet z z"
  by (simp add: quiet_def)

lemma quiet_trans [trans]: "quiet a b \<Longrightarrow> quiet b c \<Longrightarrow> quiet a c"
  unfolding quiet_def by (metis frame_trans)

lemma frame_flag: "frame z z' \<Longrightarrow> f \<noteq> DO_REVERT_UNMOUNT \<Longrightarrow> f \<in> c_flags z' \<longleftrightarrow> f \<in> c_flags z"
  unfolding frame_def by blast

lemma frame_length: "frame z z' \<Longrightarrow> length (c_modules z') = length (c_modules z)"
  unfolding frame_def by (metis length_map)

lemma frame_module:
  assumes "frame z z'" and "k < length (c_modules z)"
  shows "m_id (fst (c_modules z' ! k)) = m_id (fst (c_modules z ! k))"
    and "m_handle (fst (c_modules z' ! k)) = m_handle (fst (c_modules z ! k))"
    and "snd (c_modules z' ! k) = snd (c_modules z ! k)"
proof -
  have "map mod_key (c_modules z') ! k = map mod_key (c_modules z) ! k" using assms(1) by (simp add: frame_def)
  then have "mod_key (c_modules z' ! k) = mod_key (c_modules z ! k)"
    using assms(2) frame_length [OF assms(1)] by simp
  then show "m_id (fst (c_modules z' ! k)) = m_id (fst (c_modules z ! k))"
    "m_handle (fst (c_modules z' ! k)) = m_handle (fst (c_modules z ! k))"
    "snd (c_modules z' ! k) = snd (c_modules z ! k)"
    by (simp_all add: mod_key_def)
qed

lemma callbacks_zlog [simp]: "callbacks (zlog ev z) = callbacks z @ (if callback ev then [ev] else [])"
  by (simp add: callbacks_def zlog_def)

lemma frame_zlog [simp]: "frame z (zlog ev z)"
  by (simp add: frame_def zlog_def)

lemma quiet_zlog: "\<not> callback ev \<Longrightarrow> quiet z (zlog ev z)"
  by (simp add: quiet_def)

lemma quiet_fds [simp]: "quiet z (z\<lparr>z_client := c\<rparr>)" "quiet z (z_open f z)" "quiet z (z_close f z)"
  by (simp_all add: quiet_def frame_def callbacks_def z_open_def z_close_def)

lemma quiet_RegisterHook [simp]: "quiet z (RegisterHook dev inode s fn b z)"
  by (simp add: quiet_def frame_def callbacks_def RegisterHook_def)

lemma quiet_process_map: "quiet z (process_map e m rs z)"
proof (induction rs arbitrary: z)
  case (Cons reg rs)
  show ?case using Cons.IH quiet_trans [OF quiet_RegisterHook Cons.IH] by simp
qed simp

lemma quiet_process_maps: "quiet z (process_maps e ms z)"
proof (induction ms arbitrary: z)
  case (Cons m ms)
  show ?case using Cons.IH quiet_trans [OF quiet_process_map Cons.IH] by simp
qed simp

lemma quiet_infos [simp]:
  "quiet z (z\<lparr>c_register_info := r\<rparr>)" "quiet z (z\<lparr>c_ignore_info := i\<rparr>)"
  "quiet z (z\<lparr>c_register_info := r, c_ignore_info := i\<rparr>)" "quiet z (z\<lparr>z_ls := l\<rparr>)"
  by (simp_all add: quiet_def frame_def callbacks_def)

lemma quiet_CommitHook: "CommitHook e z = (b, z') \<Longrightarrow> quiet z z'"
  by (auto simp: CommitHook_def)

lemma quiet_commit: "plt_hook_commit e z = (b, z') \<Longrightarrow> quiet z z'"
proof -
  let ?z1 = "plt_hook_process_regex e z"
  assume "plt_hook_commit e z = (b, z')"
  then have "quiet (?z1\<lparr>c_register_info := [], c_ignore_info := []\<rparr>) z'"
    by (auto simp: plt_hook_commit_def intro: quiet_CommitHook)
  moreover have "quiet z ?z1" by (simp add: plt_hook_process_regex_def quiet_process_maps)
  ultimately show "quiet z z'" using quiet_trans quiet_infos(3) by blast
qed

lemma quiet_update_module:
  "k < length (c_modules z) \<Longrightarrow> m_id (f (fst (c_modules z ! k))) = m_id (fst (c_modules z ! k)) \<Longrightarrow>
   m_handle (f (fst (c_modules z ! k))) = m_handle (fst (c_modules z ! k)) \<Longrightarrow> quiet z (update_module k f z)"
  by (simp add: update_module_def quiet_def frame_def callbacks_def mod_key_def map_update list_update_same_conv)

lemma quiet_setOption: "k < length (c_modules z) \<Longrightarrow> quiet z (setOption k opt z)"
  by (auto simp: setOption_def intro!: quiet_update_module)
    (auto simp: set_flag_def quiet_def frame_def callbacks_def)

lemma quiet_exempt: "exempt_fd f z = (b, z') \<Longrightarrow> quiet z z'"
  by (auto simp: exempt_fd_def quiet_def frame_def callbacks_def split: if_splits)

lemma quiet_register: "quiet z (plt_hook_register e re s fn b z)" "quiet z (plt_hook_exclude e re s z)"
  by (auto simp: plt_hook_register_def plt_hook_exclude_def split: option.splits)

lemma quiet_invoke:
  assumes "invoke e k i f c z = Inr z'" and "k < length (c_modules z)"
  shows "quiet z z'"
proof -
  have l: "quiet z (zlog ev z1)" if "quiet z z1" "\<not> callback ev" for ev z1
    using quiet_trans [OF that(1) quiet_zlog [OF that(2)]] .
  show ?thesis
    using assms
    by (cases f; cases c)
      (auto simp: invoke_def callback_def res_simps connectCompanion_def getModuleDir_def quiet_setOption
        quiet_register split: prod.splits if_splits option.splits
        intro!: l intro: quiet_exempt quiet_CommitHook quiet_commit quiet_trans [OF quiet_fds(1) quiet_fds(2)])
qed

lemma RegisterModuleImpl_key:
  "RegisterModuleImpl g a m = (b, m') \<Longrightarrow> m_id m' = m_id m \<and> m_handle m' = m_handle m"
  by (auto simp: RegisterModuleImpl_def split: option.splits if_splits)

lemma quiet_run_act:
  assumes "run_act e k a z = Inr z'" and "k < length (c_modules z)"
  shows "quiet z z'"
proof (cases a)
  case (Act_register g abi)
  obtain b m' where r: "RegisterModuleImpl g abi (fst (c_modules z ! k)) = (b, m')" by fastforce
  then have "z' = zlog (Z_Bool b) (update_module k (\<lambda>_. m') z)"
    using assms Act_register by (auto simp: run_act_def Let_def split: if_splits)
  moreover have "quiet z (update_module k (\<lambda>_. m') z)"
    using RegisterModuleImpl_key [OF r] assms(2) by (intro quiet_update_module) simp_all
  ultimately show ?thesis using quiet_trans quiet_zlog by (simp add: callback_def)
qed (use assms in \<open>auto simp: run_act_def Let_def split: option.splits intro: quiet_invoke\<close>)

lemma quiet_run_acts: "run_acts e k as z = Inr z' \<Longrightarrow> k < length (c_modules z) \<Longrightarrow> quiet z z'"
proof (induction as arbitrary: z)
  case (Cons a as)
  then obtain z1 where z1: "run_act e k a z = Inr z1" "run_acts e k as z1 = Inr z'" by (auto simp: res_simps)
  have q: "quiet z z1" by (rule quiet_run_act [OF z1(1) Cons.prems(2)])
  then have "k < length (c_modules z1)" using Cons.prems(2) frame_length [of z z1] by (simp add: quiet_def)
  with Cons.IH [OF z1(2)] q show ?case by (blast intro: quiet_trans)
qed simp

end
