(* ===== verification/Zygisk_Run.thy ===== *)
theory Zygisk_Run
  imports Zygisk_Context
begin

text \<open>
  Properties of a specialisation: which descriptors the new process keeps, which functions of the modules run and
  in which order, what a module built for a newer ABI does to the process, and the hooks a commit registers.
\<close>

section \<open>Runs of the modules\<close>

lemma frame_set_flag: "frame z z1 \<Longrightarrow> frame (set_flag f z) (set_flag f z1)"
  by (auto simp: frame_def set_flag_def)

text \<open>What one module adds to the callbacks before the specialisation.\<close>

definition pre_events :: "zygote \<Rightarrow> nat \<Rightarrow> zev list \<Rightarrow> bool" where
  "pre_events z i cs \<longleftrightarrow>
     (if APP_SPECIALIZE \<in> c_flags z then cs = [Z_OnLoad i] \<or> (\<exists>a. cs = [Z_OnLoad i, Z_PreApp i a])
      else if SERVER_FORK_AND_SPECIALIZE \<in> c_flags z then cs = [Z_OnLoad i, Z_PreServer i]
      else cs = [Z_OnLoad i])"

text \<open>What a module does in one of its functions adds no callback to the one that entered it.\<close>

lemma run_acts_logged:
  assumes "run_acts e k as (zlog ev z1) = Inr z'" and "k < length (c_modules z1)"
  shows "frame z1 z' \<and> callbacks z' = callbacks (zlog ev z1)"
proof -
  have "k < length (c_modules (zlog ev z1))" using assms(2) by (simp add: zlog_def)
  from quiet_run_acts [OF assms(1) this] show ?thesis
    by (auto simp: quiet_def intro: frame_trans [OF frame_zlog])
qed

lemma run_pre_events:
  assumes "run_pre e k z = Inr z'" and "k < length (c_modules z)"
  shows "frame z z' \<and> (\<exists>cs. pre_events z (m_id (fst (c_modules z ! k))) cs \<and> callbacks z' = callbacks z @ cs)"
proof -
  let ?code = "snd (c_modules z ! k)" and ?i = "m_id (fst (c_modules z ! k))"
  let ?z0 = "zlog (Z_OnLoad ?i) z"
  obtain z1 where z1: "run_acts e k (mc_entry ?code) ?z0 = Inr z1"
    using assms(1) by (auto simp: run_pre_def Let_def res_simps)
  from run_acts_logged [OF z1 assms(2)] have f1: "frame z z1" and c1: "callbacks z1 = callbacks z @ [Z_OnLoad ?i]"
    by (simp_all add: callback_def)
  have k1: "k < length (c_modules z1)" using assms(2) frame_length [OF f1] by simp
  have fl: "APP_SPECIALIZE \<in> c_flags z1 \<longleftrightarrow> APP_SPECIALIZE \<in> c_flags z"
    "SERVER_FORK_AND_SPECIALIZE \<in> c_flags z1 \<longleftrightarrow> SERVER_FORK_AND_SPECIALIZE \<in> c_flags z"
    using frame_flag [OF f1] by simp_all
  have more: "frame z z' \<and> callbacks z' = callbacks z @ [Z_OnLoad ?i, ev]"
    if "run_acts e k as (zlog ev z1) = Inr z'" "callback ev" for as ev
    using run_acts_logged [OF that(1) k1] frame_trans [OF f1] c1 that(2) by simp
  have r: "run_pre e k z = (let m = fst (c_modules z1 ! k) in
      if APP_SPECIALIZE \<in> c_flags z
      then bind_r (call_app abi_preApp m) (\<lambda>r. case r of None \<Rightarrow> Inr z1
             | Some args \<Rightarrow> run_acts e k (mc_preApp ?code) (zlog (Z_PreApp ?i args) z1))
      else if SERVER_FORK_AND_SPECIALIZE \<in> c_flags z
      then bind_r (call_server abi_preServer m) (\<lambda>_. run_acts e k (mc_preServer ?code) (zlog (Z_PreServer ?i) z1))
      else Inr z1)"
    unfolding run_pre_def Let_def z1 bind_r_Inr fl ..
  note r = r [unfolded assms(1), symmetric]
  show ?thesis
  proof (cases "APP_SPECIALIZE \<in> c_flags z")
    case True
    then obtain a where "(case a of None \<Rightarrow> Inr z1
        | Some args \<Rightarrow> run_acts e k (mc_preApp ?code) (zlog (Z_PreApp ?i args) z1)) = Inr z'"
      using r by (auto simp: Let_def bind_r_eq_Inr)
    then show ?thesis
      using f1 c1 more True by (cases a) (auto simp: pre_events_def callback_def)
  next
    case False
    show ?thesis
    proof (cases "SERVER_FORK_AND_SPECIALIZE \<in> c_flags z")
      case True
      then have "run_acts e k (mc_preServer ?code) (zlog (Z_PreServer ?i) z1) = Inr z'"
        using r False by (auto simp: Let_def bind_r_eq_Inr)
      from more [OF this] show ?thesis using True False by (simp add: pre_events_def callback_def)
    next
      case False': False
      then have "z' = z1" using r False by (simp add: Let_def)
      then show ?thesis using f1 c1 False False' by (simp add: pre_events_def)
    qed
  qed
qed

lemma for_modules_pre:
  assumes "for_modules (run_pre e) ks z = Inr z'" and "\<forall>k \<in> set ks. k < length (c_modules z)"
  shows "frame z z' \<and> (\<exists>css. list_all2 (\<lambda>k cs. pre_events z (m_id (fst (c_modules z ! k))) cs) ks css \<and>
    callbacks z' = callbacks z @ concat css)"
  using assms
proof (induction ks arbitrary: z)
  case (Cons k ks)
  then obtain z1 where z1: "run_pre e k z = Inr z1" "for_modules (run_pre e) ks z1 = Inr z'" by (auto simp: res_simps)
  have kl: "k < length (c_modules z)" using Cons.prems by simp
  obtain cs where f1: "frame z z1" and cs: "pre_events z (m_id (fst (c_modules z ! k))) cs"
    "callbacks z1 = callbacks z @ cs" using run_pre_events [OF z1(1) kl] by blast
  have l: "\<forall>k \<in> set ks. k < length (c_modules z1)" using Cons.prems(2) frame_length [OF f1] by simp
  obtain css where f2: "frame z1 z'"
    and css: "list_all2 (\<lambda>k cs. pre_events z1 (m_id (fst (c_modules z1 ! k))) cs) ks css"
    "callbacks z' = callbacks z1 @ concat css" using Cons.IH [OF z1(2) l] by blast
  have pe: "pre_events z1 = pre_events z"
    by (intro ext) (simp add: pre_events_def frame_flag [OF f1])
  have ids: "m_id (fst (c_modules z1 ! k')) = m_id (fst (c_modules z ! k'))" if "k' \<in> set ks" for k'
    using frame_module(1) [OF f1, of k'] Cons.prems(2) that by simp
  have "list_all2 (\<lambda>k cs. pre_events z (m_id (fst (c_modules z ! k))) cs) ks css"
    using css(1) unfolding pe by (rule list.rel_mono_strong) (simp add: ids)
  then show ?case
    using frame_trans [OF f1 f2] cs css(2) by (intro conjI exI [of _ "cs # css"]) auto
qed auto

lemma load_modules_keeps:
  "load_modules e i ms z = z\<lparr>c_modules := c_modules z @ c_modules (load_modules e i ms (z\<lparr>c_modules := []\<rparr>))\<rparr>"
proof (induction ms arbitrary: i z)
  case (Cons x ms)
  obtain name memfd where x: "x = (name, memfd)" by fastforce
  let ?c = "if e_dlopen e memfd \<noteq> 0 then e_dlsym e (e_dlopen e memfd) else None"
  show ?case
  proof (cases ?c)
    case None
    then show ?thesis using Cons.IH [of "Suc i" z] by (simp add: x Let_def)
  next
    case (Some code)
    let ?m = "(ZygiskModule i (e_dlopen e memfd), code)"
    show ?thesis
      using Some Cons.IH [of "Suc i" "z\<lparr>c_modules := c_modules z @ [?m]\<rparr>"] Cons.IH [of "Suc i" "z\<lparr>c_modules := [?m]\<rparr>"]
      by (simp add: x Let_def)
  qed
qed simp

definition loaded :: "zenv \<Rightarrow> (string \<times> fd) list \<Rightarrow> nat list" where
  "loaded e ms = filter (\<lambda>i. e_dlopen e (snd (ms ! i)) \<noteq> 0 \<and> e_dlsym e (e_dlopen e (snd (ms ! i))) \<noteq> None) [0..<length ms]"

lemma load_modules_ids:
  "map (m_id \<circ> fst) (c_modules (load_modules e i ms z)) = map (m_id \<circ> fst) (c_modules z) @ map ((+) i) (loaded e ms)"
proof (induction ms arbitrary: i z)
  case (Cons x ms)
  obtain name memfd where x: "x = (name, memfd)" by fastforce
  have shift: "[0..<length (x # ms)] = 0 # map Suc [0..<length ms]" by (simp add: upt_conv_Cons map_Suc_upt del: upt_Suc)
  have l: "loaded e (x # ms) = (if e_dlopen e memfd \<noteq> 0 \<and> e_dlsym e (e_dlopen e memfd) \<noteq> None then [0] else []) @
      map Suc (loaded e ms)"
    unfolding loaded_def shift by (simp add: x filter_map comp_def)
  show ?case
    using Cons.IH [of "Suc i"] unfolding l by (auto simp: x Let_def ZygiskModule_def comp_def split: option.splits)
qed (simp add: loaded_def)

lemma run_modules_pre_order:
  assumes "run_modules_pre e z = Inr z'" and "ReadModules (e_peer e) (z_client z) = Inr (ms, c)" and "c_modules z = []"
  shows "\<exists>css. list_all2 (pre_events z) (loaded e ms) css \<and> callbacks z' = callbacks z @ concat css"
proof -
  let ?z0 = "z\<lparr>z_client := c\<rparr>"
  let ?z1 = "load_modules e 0 ms ?z0"
  have k: "?z1 = ?z0\<lparr>c_modules := c_modules ?z1\<rparr>"
    by (subst (1 2) load_modules_keeps) (simp add: assms(3))
  have ids: "map (m_id \<circ> fst) (c_modules ?z1) = loaded e ms"
    using load_modules_ids [of e 0 ms ?z0] assms(3) by (simp add: map_idI)
  have "for_modules (run_pre e) [0..<length (c_modules ?z1)] ?z1 = Inr z'"
    using assms(1,2) by (simp add: run_modules_pre_def Let_def)
  from for_modules_pre [OF this] obtain css
    where css: "list_all2 (\<lambda>k cs. pre_events ?z1 (m_id (fst (c_modules ?z1 ! k))) cs) [0..<length (c_modules ?z1)] css"
      "callbacks z' = callbacks ?z1 @ concat css" by auto
  have "pre_events ?z1 = pre_events z" "callbacks ?z1 = callbacks z"
    by (subst k, simp add: pre_events_def callbacks_def fun_eq_iff)+
  moreover have "list_all2 P (map (m_id \<circ> fst) xs) css \<longleftrightarrow> list_all2 (\<lambda>k cs. P (m_id (fst (xs ! k))) cs) [0..<length xs] css"
    for P and xs :: "(zmodule \<times> mcode) list"
    by (simp add: list_all2_conv_all_nth)
  ultimately show ?thesis using css ids by metis
qed


text \<open>An example: the zygote with three descriptors open, a daemon with one module of the newest ABI, which opens
  three descriptors before the specialisation and exempts one of them.\<close>

definition sample_code :: mcode where
  "sample_code =
     \<lparr>mc_entry = [Act_register True (Some (module_abi_of 4))],
      mc_preApp = [Act_open 7, Act_api (Call_exemptFd 8), Act_open 8, Act_open 2000],
      mc_postApp = [Act_api (Call_setOption 1)], mc_preServer = [], mc_postServer = []\<rparr>"

definition sample_daemon :: daemon where
  "sample_daemon =
     \<lparr>dn_root = \<lparr>rq_impl = KernelSU, rq_granted_root = \<lambda>u. False, rq_should_umount = \<lambda>u. True,
        rq_is_manager = \<lambda>u. False\<rparr>,
      dn_modules = [\<lparr>dm_name = ''m'', dm_lib_fd = 9\<rparr>], dn_pid = 1, dn_companion = \<lambda>_. False,
      dn_module_dir = \<lambda>_. None\<rparr>"

definition sample_env :: "mcode \<Rightarrow> zenv" where
  "sample_env code =
     \<lparr>e_peer = \<lparr>daemon_reply = handle_daemon_action sample_daemon, read_plan = [], write_plan = []\<rparr>,
      e_fork = 0, e_opendir1 = True, e_opendir2 = True, e_new_array = True, e_dlopen = nat,
      e_dlsym = (\<lambda>h. if h = 9 then Some code else None), e_nice_name = Some ''app'', e_maps = [],
      e_regcomp = (\<lambda>_. True), e_regexec = (\<lambda>r s. r = s), e_commit = (\<lambda>_. True), e_solist = True,
      e_maps_post = [], e_maps_anon = [], e_mmap = (\<lambda>_. True), e_rand = (\<lambda>_. 0)\<rparr>"

definition sample_zygote :: zygote where
  "sample_zygote =
     \<lparr>z_client = \<lparr>tmp_path = ''/d'', open_fds = [0, 1, 2], next_fd = 3, connects = [True, True, True], sleeps = 0\<rparr>,
      z_log = [], z_ls = [], z_mem = [], g_ctx = False, sigchld_blocked = False, logfd = -1, zygisk_enabled = False,
      c_process = None, c_modules = [], c_pid = -1, c_flags = {}, c_info_flags = 0, c_allowed_fds = {},
      c_exempted_fds = [], c_register_info = [], c_ignore_info = [], c_uid = 10000, c_fds_to_ignore = None\<rparr>"

lemma sample_modules:
  assumes "reachable_daemon c"
  shows "ReadModules (e_peer (sample_env code)) c = Inr ([(''m'', 9)], connected c)"
proof -
  have "serves sample_daemon (e_peer (sample_env code))" "Intr \<notin> set (read_plan (e_peer (sample_env code)))"
    by (simp_all add: serves_def sample_env_def)
  from ReadModules_serves [OF this assms] obtain c'
    where "ReadModules (e_peer (sample_env code)) c = Inr ([(''m'', 9)], c')"
    by (auto simp: sample_daemon_def fit_string_def)
  with client_connected(1) [OF assms this] show ?thesis by simp
qed

lemma sample_flags:
  assumes "reachable_daemon c"
  shows "GetProcessFlags (e_peer (sample_env code)) uid c = Inr (PROCESS_ON_DENYLIST OR PROCESS_ROOT_IS_KSU, connected c)"
proof -
  have "serves sample_daemon (e_peer (sample_env code))" by (simp add: serves_def sample_env_def)
  from GetProcessFlags_serves [OF this assms, of uid "PROCESS_ON_DENYLIST OR PROCESS_ROOT_IS_KSU"] obtain c'
    where "GetProcessFlags (e_peer (sample_env code)) uid c = Inr (PROCESS_ON_DENYLIST OR PROCESS_ROOT_IS_KSU, c')"
    by (auto simp: sample_daemon_def process_flags_def root_flag_def)
  with client_connected(2) [OF assms this] show ?thesis by simp
qed

definition sample_context :: zygote where
  "sample_context = set_flag APP_FORK_AND_SPECIALIZE ((ZygiskContext 10000 (Some None) sample_zygote)\<lparr>c_process := Some ''app''\<rparr>)"

lemma sample_fork:
  "fork_pre (sample_env code) sample_context =
     Inr (sample_context\<lparr>sigchld_blocked := True, c_pid := 0, c_allowed_fds := {0, 1, 2}\<rparr>)"
  by code_simp

definition sample_loaded :: "mcode \<Rightarrow> zygote" where
  "sample_loaded code =
     load_modules (sample_env code) 0 [(''m'', 9)]
       ((set_flag DO_REVERT_UNMOUNT
          ((set_flag APP_SPECIALIZE (sample_context\<lparr>sigchld_blocked := True, c_pid := 0, c_allowed_fds := {0, 1, 2}\<rparr>))
           \<lparr>z_client := connected (z_client sample_zygote), c_info_flags := PROCESS_ON_DENYLIST OR PROCESS_ROOT_IS_KSU\<rparr>))
        \<lparr>z_client := connected (connected (z_client sample_zygote))\<rparr>)"

lemma z_client_set_flag [simp]: "z_client (set_flag f z) = z_client z"
  by (simp add: set_flag_def)

lemma sample_reachable: "reachable_daemon (z_client sample_zygote)" "reachable_daemon (connected (z_client sample_zygote))"
  by (simp_all add: reachable_daemon_def sample_zygote_def connected_def)

lemma sample_specialize:
  "app_specialize_pre (sample_env code) (sample_context\<lparr>sigchld_blocked := True, c_pid := 0, c_allowed_fds := {0, 1, 2}\<rparr>) =
     for_modules (run_pre (sample_env code)) [0..<length (c_modules (sample_loaded code))] (sample_loaded code)"
proof -
  let ?fl = "PROCESS_ON_DENYLIST OR PROCESS_ROOT_IS_KSU"
  have "?fl AND PROCESS_ON_DENYLIST = PROCESS_ON_DENYLIST"
    "?fl AND (PROCESS_IS_MANAGER OR PROCESS_ROOT_IS_MAGISK) \<noteq> PROCESS_IS_MANAGER OR PROCESS_ROOT_IS_MAGISK"
    by code_simp+
  moreover have "z_client sample_context = z_client sample_zygote"
    by (simp add: sample_context_def set_flag_def ZygiskContext_def)
  ultimately show ?thesis
    by (simp add: app_specialize_pre_def sample_flags sample_reachable Let_def run_modules_pre_def
        sample_modules sample_loaded_def del: load_modules.simps)
qed


section \<open>Descriptors\<close>

text \<open>What app specialisation leaves as it was, up to the descriptors a module exempts.\<close>

definition kept :: "zygote \<Rightarrow> zygote \<Rightarrow> bool" where
  "kept z z' \<longleftrightarrow>
     c_pid z' = c_pid z \<and> c_allowed_fds z' = c_allowed_fds z \<and> c_fds_to_ignore z' = c_fds_to_ignore z \<and>
     g_ctx z' = g_ctx z \<and> sigchld_blocked z' = sigchld_blocked z \<and> logfd z' = logfd z \<and>
     set (c_exempted_fds z) \<subseteq> set (c_exempted_fds z') \<and>
     (\<forall>f. f \<notin> {DO_REVERT_UNMOUNT, APP_SPECIALIZE} \<longrightarrow> (f \<in> c_flags z' \<longleftrightarrow> f \<in> c_flags z))"

lemma kept_trans [trans]: "kept a b \<Longrightarrow> kept b c \<Longrightarrow> kept a c"
  unfolding kept_def by (metis subset_trans)

lemma frame_kept: "frame z z' \<Longrightarrow> kept z z'"
  unfolding kept_def using frame_flag [of z z'] by (auto simp: frame_def)

lemma run_modules_pre_kept: "run_modules_pre e z = Inr z' \<Longrightarrow> kept z z'"
proof -
  assume "run_modules_pre e z = Inr z'"
  then obtain ms c where l: "for_modules (run_pre e) [0..<length (c_modules (load_modules e 0 ms (z\<lparr>z_client := c\<rparr>)))]
      (load_modules e 0 ms (z\<lparr>z_client := c\<rparr>)) = Inr z'"
    by (auto simp: run_modules_pre_def res_simps Let_def)
  have "kept z (load_modules e 0 ms (z\<lparr>z_client := c\<rparr>))" by (subst load_modules_keeps) (simp add: kept_def)
  moreover have "kept (load_modules e 0 ms (z\<lparr>z_client := c\<rparr>)) z'"
    by (rule frame_kept, rule conjunct1 [OF for_modules_pre [OF l]]) simp
  ultimately show "kept z z'" by (rule kept_trans)
qed

lemma app_specialize_pre_kept: "app_specialize_pre e z = Inr z' \<Longrightarrow> kept z z'"
proof -
  assume "app_specialize_pre e z = Inr z'"
  then obtain fl c where r: "(let z1 = (set_flag APP_SPECIALIZE z)\<lparr>z_client := c, c_info_flags := fl\<rparr>;
      z2 = (if fl AND PROCESS_ON_DENYLIST = PROCESS_ON_DENYLIST then set_flag DO_REVERT_UNMOUNT z1 else z1);
      mm = PROCESS_IS_MANAGER OR PROCESS_ROOT_IS_MAGISK
    in if fl AND mm = mm then Inr (z2\<lparr>zygisk_enabled := True\<rparr>) else run_modules_pre e z2) = Inr z'"
    unfolding app_specialize_pre_def bind_r_eq_Inr by auto
  define z1 where "z1 = (set_flag APP_SPECIALIZE z)\<lparr>z_client := c, c_info_flags := fl\<rparr>"
  define z2 where "z2 = (if fl AND PROCESS_ON_DENYLIST = PROCESS_ON_DENYLIST then set_flag DO_REVERT_UNMOUNT z1 else z1)"
  have k: "kept z z2" by (simp add: kept_def z1_def z2_def set_flag_def)
  have "z' = z2\<lparr>zygisk_enabled := True\<rparr> \<or> run_modules_pre e z2 = Inr z'"
    using r unfolding Let_def z1_def [symmetric] z2_def [symmetric] by (auto split: if_splits)
  then show "kept z z'"
  proof
    assume "z' = z2\<lparr>zygisk_enabled := True\<rparr>"
    with k show ?thesis by (simp add: kept_def)
  qed (rule kept_trans [OF k run_modules_pre_kept])
qed

lemma parse_entry: "0 \<le> f \<Longrightarrow> f < 2 ^ 31 \<Longrightarrow> parse_int (show_nat (nat f)) = f"
  by (simp add: parse_int_show_nat)

lemma parse_dots: "parse_int ''.'' = -1" "parse_int ''..'' = -1"
  by (simp_all add: parse_int_def)

lemma open_fds_close: "open_fds (fold close_fd fs c) = fold remove1 fs (open_fds c)"
  by (induction fs arbitrary: c) (simp_all add: close_fd_def)

lemma count_fold_remove1: "count_list (fold remove1 fs xs) f = count_list xs f - count_list fs f"
proof (induction fs arbitrary: xs)
  case (Cons g fs)
  have "count_list (remove1 g xs) f = count_list xs f - (if g = f then 1 else 0)" for xs
    by (induction xs) (auto simp: count_list_0_iff)
  with Cons show ?case by simp
qed simp

lemma fold_remove1_subset: "set (fold remove1 fs xs) \<subseteq> set xs"
proof (induction fs arbitrary: xs)
  case (Cons g fs)
  then show ?case using set_remove1_subset [of g xs] by fastforce
qed simp

definition forbidden :: "fd set \<Rightarrow> fd \<Rightarrow> fd \<Rightarrow> bool" where
  "forbidden allowed dfd f \<longleftrightarrow> (f < 0 \<or> f \<ge> MAX_FD_SIZE \<or> f \<notin> allowed) \<and> f \<noteq> dfd"

lemma close_forbidden_eq:
  "close_forbidden dfd es z =
     z\<lparr>z_client := fold close_fd (filter (forbidden (c_allowed_fds z) dfd) (map parse_int es)) (z_client z)\<rparr>"
  by (induction es arbitrary: z) (simp_all add: Let_def z_close_def forbidden_def)

lemma record_fds_eq:
  "record_fds es z =
     z\<lparr>c_allowed_fds := c_allowed_fds z \<union> set (filter in_bitset (map parse_int es)),
       z_client := fold close_fd (filter (\<lambda>f. \<not> in_bitset f) (map parse_int es)) (z_client z)\<rparr>"
  by (induction es arbitrary: z) (auto simp: Let_def z_close_def in_bitset_def)

lemma lowest_free: "lowest_free fds \<notin> set fds" "0 \<le> lowest_free fds"
proof -
  let ?l = "filter (\<lambda>f. f \<notin> set fds) (map int [0..<Suc (length fds)])"
  have "?l \<noteq> []"
  proof
    assume "?l = []"
    then have "set (map int [0..<Suc (length fds)]) \<subseteq> set fds" by (auto simp: filter_empty_conv simp del: upt_Suc)
    then have "card (set (map int [0..<Suc (length fds)])) \<le> card (set fds)" by (intro card_mono) auto
    moreover have "card (set (map int [0..<Suc (length fds)])) = Suc (length fds)"
      by (simp add: card_image del: upt_Suc)
    ultimately show False using card_length [of fds] by simp
  qed
  then have "hd ?l \<in> set ?l" by (rule hd_in_set)
  then show "lowest_free fds \<notin> set fds" "0 \<le> lowest_free fds" by (auto simp: lowest_free_def simp del: upt_Suc)
qed

definition fds_ok :: "zygote \<Rightarrow> bool" where
  "fds_ok z \<longleftrightarrow> list_all (\<lambda>f. 0 \<le> f \<and> f < 2 ^ 31) (z_fds z)"

lemma parse_entries:
  "fds_ok z \<Longrightarrow> 0 \<le> d \<Longrightarrow> d < 2 ^ 31 \<Longrightarrow> map parse_int (fd_entries (d # z_fds z)) = -1 # -1 # d # z_fds z"
  by (auto simp: fd_entries_def parse_dots parse_entry [simplified] fds_ok_def list_all_iff intro!: map_idI)

lemma fork_pre_child:
  assumes "fork_pre e z = Inr z1" and "e_fork e = 0" and "SKIP_FD_SANITIZATION \<notin> c_flags z" and "fds_ok z"
  shows "c_pid z1 = 0 \<and> c_flags z1 = c_flags z \<and> c_exempted_fds z1 = c_exempted_fds z \<and>
    c_fds_to_ignore z1 = c_fds_to_ignore z \<and> sigchld_blocked z1 \<and>
    c_allowed_fds z1 = (c_allowed_fds z - {lowest_free (z_fds z)}) \<union> {f \<in> set (z_fds z). in_bitset f}"
proof -
  let ?d = "lowest_free (z_fds z)"
  have d: "?d < MAX_FD_SIZE"
    using assms by (auto simp: fork_pre_def Let_def split: if_splits)
  then have "?d < 2 ^ 31" by (simp add: MAX_FD_SIZE_def)
  from parse_entries [OF assms(4) lowest_free(2) this]
  have p: "map parse_int (fd_entries (?d # z_fds z)) = -1 # -1 # ?d # z_fds z" .
  let ?z0 = "z_open ?d (z\<lparr>sigchld_blocked := True, c_pid := 0\<rparr>)"
  have b: "in_bitset ?d" using d lowest_free(2) by (simp add: in_bitset_def)
  have r: "record_fds (fd_entries (?d # z_fds z)) ?z0 =
      ?z0\<lparr>c_allowed_fds := c_allowed_fds z \<union> insert ?d {f \<in> set (z_fds z). in_bitset f},
        z_client := fold close_fd (-1 # -1 # filter (\<lambda>f. \<not> in_bitset f) (z_fds z)) (z_client ?z0)\<rparr>"
    unfolding record_fds_eq p using b by (auto simp: z_open_def in_bitset_def)
  have "z1 = (let z2 = record_fds (fd_entries (?d # z_fds z)) ?z0
      in z_close ?d (z2\<lparr>c_allowed_fds := c_allowed_fds z2 - {?d}\<rparr>))"
    using assms(1-3) d by (auto simp: fork_pre_def Let_def split: if_splits)
  then show ?thesis
    unfolding r using lowest_free(1) [of "z_fds z"] by (auto simp: Let_def z_open_def z_close_def)
qed

lemma count_forbidden:
  assumes "0 \<le> f" and "f < 2 ^ 31" and "forbidden A d f"
  shows "count_list xs f \<le> count_list (filter (forbidden A d) (map parse_int (fd_entries (d # xs)))) f"
proof -
  have "count_list xs f \<le> count_list (filter (forbidden A d) (map parse_int (map (show_nat \<circ> nat) xs))) f"
    using assms by (induction xs) (auto simp: parse_entry [simplified])
  also have "\<dots> \<le> count_list (filter (forbidden A d) (map parse_int (fd_entries (d # xs)))) f"
    by (simp add: fd_entries_def)
  finally show ?thesis .
qed

lemma count_list_pos: "x \<in> set xs \<Longrightarrow> count_list xs x > 0"
  by (metis count_list_0_iff gr0I)

lemma close_pass:
  assumes "f \<in> set (z_fds (z_close d (close_forbidden d (fd_entries (d # z_fds z)) (z_open d z))))"
    and "0 \<le> f" and "f < 2 ^ 31" and "d \<notin> set (z_fds z)"
  shows "in_bitset f \<and> f \<in> c_allowed_fds z"
proof -
  let ?ys = "filter (forbidden (c_allowed_fds z) d) (map parse_int (fd_entries (d # z_fds z)))"
  let ?l = "fold remove1 ?ys (d # z_fds z)"
  have l: "z_fds (z_close d (close_forbidden d (fd_entries (d # z_fds z)) (z_open d z))) = remove1 d ?l"
    by (simp add: z_close_def close_forbidden_eq z_open_def open_fds_close close_fd_def)
  have "f \<in> set (remove1 d ?l)" using assms(1) unfolding l .
  then have pos: "count_list (remove1 d ?l) f > 0" by (rule count_list_pos)
  have c1: "count_list (remove1 d xs) f = count_list xs f - (if d = f then 1 else 0)" for xs
    using count_fold_remove1 [of "[d]" xs f] by simp
  have nd: "f \<noteq> d"
  proof
    assume "f = d"
    moreover have "count_list (d # z_fds z) d = 1" using assms(4) by (simp add: count_list_0_iff)
    ultimately show False using pos c1 [of ?l] by (simp add: count_fold_remove1)
  qed
  have "\<not> forbidden (c_allowed_fds z) d f"
    using count_forbidden [OF assms(2,3), of "c_allowed_fds z" d "z_fds z"] pos nd c1 [of ?l]
    by (auto simp: count_fold_remove1)
  with nd assms(2) show ?thesis by (auto simp: forbidden_def in_bitset_def)
qed

lemma sanitize_array_props:
  assumes "sanitize_array e z = Inr z1"
  shows "c_pid z1 = c_pid z \<and> z_fds z1 = z_fds z \<and> c_exempted_fds z1 = c_exempted_fds z \<and>
    c_allowed_fds z1 \<subseteq> c_allowed_fds z \<union> {f. \<exists>arr. c_fds_to_ignore z = Some (Some arr) \<and> f \<in> set arr} \<union>
      set (c_exempted_fds z)"
  using assms
  by (auto simp: sanitize_array_def update_fd_array_def allow_all_def set_flag_def split: if_splits option.splits)

lemma sanitize_closes:
  assumes "sanitize_fds e z = Inr z'" and "SKIP_FD_SANITIZATION \<notin> c_flags z" and "c_pid z = 0"
    and "f \<in> set (z_fds z')" and "0 \<le> f" and "f < 2 ^ 31"
  shows "in_bitset f \<and> (f \<in> c_allowed_fds z \<or> (\<exists>arr. c_fds_to_ignore z = Some (Some arr) \<and> f \<in> set arr) \<or>
    f \<in> set (c_exempted_fds z))"
proof -
  obtain z1 where z1: "sanitize_array e z = Inr z1"
    using assms(1,2) by (auto simp: sanitize_fds_def bind_r_eq_Inr)
  note a = sanitize_array_props [OF z1]
  let ?d = "lowest_free (z_fds z1)"
  have "z' = z_close ?d (close_forbidden ?d (fd_entries (?d # z_fds z1)) (z_open ?d z1))"
    using assms(1-3) z1 a by (auto simp: sanitize_fds_def Let_def split: if_splits)
  with close_pass [of f ?d z1] assms(4-6) lowest_free(1) a show ?thesis by blast
qed

lemma sanitize_fds_exempted: "sanitize_fds e z = Inr z' \<Longrightarrow> c_exempted_fds z' = c_exempted_fds z"
  using sanitize_array_props [of e z]
  by (auto simp: sanitize_fds_def Let_def z_close_def z_open_def close_forbidden_eq bind_r_eq_Inr split: if_splits)

text \<open>C10: After a fork for an app, a descriptor is open in the child when the modules have run only if it fits the
  set of the allowed ones and was open at the fork, or the caller asked to ignore it, or a module (or the log)
  exempted it: whatever else the modules and the daemon connections opened is closed.\<close>

theorem descriptors_sanitized:
  assumes "nativeForkAndSpecialize_pre e (ZygiskContext uid (Some ignore) z) = Inr z'"
    and "e_fork e = 0" and "fds_ok z" and "f \<in> set (z_fds z')" and "0 \<le> f" and "f < 2 ^ 31"
  shows "in_bitset f \<and>
    (f \<in> set (z_fds z) \<or> (\<exists>arr. ignore = Some arr \<and> f \<in> set arr) \<or> f \<in> set (c_exempted_fds z'))"
proof -
  let ?c = "set_flag APP_FORK_AND_SPECIALIZE ((ZygiskContext uid (Some ignore) z)\<lparr>c_process := e_nice_name e\<rparr>)"
  let ?z2 = "if logfd ?c \<noteq> -1 then ?c\<lparr>c_exempted_fds := c_exempted_fds ?c @ [logfd ?c]\<rparr> else ?c"
  obtain z3 where z3: "fork_pre e ?z2 = Inr z3"
    and r: "bind_r (if c_pid z3 = 0 then app_specialize_pre e z3 else Inr z3) (sanitize_fds e) = Inr z'"
    using assms(1) unfolding nativeForkAndSpecialize_pre_def Let_def bind_r_eq_Inr by blast
  have c: "SKIP_FD_SANITIZATION \<notin> c_flags ?z2" "z_fds ?z2 = z_fds z" "c_allowed_fds ?z2 = {}"
    "c_fds_to_ignore ?z2 = Some ignore"
    by (simp_all add: set_flag_def ZygiskContext_def)
  have "fds_ok ?z2" using assms(3) c(2) by (simp add: fds_ok_def)
  note p = fork_pre_child [OF z3 assms(2) c(1) this, unfolded c]
  obtain z4 where z4: "app_specialize_pre e z3 = Inr z4" "sanitize_fds e z4 = Inr z'"
    using r p by (auto simp: bind_r_eq_Inr)
  note k = app_specialize_pre_kept [OF z4(1), unfolded kept_def]
  have "SKIP_FD_SANITIZATION \<notin> c_flags z4" "c_pid z4 = 0" using p k c(1) by simp_all
  from sanitize_closes [OF z4(2) this assms(4-6)] show ?thesis
    using p k sanitize_fds_exempted [OF z4(2)] by auto
qed

lemma sample_native:
  "nativeForkAndSpecialize_pre (sample_env code) (ZygiskContext 10000 (Some None) sample_zygote) =
     bind_r (for_modules (run_pre (sample_env code)) [0..<length (c_modules (sample_loaded code))] (sample_loaded code))
       (sanitize_fds (sample_env code))"
proof -
  have c: "set_flag APP_FORK_AND_SPECIALIZE ((ZygiskContext 10000 (Some None) sample_zygote)\<lparr>c_process := e_nice_name (sample_env code)\<rparr>) =
      sample_context"
    by (simp add: sample_context_def sample_env_def)
  have "logfd sample_context = -1" by code_simp
  then show ?thesis
    by (simp add: nativeForkAndSpecialize_pre_def Let_def c sample_fork sample_specialize)
qed

theorem descriptors_sanitized_witness:
  "\<exists>z'. nativeForkAndSpecialize_pre (sample_env sample_code) (ZygiskContext 10000 (Some None) sample_zygote) = Inr z' \<and>
     8 \<in> set (z_fds z') \<and> 8 \<in> set (c_exempted_fds z') \<and> 7 \<notin> set (z_fds z') \<and> 2000 \<notin> set (z_fds z')"
    (is "\<exists>z'. nativeForkAndSpecialize_pre ?e ?c = _ \<and> _")
proof -
  have "case bind_r (for_modules (run_pre ?e) [0..<length (c_modules (sample_loaded sample_code))] (sample_loaded sample_code))
      (sanitize_fds ?e) of Inl _ \<Rightarrow> False | Inr z' \<Rightarrow> 8 \<in> set (z_fds z') \<and> c_exempted_fds z' = [8]" by code_simp
  then obtain z' where z': "nativeForkAndSpecialize_pre ?e ?c = Inr z'" "8 \<in> set (z_fds z')" "c_exempted_fds z' = [8]"
    unfolding sample_native by (auto split: sum.splits)
  have "e_fork ?e = 0" "fds_ok sample_zygote" "z_fds sample_zygote = [0, 1, 2]"
    by (simp_all add: sample_env_def sample_zygote_def fds_ok_def)
  with descriptors_sanitized [OF z'(1), of 8] descriptors_sanitized [OF z'(1), of 7]
    descriptors_sanitized [OF z'(1), of 2000] z' show ?thesis by auto
qed

section \<open>A module built for a newer ABI\<close>

lemma ZygiskModule_sel [simp]: "m_mod (ZygiskModule i h) = None" "t_register (m_api (ZygiskModule i h))"
  by (simp_all add: ZygiskModule_def)

text \<open>A module that was built with a newer version of the API than the library supports is refused by
  \<open>registerModule\<close>, and the library then calls it all the same, through the module record that was never set: the
  process faults instead of running without the module.\<close>

lemma newer_module_faults:
  assumes "k < length (c_modules z)" and "fst (c_modules z ! k) = ZygiskModule i h"
    and "mc_entry (snd (c_modules z ! k)) = [Act_register True (Some (module_abi_of v))]" and "v > ZYGISK_API_VERSION"
    and "APP_SPECIALIZE \<in> c_flags z \<or> SERVER_FORK_AND_SPECIALIZE \<in> c_flags z"
  shows "for_modules (run_pre e) (k # ks) z = Inl Null_Deref"
proof -
  let ?z1 = "zlog (Z_OnLoad i) z"
  have r: "RegisterModuleImpl True (Some (module_abi_of v)) m = (False, m)" for m
    using assms(4) by (simp add: RegisterModuleImpl_def module_abi_of_def)
  have "c_modules (zlog ev z') = c_modules z'" for ev z' by (simp add: zlog_def)
  then have "run_acts e k [Act_register True (Some (module_abi_of v))] ?z1 =
      Inr (zlog (Z_Bool False) (update_module k (\<lambda>_. ZygiskModule i h) ?z1))"
    using assms(2) r by (simp add: run_act_def)
  moreover have "update_module k (\<lambda>_. ZygiskModule i h) ?z1 = ?z1"
    using assms(1,2) by (simp add: update_module_def zlog_def flip: assms(2))
  moreover have "m_id (ZygiskModule i h) = i" by (simp add: ZygiskModule_def)
  ultimately have "run_pre e k z = Inl Null_Deref"
    using assms(2,3,5) by (auto simp: run_pre_def Let_def zlog_def call_app_def call_server_def)
  then show ?thesis by simp
qed

lemma newer_module_faults_witness:
  "for_modules (run_pre (sample_env (sample_code\<lparr>mc_entry := [Act_register True (Some (module_abi_of 5))]\<rparr>))) [0]
     (sample_loaded (sample_code\<lparr>mc_entry := [Act_register True (Some (module_abi_of 5))]\<rparr>)) = Inl Null_Deref"
    (is "for_modules (run_pre ?e) [0] (sample_loaded ?code) = _")
proof (rule newer_module_faults [where k = 0 and v = 5 and i = 0 and h = 9])
  have l: "c_modules (sample_loaded ?code) = [(ZygiskModule 0 9, ?code)]" by code_simp
  show "0 < length (c_modules (sample_loaded ?code))" "fst (c_modules (sample_loaded ?code) ! 0) = ZygiskModule 0 9"
    "mc_entry (snd (c_modules (sample_loaded ?code) ! 0)) = [Act_register True (Some (module_abi_of 5))]"
    by (simp_all add: l)
  show "APP_SPECIALIZE \<in> c_flags (sample_loaded ?code) \<or> SERVER_FORK_AND_SPECIALIZE \<in> c_flags (sample_loaded ?code)"
    by code_simp
qed (simp add: ZYGISK_API_VERSION_def)

section \<open>The hooks a commit registers\<close>

definition hookable :: "map_info \<Rightarrow> bool" where
  "hookable m \<longleftrightarrow> mi_offset m = 0 \<and> mi_private m \<and> mi_perms m AND PROT_READ \<noteq> 0"

definition selected :: "zenv \<Rightarrow> ignore_info list \<Rightarrow> map_info \<Rightarrow> register_info \<Rightarrow> bool" where
  "selected e igns m r \<longleftrightarrow>
     e_regexec e (ri_regex r) (mi_path m) \<and>
     \<not> (\<exists>ign \<in> set igns. e_regexec e (ii_regex ign) (mi_path m) \<and> ii_symbol ign \<in> {[], ri_symbol r})"

definition hooks :: "zenv \<Rightarrow> zygote \<Rightarrow> ls_call list" where
  "hooks e z =
     [LS_Register (mi_dev m) (mi_inode m) (ri_symbol r) (ri_callback r) (ri_backup r).
        m \<leftarrow> filter hookable (e_maps e), r \<leftarrow> filter (selected e (c_ignore_info z) m) (c_register_info z)]"

lemma ignored_iff:
  "ignored e path s is \<longleftrightarrow> (\<exists>ign \<in> set is. e_regexec e (ii_regex ign) path \<and> ii_symbol ign \<in> {[], s})"
  by (induction "is") auto

lemma process_map_eq:
  "process_map e m rs z = z\<lparr>z_ls := z_ls z @ map (\<lambda>r. LS_Register (mi_dev m) (mi_inode m) (ri_symbol r)
     (ri_callback r) (ri_backup r)) (filter (selected e (c_ignore_info z) m) rs)\<rparr>"
  by (induction rs arbitrary: z) (auto simp: RegisterHook_def selected_def ignored_iff)

lemma process_maps_eq:
  "process_maps e ms z = z\<lparr>z_ls := z_ls z @
     [LS_Register (mi_dev m) (mi_inode m) (ri_symbol r) (ri_callback r) (ri_backup r).
        m \<leftarrow> filter hookable ms, r \<leftarrow> filter (selected e (c_ignore_info z) m) (c_register_info z)]\<rparr>"
  by (induction ms arbitrary: z) (auto simp: process_map_eq hookable_def)

text \<open>Committing the hooks of a module of the first ABI registers with \<open>lsplt\<close>, in the order of the memory map and
  of the registrations, one hook for each pair of a readable private mapping of a file's start and a registration
  whose expression matches its path, unless an exclusion matches the path for this symbol or for all; then it
  commits once and forgets the registrations and exclusions.\<close>

lemma plt_hook_commit_hooks:
  "plt_hook_commit e z =
     (e_commit e (z_ls z @ hooks e z),
      z\<lparr>z_ls := z_ls z @ hooks e z @ [LS_Commit], c_register_info := [], c_ignore_info := []\<rparr>)"
proof (cases "c_register_info z = []")
  case True
  then have "hooks e z = []" by (simp add: hooks_def)
  with True show ?thesis by (simp add: plt_hook_commit_def plt_hook_process_regex_def CommitHook_def)
next
  case False
  then show ?thesis
    by (simp add: plt_hook_commit_def plt_hook_process_regex_def CommitHook_def process_maps_eq flip: hooks_def)
qed

end
