(* ===== verification/Jni_Hooks.thy ===== *)
theory Jni_Hooks
  imports Zygisk_Prelude
begin

text \<open>
  The hooks of the zygote's native methods: the wrappers and method tables of
  \<open>loader/src/injector/jni_hooks.hpp\<close>, and from \<open>hook.cpp\<close> the routine that puts them in place
  (\<open>hookJniNativeMethods\<close>, \<open>do_hook_zygote\<close>) and the loop of \<open>~ZygiskContext\<close> that takes them out again.

  The virtual machine is a map from class names to classes, a class a map from the name and signature of a
  method to its modifiers and its native pointer; the JNI functions act on it as their specification says.
\<close>

section \<open>Wrappers\<close>

datatype jty = J_int | J_long | J_boolean | J_intArray | J_objectArray | J_string

datatype jni_variant =
    nativeForkAndSpecialize_l | nativeForkAndSpecialize_o | nativeForkAndSpecialize_p | nativeForkAndSpecialize_q_alt
  | nativeForkAndSpecialize_r | nativeForkAndSpecialize_u | nativeForkAndSpecialize_samsung_m
  | nativeForkAndSpecialize_samsung_n | nativeForkAndSpecialize_samsung_o | nativeForkAndSpecialize_samsung_p
  | nativeSpecializeAppProcess_q | nativeSpecializeAppProcess_q_alt | nativeSpecializeAppProcess_r
  | nativeSpecializeAppProcess_u | nativeSpecializeAppProcess_samsung_q
  | nativeForkSystemServer_l | nativeForkSystemServer_samsung_q

datatype method_kind = ForkAndSpecialize | SpecializeAppProcess | ForkSystemServer

text \<open>The parameters of the wrappers after \<open>env\<close> and \<open>clazz\<close>, which they pass on to the original method unchanged
  and in the same order.\<close>

definition app_head :: "(jty \<times> string) list" where
  "app_head =
     [(J_int, ''uid''), (J_int, ''gid''), (J_intArray, ''gids''), (J_int, ''runtime_flags''), (J_objectArray, ''rlimits''),
      (J_int, ''mount_external''), (J_string, ''se_info'')]"

definition dirs :: "(jty \<times> string) list" where
  "dirs = [(J_string, ''instruction_set''), (J_string, ''app_data_dir'')]"

definition data_lists :: "(jty \<times> string) list" where
  "data_lists =
     [(J_objectArray, ''pkg_data_info_list''), (J_objectArray, ''whitelisted_data_info_list''),
      (J_boolean, ''mount_data_dirs''), (J_boolean, ''mount_storage_dirs'')]"

definition fork_params :: "jni_variant \<Rightarrow> (jty \<times> string) list" where
  "fork_params v =
     (let nice = [(J_string, ''nice_name''), (J_intArray, ''fds_to_close'')];
          ign = [(J_intArray, ''fds_to_ignore'')];
          child = [(J_boolean, ''is_child_zygote'')];
          top = [(J_boolean, ''is_top_app'')]
      in case v of
           nativeForkAndSpecialize_l \<Rightarrow> app_head @ nice @ dirs
         | nativeForkAndSpecialize_o \<Rightarrow> app_head @ nice @ ign @ dirs
         | nativeForkAndSpecialize_p \<Rightarrow> app_head @ nice @ ign @ child @ dirs
         | nativeForkAndSpecialize_q_alt \<Rightarrow> app_head @ nice @ ign @ child @ dirs @ top
         | nativeForkAndSpecialize_r \<Rightarrow> app_head @ nice @ ign @ child @ dirs @ top @ data_lists
         | nativeForkAndSpecialize_u \<Rightarrow>
             app_head @ nice @ ign @ child @ dirs @ top @ data_lists @ [(J_boolean, ''mount_sysprop_overrides'')]
         | nativeForkAndSpecialize_samsung_m \<Rightarrow> app_head @ [(J_int, ''_0''), (J_int, ''_1'')] @ nice @ dirs
         | nativeForkAndSpecialize_samsung_n \<Rightarrow>
             app_head @ [(J_int, ''_2''), (J_int, ''_3'')] @ nice @ dirs @ [(J_int, ''_4'')]
         | nativeForkAndSpecialize_samsung_o \<Rightarrow> app_head @ [(J_int, ''_5''), (J_int, ''_6'')] @ nice @ ign @ dirs
         | nativeForkAndSpecialize_samsung_p \<Rightarrow>
             app_head @ [(J_int, ''_7''), (J_int, ''_8'')] @ nice @ ign @ child @ dirs
         | _ \<Rightarrow> [])"

definition specialize_params :: "jni_variant \<Rightarrow> (jty \<times> string) list" where
  "specialize_params v =
     (let nice = [(J_string, ''nice_name'')];
          child = [(J_boolean, ''is_child_zygote'')];
          top = [(J_boolean, ''is_top_app'')]
      in case v of
           nativeSpecializeAppProcess_q \<Rightarrow> app_head @ nice @ child @ dirs
         | nativeSpecializeAppProcess_q_alt \<Rightarrow> app_head @ nice @ child @ dirs @ top
         | nativeSpecializeAppProcess_r \<Rightarrow> app_head @ nice @ child @ dirs @ top @ data_lists
         | nativeSpecializeAppProcess_u \<Rightarrow>
             app_head @ nice @ child @ dirs @ top @ data_lists @ [(J_boolean, ''mount_sysprop_overrides'')]
         | nativeSpecializeAppProcess_samsung_q \<Rightarrow>
             app_head @ [(J_int, ''_9''), (J_int, ''_10'')] @ nice @ child @ dirs
         | _ \<Rightarrow> [])"

definition server_params :: "jni_variant \<Rightarrow> (jty \<times> string) list" where
  "server_params v =
     (let ids = [(J_int, ''uid''), (J_int, ''gid''), (J_intArray, ''gids''), (J_int, ''runtime_flags'')];
          caps = [(J_objectArray, ''rlimits''), (J_long, ''permitted_capabilities''), (J_long, ''effective_capabilities'')]
      in case v of
           nativeForkSystemServer_l \<Rightarrow> ids @ caps
         | nativeForkSystemServer_samsung_q \<Rightarrow> ids @ [(J_int, ''_11''), (J_int, ''_12'')] @ caps
         | _ \<Rightarrow> [])"

definition kind_of :: "jni_variant \<Rightarrow> method_kind" where
  "kind_of v =
     (case v of
        nativeSpecializeAppProcess_q \<Rightarrow> SpecializeAppProcess | nativeSpecializeAppProcess_q_alt \<Rightarrow> SpecializeAppProcess
      | nativeSpecializeAppProcess_r \<Rightarrow> SpecializeAppProcess | nativeSpecializeAppProcess_u \<Rightarrow> SpecializeAppProcess
      | nativeSpecializeAppProcess_samsung_q \<Rightarrow> SpecializeAppProcess
      | nativeForkSystemServer_l \<Rightarrow> ForkSystemServer | nativeForkSystemServer_samsung_q \<Rightarrow> ForkSystemServer
      | _ \<Rightarrow> ForkAndSpecialize)"

definition params :: "jni_variant \<Rightarrow> (jty \<times> string) list" where
  "params v =
     (case kind_of v of ForkAndSpecialize \<Rightarrow> fork_params v | SpecializeAppProcess \<Rightarrow> specialize_params v
      | ForkSystemServer \<Rightarrow> server_params v)"

text \<open>The optional members of \<open>AppSpecializeArgs_v5\<close> that a wrapper points at its parameters.\<close>

definition args_set :: "jni_variant \<Rightarrow> string list" where
  "args_set v =
     (let lists = [''pkg_data_info_list'', ''whitelisted_data_info_list'', ''mount_data_dirs'', ''mount_storage_dirs'']
      in case v of
           nativeForkAndSpecialize_o \<Rightarrow> [''fds_to_ignore'']
         | nativeForkAndSpecialize_p \<Rightarrow> [''fds_to_ignore'', ''is_child_zygote'']
         | nativeForkAndSpecialize_q_alt \<Rightarrow> [''fds_to_ignore'', ''is_child_zygote'', ''is_top_app'']
         | nativeForkAndSpecialize_r \<Rightarrow> [''fds_to_ignore'', ''is_child_zygote'', ''is_top_app''] @ lists
         | nativeForkAndSpecialize_u \<Rightarrow>
             [''fds_to_ignore'', ''is_child_zygote'', ''is_top_app''] @ lists @ [''mount_sysprop_overrides'']
         | nativeForkAndSpecialize_samsung_o \<Rightarrow> [''fds_to_ignore'']
         | nativeForkAndSpecialize_samsung_p \<Rightarrow> [''fds_to_ignore'', ''is_child_zygote'']
         | nativeSpecializeAppProcess_q \<Rightarrow> [''is_child_zygote'']
         | nativeSpecializeAppProcess_q_alt \<Rightarrow> [''is_child_zygote'', ''is_top_app'']
         | nativeSpecializeAppProcess_r \<Rightarrow> [''is_child_zygote'', ''is_top_app''] @ lists
         | nativeSpecializeAppProcess_u \<Rightarrow> [''is_child_zygote'', ''is_top_app''] @ lists @ [''mount_sysprop_overrides'']
         | nativeSpecializeAppProcess_samsung_q \<Rightarrow> [''is_child_zygote'']
         | _ \<Rightarrow> [])"

text \<open>The members of \<open>AppSpecializeArgs_v5\<close> and of \<open>ServerSpecializeArgs_v1\<close>.\<close>

definition AppSpecializeArgs_required :: "(jty \<times> string) list" where
  "AppSpecializeArgs_required = app_head @ [(J_string, ''nice_name'')] @ dirs"

definition AppSpecializeArgs_optional :: "(jty \<times> string) list" where
  "AppSpecializeArgs_optional =
     [(J_intArray, ''fds_to_ignore''), (J_boolean, ''is_child_zygote''), (J_boolean, ''is_top_app'')] @ data_lists @
     [(J_boolean, ''mount_sysprop_overrides'')]"

definition ServerSpecializeArgs_v1 :: "(jty \<times> string) list" where
  "ServerSpecializeArgs_v1 =
     [(J_int, ''uid''), (J_int, ''gid''), (J_intArray, ''gids''), (J_int, ''runtime_flags''),
      (J_long, ''permitted_capabilities''), (J_long, ''effective_capabilities'')]"

section \<open>Method tables\<close>

text \<open>Function pointers: code of the runtime, or a wrapper.\<close>

datatype jni_fn = Art_fn nat | Hook_fn jni_variant

record native_method =
  nm_name :: string
  nm_signature :: string
  nm_fnPtr :: "jni_fn option"

definition wrap :: "string \<Rightarrow> string \<Rightarrow> jni_variant \<Rightarrow> native_method" where
  "wrap name sig v = \<lparr>nm_name = name, nm_signature = sig, nm_fnPtr = Some (Hook_fn v)\<rparr>"

definition nativeForkAndSpecialize_methods :: "native_method list" where
  "nativeForkAndSpecialize_methods =
     [wrap ''nativeForkAndSpecialize''
        ''(II[II[[IILjava/lang/String;Ljava/lang/String;[ILjava/lang/String;Ljava/lang/String;)I''
        nativeForkAndSpecialize_l,
      wrap ''nativeForkAndSpecialize''
        ''(II[II[[IILjava/lang/String;Ljava/lang/String;[I[ILjava/lang/String;Ljava/lang/String;)I''
        nativeForkAndSpecialize_o,
      wrap ''nativeForkAndSpecialize''
        ''(II[II[[IILjava/lang/String;Ljava/lang/String;[I[IZLjava/lang/String;Ljava/lang/String;)I''
        nativeForkAndSpecialize_p,
      wrap ''nativeForkAndSpecialize''
        ''(II[II[[IILjava/lang/String;Ljava/lang/String;[I[IZLjava/lang/String;Ljava/lang/String;Z)I''
        nativeForkAndSpecialize_q_alt,
      wrap ''nativeForkAndSpecialize''
        ''(II[II[[IILjava/lang/String;Ljava/lang/String;[I[IZLjava/lang/String;Ljava/lang/String;Z[Ljava/lang/String;[Ljava/lang/String;ZZ)I''
        nativeForkAndSpecialize_r,
      wrap ''nativeForkAndSpecialize''
        ''(II[II[[IILjava/lang/String;Ljava/lang/String;[I[IZLjava/lang/String;Ljava/lang/String;Z[Ljava/lang/String;[Ljava/lang/String;ZZZ)I''
        nativeForkAndSpecialize_u,
      wrap ''nativeForkAndSpecialize''
        ''(II[II[[IILjava/lang/String;IILjava/lang/String;[ILjava/lang/String;Ljava/lang/String;)I''
        nativeForkAndSpecialize_samsung_m,
      wrap ''nativeForkAndSpecialize''
        ''(II[II[[IILjava/lang/String;IILjava/lang/String;[ILjava/lang/String;Ljava/lang/String;I)I''
        nativeForkAndSpecialize_samsung_n,
      wrap ''nativeForkAndSpecialize''
        ''(II[II[[IILjava/lang/String;IILjava/lang/String;[I[ILjava/lang/String;Ljava/lang/String;)I''
        nativeForkAndSpecialize_samsung_o,
      wrap ''nativeForkAndSpecialize''
        ''(II[II[[IILjava/lang/String;IILjava/lang/String;[I[IZLjava/lang/String;Ljava/lang/String;)I''
        nativeForkAndSpecialize_samsung_p]"

definition nativeSpecializeAppProcess_methods :: "native_method list" where
  "nativeSpecializeAppProcess_methods =
     [wrap ''nativeSpecializeAppProcess''
        ''(II[II[[IILjava/lang/String;Ljava/lang/String;ZLjava/lang/String;Ljava/lang/String;)V''
        nativeSpecializeAppProcess_q,
      wrap ''nativeSpecializeAppProcess''
        ''(II[II[[IILjava/lang/String;Ljava/lang/String;ZLjava/lang/String;Ljava/lang/String;Z)V''
        nativeSpecializeAppProcess_q_alt,
      wrap ''nativeSpecializeAppProcess''
        ''(II[II[[IILjava/lang/String;Ljava/lang/String;ZLjava/lang/String;Ljava/lang/String;Z[Ljava/lang/String;[Ljava/lang/String;ZZ)V''
        nativeSpecializeAppProcess_r,
      wrap ''nativeSpecializeAppProcess''
        ''(II[II[[IILjava/lang/String;Ljava/lang/String;ZLjava/lang/String;Ljava/lang/String;Z[Ljava/lang/String;[Ljava/lang/String;ZZZ)V''
        nativeSpecializeAppProcess_u,
      wrap ''nativeSpecializeAppProcess''
        ''(II[II[[IILjava/lang/String;IILjava/lang/String;ZLjava/lang/String;Ljava/lang/String;)V''
        nativeSpecializeAppProcess_samsung_q]"

definition nativeForkSystemServer_methods :: "native_method list" where
  "nativeForkSystemServer_methods =
     [wrap ''nativeForkSystemServer'' ''(II[II[[IJJ)I'' nativeForkSystemServer_l,
      wrap ''nativeForkSystemServer'' ''(II[IIII[[IJJ)I'' nativeForkSystemServer_samsung_q]"

section \<open>The virtual machine\<close>

record jmethod =
  jm_static :: bool
  jm_modifiers :: u32
  jm_data :: "jni_fn option"

type_synonym java_class = "string \<times> string \<Rightarrow> jmethod option"
type_synonym jvm = "string \<Rightarrow> java_class option"

definition ACC_NATIVE :: u32 where "ACC_NATIVE = 0x100"

definition GetMethodID :: "java_class \<Rightarrow> string \<Rightarrow> string \<Rightarrow> jmethod option" where
  "GetMethodID cls name sig = (case cls (name, sig) of Some m \<Rightarrow> if jm_static m then None else Some m | None \<Rightarrow> None)"

definition GetStaticMethodID :: "java_class \<Rightarrow> string \<Rightarrow> string \<Rightarrow> jmethod option" where
  "GetStaticMethodID cls name sig =
     (case cls (name, sig) of Some m \<Rightarrow> if jm_static m then Some m else None | None \<Rightarrow> None)"

text \<open>\<open>RegisterNatives\<close> stops with an error at a method that is missing or not native, or at a null pointer.\<close>

fun RegisterNatives :: "native_method list \<Rightarrow> java_class \<Rightarrow> int \<times> java_class" where
  "RegisterNatives [] cls = (0, cls)"
| "RegisterNatives (m # ms) cls =
     (case cls (nm_name m, nm_signature m) of
        None \<Rightarrow> (-1, cls)
      | Some jm \<Rightarrow>
          if nm_fnPtr m = None \<or> jm_modifiers jm AND ACC_NATIVE = 0 then (-1, cls)
          else RegisterNatives ms (cls((nm_name m, nm_signature m) \<mapsto> jm\<lparr>jm_data := nm_fnPtr m\<rparr>)))"

section \<open>Hooking\<close>

text \<open>The loop of \<open>hookJniNativeMethods\<close>: the methods with the originals filled in, and the hooks.\<close>

fun hook_methods :: "u32 \<Rightarrow> java_class \<Rightarrow> native_method list \<Rightarrow> native_method list \<times> native_method list" where
  "hook_methods modifier_native cls [] = ([], [])"
| "hook_methods modifier_native cls (nm # nms) =
     (case hook_methods modifier_native cls nms of (ms, hooks) \<Rightarrow>
        let mid = (case GetMethodID cls (nm_name nm) (nm_signature nm) of
                     None \<Rightarrow> GetStaticMethodID cls (nm_name nm) (nm_signature nm) | Some m \<Rightarrow> Some m)
        in case mid of
             None \<Rightarrow> (nm\<lparr>nm_fnPtr := None\<rparr> # ms, hooks)
           | Some jm \<Rightarrow>
               if jm_modifiers jm AND modifier_native = 0 then (nm\<lparr>nm_fnPtr := None\<rparr> # ms, hooks)
               else (nm\<lparr>nm_fnPtr := jm_data jm\<rparr> # ms, nm # hooks))"

definition hookJniNativeMethods ::
  "bool \<Rightarrow> u32 \<Rightarrow> string \<Rightarrow> native_method list \<Rightarrow> jvm \<Rightarrow> native_method list \<times> jvm" where
  "hookJniNativeMethods can_hook_jni modifier_native clz methods vm =
     (if \<not> can_hook_jni then (methods, vm)
      else
        (case vm clz of
           None \<Rightarrow> (map (\<lambda>m. m\<lparr>nm_fnPtr := None\<rparr>) methods, vm)
         | Some cls \<Rightarrow>
             (case hook_methods modifier_native cls methods of (ms, hooks) \<Rightarrow>
                (ms, if hooks = [] then vm else vm(clz \<mapsto> snd (RegisterNatives hooks cls))))))"

text \<open>The library's globals for the JNI.  \<open>jni_hook_list\<close> is ordered by class, and only one class is ever entered.\<close>

record jni =
  j_vm :: jvm
  can_hook_jni :: bool
  MODIFIER_NATIVE :: u32
  member_getModifiers :: bool            \<comment> \<open>the method was looked up\<close>
  j_fork :: "native_method list"
  j_specialize :: "native_method list"
  j_server :: "native_method list"
  nativeForkAndSpecialize_orig :: "jni_fn option"
  nativeSpecializeAppProcess_orig :: "jni_fn option"
  nativeForkSystemServer_orig :: "jni_fn option"
  jni_hook_list :: "(string \<times> native_method list) list option"

definition zygote_class :: string where
  "zygote_class = ''com/android/internal/os/Zygote''"

definition hooked :: "native_method list \<Rightarrow> native_method option" where
  "hooked ms = find (\<lambda>m. nm_fnPtr m \<noteq> None) ms"

definition orig_of :: "native_method list \<Rightarrow> jni_fn option \<Rightarrow> jni_fn option" where
  "orig_of ms old = (case hooked ms of None \<Rightarrow> old | Some m \<Rightarrow> nm_fnPtr m)"

definition do_hook_zygote :: "jni \<Rightarrow> jni res" where
  "do_hook_zygote j =
     (let hook = hookJniNativeMethods (can_hook_jni j) (MODIFIER_NATIVE j) zygote_class in
      case hook (j_fork j) (j_vm j) of (fs, vm1) \<Rightarrow>
      case hook (j_specialize j) vm1 of (ss, vm2) \<Rightarrow>
      case hook (j_server j) vm2 of (ys, vm3) \<Rightarrow>
      let hooks = concat (map (\<lambda>ms. case hooked ms of None \<Rightarrow> [] | Some m \<Rightarrow> [m]) [fs, ss, ys]);
          j' = j\<lparr>j_vm := vm3, j_fork := fs, j_specialize := ss, j_server := ys,
                 nativeForkAndSpecialize_orig := orig_of fs (nativeForkAndSpecialize_orig j),
                 nativeSpecializeAppProcess_orig := orig_of ss (nativeSpecializeAppProcess_orig j),
                 nativeForkSystemServer_orig := orig_of ys (nativeForkSystemServer_orig j)\<rparr>
      in case jni_hook_list j of
           None \<Rightarrow> Inl Null_Deref
         | Some l \<Rightarrow>
             Inr (if zygote_class \<in> fst ` set l then j' else j'\<lparr>jni_hook_list := Some (l @ [(zygote_class, hooks)])\<rparr>))"

text \<open>What \<open>initialize_jni_hook\<close> finds in the process: the function that lists the virtual machines (in the default
  scope, or in \<open>libnativehelper.so\<close>), its results, and the reflection classes.\<close>

record jenv =
  je_default_sym :: bool
  je_paths :: "string list"
  je_dlopen :: "string \<Rightarrow> bool"
  je_helper_sym :: bool
  je_created_vms :: "int \<times> bool"
  je_get_env :: "int \<times> bool"
  je_getModifiers :: "bool option"       \<comment> \<open>class \<open>Member\<close>, and its method\<close>
  je_NATIVE :: "u32 option option"       \<comment> \<open>class \<open>Modifier\<close>, its field and the value\<close>
  je_art_init :: bool

fun find_created_vms :: "jenv \<Rightarrow> string list \<Rightarrow> bool" where
  "find_created_vms e [] = False"
| "find_created_vms e (path # ps) =
     (if \<not> ends_with path ''/libnativehelper.so'' then find_created_vms e ps
      else je_dlopen e path \<and> je_helper_sym e)"

definition initialize_jni_hook :: "jenv \<Rightarrow> jni \<Rightarrow> jni res" where
  "initialize_jni_hook e j =
     (if \<not> (je_default_sym e \<or> find_created_vms e (je_paths e)) then Inr j
      else if fst (je_created_vms e) \<noteq> 0 \<or> \<not> snd (je_created_vms e) then Inr j
      else if fst (je_get_env e) \<noteq> 0 \<or> \<not> snd (je_get_env e) then Inr j
      else
        (let j1 = (case je_getModifiers e of None \<Rightarrow> j | Some found \<Rightarrow> j\<lparr>member_getModifiers := found\<rparr>);
             j2 = (case je_NATIVE e of Some (Some v) \<Rightarrow> j1\<lparr>MODIFIER_NATIVE := v\<rparr> | _ \<Rightarrow> j1)
         in if \<not> member_getModifiers j2 \<or> MODIFIER_NATIVE j2 = 0 then Inr j2
            else if \<not> je_art_init e then Inr j2
            else do_hook_zygote (j2\<lparr>can_hook_jni := True\<rparr>)))"

text \<open>The loop of \<open>~ZygiskContext\<close>: whether every class could be restored, and the machine afterwards.\<close>

fun restore :: "(string \<times> native_method list) list \<Rightarrow> jvm \<Rightarrow> (bool \<times> jvm) res" where
  "restore [] vm = Inr (True, vm)"
| "restore ((clz, methods) # l) vm =
     (if methods = [] then restore l vm
      else
        (case vm clz of
           None \<Rightarrow> Inl Null_Deref
         | Some cls \<Rightarrow>
             (case RegisterNatives methods cls of (r, cls') \<Rightarrow>
                bind_r (restore l (vm(clz \<mapsto> cls'))) (\<lambda>(ok, vm'). Inr (ok \<and> r = 0, vm')))))"

section \<open>Types of the wrappers\<close>

text \<open>The descriptor of a parameter, taken off the front of a signature.\<close>

definition strip_prefix :: "string \<Rightarrow> string \<Rightarrow> string option" where
  "strip_prefix p s = (if take (length p) s = p then Some (drop (length p) s) else None)"

definition strip_desc :: "jty \<Rightarrow> string \<Rightarrow> string option" where
  "strip_desc t s =
     (case t of
        J_int \<Rightarrow> strip_prefix ''I'' s | J_long \<Rightarrow> strip_prefix ''J'' s | J_boolean \<Rightarrow> strip_prefix ''Z'' s
      | J_intArray \<Rightarrow> strip_prefix ''[I'' s | J_string \<Rightarrow> strip_prefix ''Ljava/lang/String;'' s
      | J_objectArray \<Rightarrow>
          (case strip_prefix ''[[I'' s of None \<Rightarrow> strip_prefix ''[Ljava/lang/String;'' s | Some r \<Rightarrow> Some r))"

fun strip_descs :: "jty list \<Rightarrow> string \<Rightarrow> string option" where
  "strip_descs [] s = Some s"
| "strip_descs (t # ts) s = (case strip_desc t s of None \<Rightarrow> None | Some r \<Rightarrow> strip_descs ts r)"

definition kind_name :: "method_kind \<Rightarrow> string" where
  "kind_name k =
     (case k of ForkAndSpecialize \<Rightarrow> ''nativeForkAndSpecialize'' | SpecializeAppProcess \<Rightarrow> ''nativeSpecializeAppProcess''
      | ForkSystemServer \<Rightarrow> ''nativeForkSystemServer'')"

definition kind_desc :: "method_kind \<Rightarrow> string" where
  "kind_desc k = (if k = SpecializeAppProcess then '')V'' else '')I'')"

definition wrapper_ok :: "method_kind \<Rightarrow> native_method \<Rightarrow> bool" where
  "wrapper_ok k m =
     (case (nm_fnPtr m, nm_signature m) of
        (Some (Hook_fn v), CHR ''('' # sig) \<Rightarrow>
          kind_of v = k \<and> nm_name m = kind_name k \<and>
          strip_descs (map fst (params v)) sig = Some (kind_desc k) \<and> distinct (map snd (params v)) \<and>
          (if k = ForkSystemServer then set ServerSpecializeArgs_v1 \<subseteq> set (params v)
           else set AppSpecializeArgs_required \<subseteq> set (params v) \<and>
                args_set v = filter (\<lambda>n. n \<in> snd ` set (params v)) (map snd AppSpecializeArgs_optional))
      | _ \<Rightarrow> False)"


section \<open>Hooking and restoring\<close>

definition key :: "native_method \<Rightarrow> string \<times> string" where
  "key m = (nm_name m, nm_signature m)"

definition native_in :: "java_class \<Rightarrow> native_method \<Rightarrow> bool" where
  "native_in cls m = (case cls (key m) of None \<Rightarrow> False | Some jm \<Rightarrow> jm_modifiers jm AND ACC_NATIVE \<noteq> 0)"

definition data_of :: "java_class \<Rightarrow> native_method \<Rightarrow> jni_fn option" where
  "data_of cls m = (if native_in cls m then jm_data (the (cls (key m))) else None)"

definition set_data :: "native_method \<Rightarrow> java_class \<Rightarrow> java_class" where
  "set_data m cls = cls(key m := map_option (jm_data_update (\<lambda>_. nm_fnPtr m)) (cls (key m)))"

lemma set_data_apply:
  "set_data m cls k = (if k = key m then map_option (jm_data_update (\<lambda>_. nm_fnPtr m)) (cls k) else cls k)"
  by (simp add: set_data_def)

lemma key_fnPtr [simp]: "key (m\<lparr>nm_fnPtr := p\<rparr>) = key m"
  by (simp add: key_def)

lemma native_in_fnPtr [simp]: "native_in cls (m\<lparr>nm_fnPtr := p\<rparr>) = native_in cls m"
  by (simp add: native_in_def)

lemma native_in_set_data [simp]: "native_in (set_data m cls) m' = native_in cls m'"
  by (auto simp: native_in_def set_data_def split: option.splits)

lemma RegisterNatives_all:
  "list_all (\<lambda>m. nm_fnPtr m \<noteq> None \<and> native_in cls m) ms \<Longrightarrow> RegisterNatives ms cls = (0, fold set_data ms cls)"
proof (induction ms arbitrary: cls)
  case (Cons m ms)
  then have n: "native_in cls m" "nm_fnPtr m \<noteq> None" and ms: "list_all (\<lambda>m. nm_fnPtr m \<noteq> None \<and> native_in cls m) ms"
    by simp_all
  then obtain jm where jm: "cls (nm_name m, nm_signature m) = Some jm" "jm_modifiers jm AND ACC_NATIVE \<noteq> 0"
    by (auto simp: native_in_def key_def split: option.splits)
  have "cls((nm_name m, nm_signature m) \<mapsto> jm\<lparr>jm_data := nm_fnPtr m\<rparr>) = set_data m cls"
    by (simp add: set_data_def key_def jm)
  moreover have "list_all (\<lambda>m'. nm_fnPtr m' \<noteq> None \<and> native_in (set_data m cls) m') ms" using ms by simp
  ultimately show ?case using Cons.IH n jm by simp
qed simp

lemma fold_set_data_other: "k \<notin> key ` set ms \<Longrightarrow> fold set_data ms cls k = cls k"
  by (induction ms arbitrary: cls) (auto simp: set_data_def)

lemma fold_set_data_in:
  assumes "m \<in> set ms" and "distinct (map key ms)"
  shows "fold set_data ms cls (key m) = map_option (jm_data_update (\<lambda>_. nm_fnPtr m)) (cls (key m))"
  using assms
proof (induction ms arbitrary: cls)
  case (Cons a ms)
  show ?case
  proof (cases "m = a")
    case True
    then have "key m \<notin> key ` set ms" using Cons.prems(2) by auto
    then have "fold set_data ms (set_data a cls) (key m) = set_data a cls (key m)" by (rule fold_set_data_other)
    also have "\<dots> = map_option (jm_data_update (\<lambda>_. nm_fnPtr m)) (cls (key m))"
      using True by (simp add: set_data_def)
    finally show ?thesis by simp
  next
    case False
    then have m: "m \<in> set ms" using Cons.prems(1) by simp
    then have "key m \<in> key ` set ms" by (rule imageI)
    then have "key m \<noteq> key a" using Cons.prems(2) by auto
    with m Cons show ?thesis by (simp add: set_data_apply)
  qed
qed simp

lemma native_in_fold [simp]: "native_in (fold set_data ms cls) m' = native_in cls m'"
  by (induction ms arbitrary: cls) simp_all

lemma data_of_fold: "key m \<notin> key ` set ms \<Longrightarrow> data_of (fold set_data ms cls) m = data_of cls m"
  by (simp add: data_of_def fold_set_data_other)

lemma hook_methods_eq:
  "hook_methods ACC_NATIVE cls nms =
     (map (\<lambda>m. m\<lparr>nm_fnPtr := data_of cls m\<rparr>) nms, filter (native_in cls) nms)"
  by (induction nms)
    (auto simp: Let_def GetMethodID_def GetStaticMethodID_def native_in_def data_of_def key_def split: option.splits)

text \<open>Putting the original pointers back undoes the hooks.\<close>

lemma set_data_back:
  assumes "distinct (map key ms)" and "list_all (native_in cls) ms"
  shows "fold set_data (map (\<lambda>m. m\<lparr>nm_fnPtr := data_of cls m\<rparr>) ms) (fold set_data ms cls) = cls"
    (is "fold set_data ?os _ = cls")
proof
  fix k
  have keys: "map key ?os = map key ms" by simp
  show "fold set_data ?os (fold set_data ms cls) k = cls k"
  proof (cases "k \<in> key ` set ms")
    case False
    moreover have "key ` set ?os = key ` set ms" by (metis keys list.set_map)
    ultimately show ?thesis by (simp add: fold_set_data_other)
  next
    case True
    then obtain m where m: "m \<in> set ms" "k = key m" by blast
    let ?o = "m\<lparr>nm_fnPtr := data_of cls m\<rparr>"
    have "native_in cls m" using assms(2) m(1) by (simp add: list_all_iff)
    then obtain jm where jm: "cls k = Some jm" "data_of cls m = jm_data jm"
      using m(2) by (auto simp: native_in_def data_of_def split: option.splits)
    have ko: "key ?o = key m" by simp
    have "fold set_data ?os (fold set_data ms cls) (key ?o) =
        map_option (jm_data_update (\<lambda>_. nm_fnPtr ?o)) (fold set_data ms cls (key ?o))"
      by (rule fold_set_data_in) (use m in force, simp only: keys assms(1))
    also have "\<dots> = cls k"
      unfolding ko fold_set_data_in [OF m(1) assms(1)] using jm m(2) by simp
    finally show ?thesis using m(2) ko by simp
  qed
qed

text \<open>A table of which the class has at most one method, with its pointer set.\<close>

definition one_native :: "java_class \<Rightarrow> native_method list \<Rightarrow> bool" where
  "one_native cls ms \<longleftrightarrow>
     length (filter (native_in cls) ms) \<le> 1 \<and> list_all (\<lambda>m. native_in cls m \<longrightarrow> data_of cls m \<noteq> None) ms"

lemma hooked_one:
  assumes "one_native cls ms"
  shows "(case hooked (map (\<lambda>m. m\<lparr>nm_fnPtr := data_of cls m\<rparr>) ms) of None \<Rightarrow> [] | Some m \<Rightarrow> [m]) =
    map (\<lambda>m. m\<lparr>nm_fnPtr := data_of cls m\<rparr>) (filter (native_in cls) ms)"
  using assms
proof (induction ms)
  case (Cons m ms)
  show ?case
  proof (cases "native_in cls m")
    case True
    then have "filter (native_in cls) ms = []" "data_of cls m \<noteq> None"
      using Cons.prems by (simp_all add: one_native_def)
    with True show ?thesis by (simp add: hooked_def)
  next
    case False
    then have "data_of cls m = None" "one_native cls ms"
      using Cons.prems by (simp_all add: data_of_def one_native_def)
    with False Cons.IH show ?thesis by (simp add: hooked_def)
  qed
qed (simp add: hooked_def)

lemma hookJni_eq:
  assumes "vm zygote_class = Some cls" and "list_all (\<lambda>m. nm_fnPtr m \<noteq> None) ms"
  shows "hookJniNativeMethods True ACC_NATIVE zygote_class ms vm =
    (map (\<lambda>m. m\<lparr>nm_fnPtr := data_of cls m\<rparr>) ms,
     vm(zygote_class \<mapsto> fold set_data (filter (native_in cls) ms) cls))"
proof -
  have "RegisterNatives (filter (native_in cls) ms) cls = (0, fold set_data (filter (native_in cls) ms) cls)"
    by (rule RegisterNatives_all) (use assms(2) in \<open>auto simp: list_all_iff\<close>)
  moreover have "vm(zygote_class \<mapsto> cls) = vm" using assms(1) by auto
  ultimately show ?thesis
    using assms(1) by (auto simp: hookJniNativeMethods_def hook_methods_eq split: if_splits)
qed

abbreviation "all_methods \<equiv>
  nativeForkAndSpecialize_methods @ nativeSpecializeAppProcess_methods @ nativeForkSystemServer_methods"

lemma tables_distinct: "distinct (map key all_methods)"
  by code_simp

lemma tables_set: "list_all (\<lambda>m. nm_fnPtr m \<noteq> None) all_methods"
  by code_simp

lemma do_hook_zygote_eq:
  assumes "j_vm j zygote_class = Some cls" and "can_hook_jni j" and "MODIFIER_NATIVE j = ACC_NATIVE"
    and t: "j_fork j = T1" "j_specialize j = T2" "j_server j = T3"
    and d: "distinct (map key (T1 @ T2 @ T3))" and f: "list_all (\<lambda>m. nm_fnPtr m \<noteq> None) (T1 @ T2 @ T3)"
    and "jni_hook_list j = Some []" and one: "one_native cls T1" "one_native cls T2" "one_native cls T3"
  shows "\<exists>j'. do_hook_zygote j = Inr j' \<and>
    j_vm j' = (j_vm j)(zygote_class \<mapsto> fold set_data (filter (native_in cls) (T1 @ T2 @ T3)) cls) \<and>
    jni_hook_list j' =
      Some [(zygote_class, map (\<lambda>m. m\<lparr>nm_fnPtr := data_of cls m\<rparr>) (filter (native_in cls) (T1 @ T2 @ T3)))]"
proof -
  let ?F = "filter (native_in cls)" and ?o = "\<lambda>m. m\<lparr>nm_fnPtr := data_of cls m\<rparr>"
  let ?c1 = "fold set_data (?F T1) cls"
  let ?c2 = "fold set_data (?F T2) ?c1"
  have n: "native_in (fold set_data ms c) = native_in c" for ms c by (rule ext) simp
  have "m \<in> set T2 \<Longrightarrow> data_of ?c1 m = data_of cls m" for m
    by (rule data_of_fold) (use d in auto)
  moreover have "m \<in> set T3 \<Longrightarrow> data_of ?c2 m = data_of cls m" for m
  proof -
    assume "m \<in> set T3"
    then have k: "key m \<notin> key ` set (?F T2)" "key m \<notin> key ` set (?F T1)" using d by auto
    show ?thesis using data_of_fold [OF k(1)] data_of_fold [OF k(2)] by metis
  qed
  ultimately have o: "map (\<lambda>m. m\<lparr>nm_fnPtr := data_of ?c1 m\<rparr>) T2 = map ?o T2"
    "map (\<lambda>m. m\<lparr>nm_fnPtr := data_of ?c2 m\<rparr>) T3 = map ?o T3" by simp_all
  have h: "hookJniNativeMethods True ACC_NATIVE zygote_class T1 (j_vm j) = (map ?o T1, (j_vm j)(zygote_class \<mapsto> ?c1))"
    "hookJniNativeMethods True ACC_NATIVE zygote_class T2 ((j_vm j)(zygote_class \<mapsto> ?c1)) =
      (map ?o T2, (j_vm j)(zygote_class \<mapsto> ?c2))"
    "hookJniNativeMethods True ACC_NATIVE zygote_class T3 ((j_vm j)(zygote_class \<mapsto> ?c2)) =
      (map ?o T3, (j_vm j)(zygote_class \<mapsto> fold set_data (?F T3) ?c2))"
    using f assms(1) hookJni_eq [of "j_vm j" cls T1] hookJni_eq [of "(j_vm j)(zygote_class \<mapsto> ?c1)" ?c1 T2]
      hookJni_eq [of "(j_vm j)(zygote_class \<mapsto> ?c2)" ?c2 T3] o by (simp_all add: n)
  show ?thesis
    using hooked_one [OF one(1)] hooked_one [OF one(2)] hooked_one [OF one(3)] assms(2,3,9) t
    by (simp add: do_hook_zygote_def Let_def h)
qed

lemma jni_hooks_undone:
  assumes "j_vm j zygote_class = Some cls" and "can_hook_jni j" and "MODIFIER_NATIVE j = ACC_NATIVE"
    and "j_fork j = nativeForkAndSpecialize_methods" and "j_specialize j = nativeSpecializeAppProcess_methods"
    and "j_server j = nativeForkSystemServer_methods" and "jni_hook_list j = Some []"
    and "one_native cls nativeForkAndSpecialize_methods" and "one_native cls nativeSpecializeAppProcess_methods"
    and "one_native cls nativeForkSystemServer_methods"
  shows "\<exists>j1 l. do_hook_zygote j = Inr j1 \<and> jni_hook_list j1 = Some l \<and> restore l (j_vm j1) = Inr (True, j_vm j) \<and>
    (\<forall>m \<in> set all_methods. native_in cls m \<longrightarrow>
       (\<exists>cls1. j_vm j1 zygote_class = Some cls1 \<and> data_of cls1 m = nm_fnPtr m))"
proof -
  define ms where "ms = filter (native_in cls) all_methods"
  let ?o = "\<lambda>m. m\<lparr>nm_fnPtr := data_of cls m\<rparr>"
  let ?c = "fold set_data ms cls"
  obtain j1 where j1: "do_hook_zygote j = Inr j1" "j_vm j1 = (j_vm j)(zygote_class \<mapsto> ?c)"
    "jni_hook_list j1 = Some [(zygote_class, map ?o ms)]"
    using do_hook_zygote_eq [OF assms(1-6) tables_distinct tables_set assms(7-10)] unfolding ms_def by blast
  have d: "distinct (map key ms)" unfolding ms_def using tables_distinct by (rule distinct_map_filter)
  have n: "m \<in> set all_methods \<and> native_in cls m \<longleftrightarrow> m \<in> set ms" for m by (auto simp: ms_def)
  have some: "data_of cls m \<noteq> None" if "m \<in> set ms" for m
    using that assms(8-10) by (auto simp: ms_def one_native_def list_all_iff)
  have nat: "list_all (native_in cls) ms" by (auto simp: ms_def list_all_iff)
  have "list_all (\<lambda>m. nm_fnPtr m \<noteq> None \<and> native_in ?c m) (map ?o ms)"
    using some nat by (auto simp: list_all_iff)
  from RegisterNatives_all [OF this] have r: "RegisterNatives (map ?o ms) ?c = (0, cls)"
    using set_data_back [OF d nat] by simp
  have vm: "(j_vm j)(zygote_class \<mapsto> cls) = j_vm j" using assms(1) by auto
  have "restore [(zygote_class, map ?o ms)] (j_vm j1) = Inr (True, j_vm j)"
    using r vm by (cases "ms = []") (auto simp: j1)
  moreover have "data_of ?c m = nm_fnPtr m" if "m \<in> set ms" for m
    using that nat fold_set_data_in [OF that d, of cls]
    by (auto simp: data_of_def native_in_def list_all_iff split: option.splits)
  moreover have "j_vm j1 zygote_class = Some ?c" using j1(2) by simp
  ultimately show ?thesis using j1(1,3) n by blast
qed

text \<open>C14: When the zygote's class has at most one of the known versions of each of its three methods, hooking makes
  every one that it has run the wrapper of exactly its signature, and what \<open>~ZygiskContext\<close> does with the recorded
  originals puts the class back as it was.\<close>

theorem jni_hooks_roundtrip:
  assumes "j_vm j zygote_class = Some cls" and "can_hook_jni j" and "MODIFIER_NATIVE j = ACC_NATIVE"
    and "j_fork j = nativeForkAndSpecialize_methods" and "j_specialize j = nativeSpecializeAppProcess_methods"
    and "j_server j = nativeForkSystemServer_methods" and "jni_hook_list j = Some []"
    and "one_native cls nativeForkAndSpecialize_methods" and "one_native cls nativeSpecializeAppProcess_methods"
    and "one_native cls nativeForkSystemServer_methods"
  shows "\<exists>j1 l. do_hook_zygote j = Inr j1 \<and> jni_hook_list j1 = Some l \<and> restore l (j_vm j1) = Inr (True, j_vm j) \<and>
    (\<forall>m \<in> set all_methods. native_in cls m \<longrightarrow>
       (\<exists>cls1. j_vm j1 zygote_class = Some cls1 \<and> data_of cls1 m = nm_fnPtr m))"
  using assms by (rule jni_hooks_undone)

text \<open>A zygote class of Android 14.\<close>

definition sample_class :: java_class where
  "sample_class k =
     (if k \<in> set (map key [nativeForkAndSpecialize_methods ! 5, nativeSpecializeAppProcess_methods ! 3,
            nativeForkSystemServer_methods ! 0])
      then Some \<lparr>jm_static = True, jm_modifiers = 0x10A, jm_data = Some (Art_fn (length (snd k)))\<rparr> else None)"

definition sample_jni :: jni where
  "sample_jni =
     \<lparr>j_vm = (\<lambda>c. if c = zygote_class then Some sample_class else None), can_hook_jni = True,
      MODIFIER_NATIVE = ACC_NATIVE, member_getModifiers = True, j_fork = nativeForkAndSpecialize_methods,
      j_specialize = nativeSpecializeAppProcess_methods, j_server = nativeForkSystemServer_methods,
      nativeForkAndSpecialize_orig = None, nativeSpecializeAppProcess_orig = None, nativeForkSystemServer_orig = None,
      jni_hook_list = Some []\<rparr>"

theorem jni_hooks_roundtrip_witness:
  "native_in sample_class (nativeForkAndSpecialize_methods ! 5) \<and>
   (\<exists>j1 l. do_hook_zygote sample_jni = Inr j1 \<and> jni_hook_list j1 = Some l \<and>
      restore l (j_vm j1) = Inr (True, j_vm sample_jni))"
proof -
  have o: "one_native sample_class nativeForkAndSpecialize_methods"
    "one_native sample_class nativeSpecializeAppProcess_methods" "one_native sample_class nativeForkSystemServer_methods"
    "native_in sample_class (nativeForkAndSpecialize_methods ! 5)"
    by code_simp+
  show ?thesis
    using o jni_hooks_roundtrip [of sample_jni sample_class] by (auto simp: sample_jni_def)
qed

end
