(* ===== verification/Unmount.thy ===== *)
theory Unmount
  imports Mount_Info
begin

text \<open>
  The reversal of the root solutions' mounts, \<open>loader/src/injector/unmount.cpp\<close>.  An operation gives the
  mount points it passes to \<open>umount2\<close>, in order; the two readings of \<open>/proc/self/mountinfo\<close> are its inputs.
  What \<open>umount2\<close> does to the mount table is a parameter of the lemmas about the outcome.
\<close>

section \<open>Operations\<close>

definition MODULE_DIR :: string where "MODULE_DIR = ''/data/adb/modules''"
definition KSU_OVERLAY_SOURCE :: string where "KSU_OVERLAY_SOURCE = ''KSU''"
definition AP_OVERLAY_SOURCE :: string where "AP_OVERLAY_SOURCE = ''APatch''"

definition DEVICE_PARTITIONS :: "string list" where
  "DEVICE_PARTITIONS = [''/system'', ''/vendor'', ''/product'', ''/system_ext'', ''/odm'', ''/oem'']"

text \<open>The paths have no NUL, since they are cut out of a line that ends at its first one.\<close>

definition lazy_unmount :: "string \<Rightarrow> string list \<Rightarrow> string list" where
  "lazy_unmount mountpoint calls = calls @ [mountpoint]"

text \<open>The first loop of the variants for KernelSU and APatch, with the loop device found so far.\<close>

fun overlay_pass :: "string \<Rightarrow> mount_info list \<Rightarrow> string \<times> string list \<Rightarrow> string \<times> string list" where
  "overlay_pass src [] st = st"
| "overlay_pass src (info # ms) (loop, targets) =
     (if mnt_target info = MODULE_DIR then overlay_pass src ms (mnt_source info, targets)
      else
        (let t1 = (if starts_with (mnt_target info) ''/data/adb'' then targets @ [mnt_target info] else targets);
             t2 = (if mnt_type info = ''overlay'' \<and> mnt_source info = src \<and> mnt_target info \<in> set DEVICE_PARTITIONS
                   then t1 @ [mnt_target info] else t1);
             t3 = (if mnt_type info = ''tmpfs'' \<and> mnt_source info = src then t2 @ [mnt_target info] else t2)
         in overlay_pass src ms (loop, t3)))"

fun loop_pass :: "string \<Rightarrow> mount_info list \<Rightarrow> string list \<Rightarrow> string list" where
  "loop_pass loop [] targets = targets"
| "loop_pass loop (info # ms) targets =
     loop_pass loop ms
       (if mnt_source info = loop \<and> mnt_target info \<noteq> MODULE_DIR then targets @ [mnt_target info] else targets)"

definition ksu_unmounts :: "mount_info list \<Rightarrow> mount_info list \<Rightarrow> string list" where
  "ksu_unmounts ms1 ms2 =
     (case overlay_pass KSU_OVERLAY_SOURCE ms1 ([], [MODULE_DIR]) of (ksu_loop, targets) \<Rightarrow>
        fold lazy_unmount (reversed (loop_pass ksu_loop ms2 targets)) [])"

definition apatch_unmounts :: "mount_info list \<Rightarrow> mount_info list \<Rightarrow> string list" where
  "apatch_unmounts ms1 ms2 =
     (case overlay_pass AP_OVERLAY_SOURCE ms1 ([], [MODULE_DIR]) of (ap_loop, targets) \<Rightarrow>
        fold lazy_unmount (reversed (loop_pass ap_loop ms2 targets)) [])"

fun magisk_pass :: "mount_info list \<Rightarrow> string list \<Rightarrow> string list" where
  "magisk_pass [] targets = targets"
| "magisk_pass (info # ms) targets =
     (let t1 = (if mnt_source info = ''magisk'' \<or> mnt_source info = ''worker'' \<or>
                   starts_with (mnt_root info) ''/adb/modules''
                then targets @ [mnt_target info] else targets);
          t2 = (if starts_with (mnt_target info) ''/data/adb'' then t1 @ [mnt_target info] else t1)
      in magisk_pass ms t2)"

definition magisk_unmounts :: "mount_info list \<Rightarrow> string list" where
  "magisk_unmounts ms = fold lazy_unmount (reversed (magisk_pass ms [])) []"

text \<open>The exported operations, with the mountinfo file as it is read each time.\<close>

definition revert_unmount_ksu :: "string option \<Rightarrow> string option \<Rightarrow> string list res" where
  "revert_unmount_ksu f1 f2 =
     bind_r (parse_mount_info f1) (\<lambda>ms1. bind_r (parse_mount_info f2) (\<lambda>ms2. Inr (ksu_unmounts ms1 ms2)))"

definition revert_unmount_magisk :: "string option \<Rightarrow> string list res" where
  "revert_unmount_magisk f = bind_r (parse_mount_info f) (\<lambda>ms. Inr (magisk_unmounts ms))"

definition revert_unmount_apatch :: "string option \<Rightarrow> string option \<Rightarrow> string list res" where
  "revert_unmount_apatch f1 f2 =
     bind_r (parse_mount_info f1) (\<lambda>ms1. bind_r (parse_mount_info f2) (\<lambda>ms2. Inr (apatch_unmounts ms1 ms2)))"

section \<open>The targets\<close>

lemma fold_lazy_unmount [simp]: "fold lazy_unmount ts calls = calls @ ts"
  by (induction ts arbitrary: calls) (simp_all add: lazy_unmount_def)

definition overlay_of :: "string \<Rightarrow> mount_info \<Rightarrow> bool" where
  "overlay_of src i \<longleftrightarrow> mnt_target i \<noteq> MODULE_DIR \<and>
     (starts_with (mnt_target i) ''/data/adb'' \<or>
      mnt_type i = ''overlay'' \<and> mnt_source i = src \<and> mnt_target i \<in> set DEVICE_PARTITIONS \<or>
      mnt_type i = ''tmpfs'' \<and> mnt_source i = src)"

definition magisk_of :: "mount_info \<Rightarrow> bool" where
  "magisk_of i \<longleftrightarrow> mnt_source i = ''magisk'' \<or> mnt_source i = ''worker'' \<or> starts_with (mnt_root i) ''/adb/modules'' \<or>
     starts_with (mnt_target i) ''/data/adb''"

text \<open>The device behind the topmost mount on the module directory.\<close>

definition loop_of :: "mount_info list \<Rightarrow> string" where
  "loop_of ms = (case find (\<lambda>i. mnt_target i = MODULE_DIR) (rev ms) of None \<Rightarrow> [] | Some i \<Rightarrow> mnt_source i)"

definition on_loop :: "string \<Rightarrow> mount_info \<Rightarrow> bool" where
  "on_loop loop i \<longleftrightarrow> mnt_source i = loop \<and> mnt_target i \<noteq> MODULE_DIR"

definition at_target :: "string \<Rightarrow> mount_info list \<Rightarrow> nat" where
  "at_target t ms = length (filter (\<lambda>i. mnt_target i = t) ms)"

lemma find_append: "find P (xs @ ys) = (case find P xs of None \<Rightarrow> find P ys | Some x \<Rightarrow> Some x)"
  by (induction xs) auto

lemma overlay_pass_loop:
  "fst (overlay_pass src ms (loop, ts)) =
     (case find (\<lambda>i. mnt_target i = MODULE_DIR) (rev ms) of None \<Rightarrow> loop | Some i \<Rightarrow> mnt_source i)"
  by (induction ms arbitrary: loop ts) (auto simp: find_append Let_def split: option.splits)

lemma overlay_pass_targets:
  "\<exists>us. snd (overlay_pass src ms (loop, ts)) = ts @ us \<and> set us = mnt_target ` {i \<in> set ms. overlay_of src i} \<and>
     (\<forall>t. count_list us t \<ge> length (filter (\<lambda>i. mnt_target i = t \<and> overlay_of src i) ms))"
proof (induction ms arbitrary: loop ts)
  case (Cons i ms)
  define ws where "ws = (if mnt_target i = MODULE_DIR then []
    else (if starts_with (mnt_target i) ''/data/adb'' then [mnt_target i] else []) @
         (if mnt_type i = ''overlay'' \<and> mnt_source i = src \<and> mnt_target i \<in> set DEVICE_PARTITIONS
          then [mnt_target i] else []) @
         (if mnt_type i = ''tmpfs'' \<and> mnt_source i = src then [mnt_target i] else []))"
  have e: "\<exists>l. overlay_pass src (i # ms) (loop, ts) = overlay_pass src ms (l, ts @ ws)"
    by (auto simp: ws_def Let_def)
  have w: "set ws = (if overlay_of src i then {mnt_target i} else {})" by (auto simp: ws_def overlay_of_def)
  then have "count_list ws (mnt_target i) \<ge> (if overlay_of src i then 1 else 0)"
    by (auto simp: ws_def overlay_of_def)
  then have c: "count_list ws t \<ge> (if mnt_target i = t \<and> overlay_of src i then 1 else 0)" for t by auto
  obtain l where l: "overlay_pass src (i # ms) (loop, ts) = overlay_pass src ms (l, ts @ ws)" using e by blast
  obtain us where us: "snd (overlay_pass src ms (l, ts @ ws)) = ts @ ws @ us"
    "set us = mnt_target ` {i \<in> set ms. overlay_of src i}"
    "\<forall>t. count_list us t \<ge> length (filter (\<lambda>i. mnt_target i = t \<and> overlay_of src i) ms)"
    using Cons.IH [of l "ts @ ws"] by auto
  have "count_list (ws @ us) t \<ge> length (filter (\<lambda>i. mnt_target i = t \<and> overlay_of src i) (i # ms))" for t
    using c [of t] us(3) [rule_format, of t] by (auto simp: count_list_append)
  moreover have "set (ws @ us) = mnt_target ` {j \<in> set (i # ms). overlay_of src j}" using w us(2) by auto
  ultimately show ?case using l us(1) by (intro exI [of _ "ws @ us"]) simp
qed simp

lemma loop_pass_targets: "loop_pass loop ms ts = ts @ map mnt_target (filter (on_loop loop) ms)"
  by (induction ms arbitrary: ts) (simp_all add: on_loop_def)

lemma magisk_pass_targets:
  "\<exists>us. magisk_pass ms ts = ts @ us \<and> set us = mnt_target ` {i \<in> set ms. magisk_of i} \<and>
     (\<forall>t. count_list us t \<ge> length (filter (\<lambda>i. mnt_target i = t \<and> magisk_of i) ms))"
proof (induction ms arbitrary: ts)
  case (Cons i ms)
  define ws where "ws = (if mnt_source i = ''magisk'' \<or> mnt_source i = ''worker'' \<or>
      starts_with (mnt_root i) ''/adb/modules'' then [mnt_target i] else []) @
    (if starts_with (mnt_target i) ''/data/adb'' then [mnt_target i] else [])"
  have l: "magisk_pass (i # ms) ts = magisk_pass ms (ts @ ws)" by (simp add: ws_def Let_def)
  have w: "set ws = (if magisk_of i then {mnt_target i} else {})" by (auto simp: ws_def magisk_of_def)
  have c: "count_list ws t \<ge> (if mnt_target i = t \<and> magisk_of i then 1 else 0)" for t
    by (auto simp: ws_def magisk_of_def)
  obtain us where us: "magisk_pass ms (ts @ ws) = ts @ ws @ us" "set us = mnt_target ` {i \<in> set ms. magisk_of i}"
    "\<forall>t. count_list us t \<ge> length (filter (\<lambda>i. mnt_target i = t \<and> magisk_of i) ms)"
    using Cons.IH [of "ts @ ws"] by auto
  have "count_list (ws @ us) t \<ge> length (filter (\<lambda>i. mnt_target i = t \<and> magisk_of i) (i # ms))" for t
    using c [of t] us(3) [rule_format, of t] by (auto simp: count_list_append)
  moreover have "set (ws @ us) = mnt_target ` {j \<in> set (i # ms). magisk_of j}" using w us(2) by auto
  ultimately show ?case using l us(1) by (intro exI [of _ "ws @ us"]) simp
qed simp

section \<open>The effect on the mount table\<close>

text \<open>\<open>umount2(t, MNT_DETACH)\<close> detaches the topmost mount on \<open>t\<close>, if there is one, with what is mounted below it.
  The table lists a mount behind those it covers.\<close>

fun remove_first :: "string \<Rightarrow> mount_info list \<Rightarrow> mount_info list" where
  "remove_first t [] = []"
| "remove_first t (i # ms) = (if mnt_target i = t then ms else i # remove_first t ms)"

definition remove_top :: "string \<Rightarrow> mount_info list \<Rightarrow> mount_info list" where
  "remove_top t ms = rev (remove_first t (rev ms))"

definition detaches :: "(string \<Rightarrow> mount_info list \<Rightarrow> mount_info list) \<Rightarrow> bool" where
  "detaches umount2 \<longleftrightarrow> (\<forall>t ms. subseq (umount2 t ms) (remove_top t ms))"

lemma at_target_remove_top: "at_target t' (remove_top t ms) = at_target t' ms - (if t = t' then 1 else 0)"
proof -
  have "at_target t' (remove_first t ms) = at_target t' ms - (if t = t' then 1 else 0)" for ms
    by (induction ms) (auto simp: at_target_def Suc_diff_le)
  moreover have "at_target t' (rev ms) = at_target t' ms" for ms by (simp add: at_target_def rev_filter [symmetric])
  ultimately show ?thesis by (simp add: remove_top_def)
qed

lemma at_target_subseq: "subseq xs ys \<Longrightarrow> at_target t xs \<le> at_target t ys"
  unfolding at_target_def by (rule list_emb_length [OF subseq_filter])

lemma at_target_unmounted:
  "detaches umount2 \<Longrightarrow> at_target t (fold umount2 ts ms) \<le> at_target t ms - count_list ts t"
proof (induction ts arbitrary: ms)
  case (Cons u ts)
  have "at_target t (umount2 u ms) \<le> at_target t ms - (if u = t then 1 else 0)"
    using Cons.prems at_target_subseq [of "umount2 u ms" "remove_top u ms" t]
    by (simp add: detaches_def at_target_remove_top)
  with Cons.IH [OF Cons.prems, of "umount2 u ms"] show ?case by auto
qed simp

lemma at_target_cleared:
  assumes "detaches umount2" and "\<forall>i \<in> set ms. mnt_target i = t \<longrightarrow> P i"
    and "count_list ts t \<ge> length (filter (\<lambda>i. mnt_target i = t \<and> P i) ms)"
  shows "at_target t (fold umount2 ts ms) = 0"
proof -
  have "filter (\<lambda>i. mnt_target i = t \<and> P i) ms = filter (\<lambda>i. mnt_target i = t) ms"
    using assms(2) by (auto intro: filter_cong)
  with assms(3) at_target_unmounted [OF assms(1), of t ts ms] show ?thesis by (simp add: at_target_def)
qed

section \<open>The variants with an overlay source\<close>

locale overlay_revert =
  fixes src :: string
    and revert :: "mount_info list \<Rightarrow> mount_info list \<Rightarrow> string list"
  assumes revert_targets:
    "\<exists>us. revert ms1 ms2 = rev (MODULE_DIR # us @ map mnt_target (filter (on_loop (loop_of ms1)) ms2)) \<and>
       set us = mnt_target ` {i \<in> set ms1. overlay_of src i} \<and>
       (\<forall>t. count_list us t \<ge> length (filter (\<lambda>i. mnt_target i = t \<and> overlay_of src i) ms1))"
begin

lemma module_dir_last:
  "\<exists>ts. revert ms1 ms2 = ts @ [MODULE_DIR] \<and> MODULE_DIR \<notin> set ts \<and>
     set ts = mnt_target ` {i \<in> set ms1. overlay_of src i} \<union> mnt_target ` {i \<in> set ms2. on_loop (loop_of ms1) i}"
proof -
  obtain us where "revert ms1 ms2 = rev (MODULE_DIR # us @ map mnt_target (filter (on_loop (loop_of ms1)) ms2))"
    "set us = mnt_target ` {i \<in> set ms1. overlay_of src i}" using revert_targets by blast
  then show ?thesis
    by (intro exI [of _ "rev (us @ map mnt_target (filter (on_loop (loop_of ms1)) ms2))"])
      (auto simp: overlay_of_def on_loop_def)
qed

lemma clears:
  assumes "detaches umount2" and "\<forall>i \<in> set ms. mnt_target i = t \<longrightarrow> overlay_of src i \<or> on_loop (loop_of ms) i"
  shows "at_target t (fold umount2 (revert ms ms) ms) = 0"
proof (rule at_target_cleared [OF assms])
  obtain us where r: "revert ms ms = rev (MODULE_DIR # us @ map mnt_target (filter (on_loop (loop_of ms)) ms))"
    "count_list us t \<ge> length (filter (\<lambda>i. mnt_target i = t \<and> overlay_of src i) ms)"
    using revert_targets [of ms ms] by blast
  have c: "count_list (map mnt_target (filter (on_loop l) ms)) t = length (filter (\<lambda>i. mnt_target i = t \<and> on_loop l i) ms)"
    for l by (induction ms) auto
  have le: "length (filter (\<lambda>i. mnt_target i = t \<and> (P i \<or> Q i)) ms) \<le>
      length (filter (\<lambda>i. mnt_target i = t \<and> P i) ms) + length (filter (\<lambda>i. mnt_target i = t \<and> Q i) ms)" for P Q
    by (induction ms) auto
  show "length (filter (\<lambda>i. mnt_target i = t \<and> (overlay_of src i \<or> on_loop (loop_of ms) i)) ms) \<le>
      count_list (revert ms ms) t"
    using r(2) le [of "overlay_of src" "on_loop (loop_of ms)"] unfolding r(1)
    by (auto simp: count_list_append c)
qed

end

lemma overlay_targets:
  "\<exists>us. (case overlay_pass src ms1 ([], [MODULE_DIR]) of (loop, targets) \<Rightarrow>
        fold lazy_unmount (reversed (loop_pass loop ms2 targets)) []) =
      rev (MODULE_DIR # us @ map mnt_target (filter (on_loop (loop_of ms1)) ms2)) \<and>
    set us = mnt_target ` {i \<in> set ms1. overlay_of src i} \<and>
    (\<forall>t. count_list us t \<ge> length (filter (\<lambda>i. mnt_target i = t \<and> overlay_of src i) ms1))"
proof -
  obtain us where us: "snd (overlay_pass src ms1 ([], [MODULE_DIR])) = [MODULE_DIR] @ us"
    "set us = mnt_target ` {i \<in> set ms1. overlay_of src i}"
    "\<forall>t. count_list us t \<ge> length (filter (\<lambda>i. mnt_target i = t \<and> overlay_of src i) ms1)"
    using overlay_pass_targets [of src ms1 "[]" "[MODULE_DIR]"] by blast
  have "overlay_pass src ms1 ([], [MODULE_DIR]) = (loop_of ms1, MODULE_DIR # us)"
    using us(1) overlay_pass_loop [of src ms1 "[]" "[MODULE_DIR]"] by (simp add: prod_eq_iff loop_of_def)
  with us show ?thesis by (auto simp: loop_pass_targets reversed_def)
qed

interpretation ksu: overlay_revert KSU_OVERLAY_SOURCE ksu_unmounts
  by unfold_locales (simp only: ksu_unmounts_def overlay_targets)

interpretation ap: overlay_revert AP_OVERLAY_SOURCE apatch_unmounts
  by unfold_locales (simp only: apatch_unmounts_def overlay_targets)

section \<open>Properties\<close>

text \<open>The variants for KernelSU and APatch pass to \<open>umount2\<close> exactly the mounts below \<open>/data/adb\<close>, the solution's
  overlays on the device partitions, its temporary file systems and what comes from the loop device of the
  module directory; the module directory itself comes once, after all of them.\<close>

lemma overlay_unmount_targets:
  assumes "parse_mount_info f1 = Inr ms1" and "parse_mount_info f2 = Inr ms2"
  shows "(\<exists>ts. revert_unmount_ksu f1 f2 = Inr (ts @ [MODULE_DIR]) \<and> MODULE_DIR \<notin> set ts \<and>
      set ts = mnt_target ` {i \<in> set ms1. overlay_of KSU_OVERLAY_SOURCE i} \<union>
        mnt_target ` {i \<in> set ms2. on_loop (loop_of ms1) i}) \<and>
    (\<exists>ts. revert_unmount_apatch f1 f2 = Inr (ts @ [MODULE_DIR]) \<and> MODULE_DIR \<notin> set ts \<and>
      set ts = mnt_target ` {i \<in> set ms1. overlay_of AP_OVERLAY_SOURCE i} \<union>
        mnt_target ` {i \<in> set ms2. on_loop (loop_of ms1) i})"
  using ksu.module_dir_last [of ms1 ms2] ap.module_dir_last [of ms1 ms2]
  by (simp add: revert_unmount_ksu_def revert_unmount_apatch_def assms)

lemma overlay_unmount_targets_witness:
  "\<exists>ts. revert_unmount_ksu None None = Inr (ts @ [MODULE_DIR]) \<and> set ts = {}"
  using overlay_unmount_targets [of None "[]" None "[]"]
  by (simp add: parse_mount_info_def file_readline_path_def)



end
