(* ===== verification/Zygisk_Hooks.thy ===== *)
theory Zygisk_Hooks
  imports Zygisk_Run Jni_Hooks Unmount
begin

text \<open>
  The library inside the zygote, from \<open>loader/src/injector/entry.cpp\<close> and \<open>hook.cpp\<close>: its entry, the functions it
  puts in the place of the C library's (\<open>fork\<close>, \<open>unshare\<close>, \<open>strdup\<close>, \<open>__android_log_close\<close>,
  \<open>pthread_attr_destroy\<close>), the wrappers of the zygote's methods, the destructor of the context, and the unloading.

  The state is one process, before or after a fork; which of the two is decided by what \<open>fork\<close> returns in the
  environment.  What \<open>lsplt\<close> finds is a parameter, and so are the calls that the original method makes.
\<close>

section \<open>State\<close>

datatype plt_fn = PF_fork | PF_unshare | PF_strdup | PF_android_log_close | PF_pthread_attr_destroy

text \<open>Addresses of the library's functions and of the variables that keep the replaced ones.\<close>

definition new_addr :: "plt_fn \<Rightarrow> nat" where
  "new_addr f =
     (case f of PF_fork \<Rightarrow> 1 | PF_unshare \<Rightarrow> 2 | PF_strdup \<Rightarrow> 3 | PF_android_log_close \<Rightarrow> 4 | PF_pthread_attr_destroy \<Rightarrow> 5)"

definition old_addr :: "plt_fn \<Rightarrow> nat" where
  "old_addr f = 5 + new_addr f"

type_synonym plt_entry = "u64 \<times> u64 \<times> string \<times> plt_fn"

record zproc =
  zp :: zygote
  zp_jni :: jni
  should_unmap_zygisk :: bool
  plt_hook_list :: "plt_entry list option"
  plt_pending :: "plt_entry list"        \<comment> \<open>registered and not yet committed\<close>
  old_fn :: "plt_fn \<Rightarrow> nat"              \<comment> \<open>\<open>old_\<close> variables, 0 is null\<close>
  self_handle :: nat
  zp_errno :: int
  zp_unmounts :: "string list"           \<comment> \<open>calls of \<open>umount2\<close>\<close>
  zp_forks :: "int list"                 \<comment> \<open>what \<open>fork\<close> returned to the original method\<close>
  zp_unloaded :: bool

text \<open>Calls of the original method, with what the kernel returns and whether it is the main thread.\<close>

datatype libcall =
    L_fork int | L_unshare u32 int | L_android_log_close | L_pthread_attr_destroy bool | L_strdup string

record henv =
  h_env :: zenv
  h_jenv :: jenv
  h_maps :: "map_info list"
  h_register :: "u64 \<Rightarrow> u64 \<Rightarrow> string \<Rightarrow> bool"
  h_orig :: "u64 \<Rightarrow> u64 \<Rightarrow> string \<Rightarrow> nat"  \<comment> \<open>what a commit stores as the replaced function, 0 if it finds none\<close>
  h_mountinfo :: "string option \<times> string option"
  h_original :: "libcall list"

section \<open>PLT hooks of the library\<close>

definition hook_commit :: "henv \<Rightarrow> zproc \<Rightarrow> bool \<times> zproc" where
  "hook_commit h p =
     (case CommitHook (h_env h) (zp p) of (ok, z) \<Rightarrow>
        (ok, p\<lparr>zp := z, plt_pending := [],
               old_fn := (\<lambda>f. case find (\<lambda>(dev, inode, s, g). g = f) (plt_pending p) of
                                None \<Rightarrow> old_fn p f | Some (dev, inode, s, _) \<Rightarrow> h_orig h dev inode s)\<rparr>))"

definition hook_register :: "henv \<Rightarrow> u64 \<Rightarrow> u64 \<Rightarrow> string \<Rightarrow> plt_fn \<Rightarrow> zproc \<Rightarrow> zproc res" where
  "hook_register h dev inode symbol f p =
     (if \<not> h_register h dev inode symbol then Inr p
      else
        (let p1 = p\<lparr>zp := RegisterHook dev inode symbol (new_addr f) (old_addr f) (zp p),
                    plt_pending := plt_pending p @ [(dev, inode, symbol, f)]\<rparr>
         in case plt_hook_list p1 of
              None \<Rightarrow> Inl Null_Deref
            | Some l \<Rightarrow> Inr (p1\<lparr>plt_hook_list := Some (l @ [(dev, inode, symbol, f)])\<rparr>)))"

definition find_lib :: "string \<Rightarrow> map_info list \<Rightarrow> u64 \<times> u64" where
  "find_lib sfx maps =
     (case find (\<lambda>m. ends_with (mi_path m) sfx) maps of None \<Rightarrow> (0, 0) | Some m \<Rightarrow> (mi_dev m, mi_inode m))"

definition hook_functions :: "henv \<Rightarrow> zproc \<Rightarrow> zproc res" where
  "hook_functions h p =
     (let p1 = p\<lparr>plt_hook_list := Some [], zp_jni := (zp_jni p)\<lparr>jni_hook_list := Some []\<rparr>\<rparr> in
      case find_lib ''libandroid_runtime.so'' (h_maps h) of (dev, inode) \<Rightarrow>
        bind_r (hook_register h dev inode ''fork'' PF_fork p1) (\<lambda>p2.
        bind_r (hook_register h dev inode ''unshare'' PF_unshare p2) (\<lambda>p3.
        bind_r (hook_register h dev inode ''strdup'' PF_strdup p3) (\<lambda>p4.
        bind_r (hook_register h dev inode ''__android_log_close'' PF_android_log_close p4) (\<lambda>p5.
          let p6 = snd (hook_commit h p5)
          in Inr (p6\<lparr>plt_hook_list := map_option (filter (\<lambda>(_, _, _, f). old_fn p6 f \<noteq> 0)) (plt_hook_list p6)\<rparr>))))))"

definition hook_unloader :: "henv \<Rightarrow> zproc \<Rightarrow> zproc res" where
  "hook_unloader h p =
     (case find_lib ''/libart.so'' (h_maps h) of (dev, inode) \<Rightarrow>
        bind_r (hook_register h dev inode ''pthread_attr_destroy'' PF_pthread_attr_destroy p) (\<lambda>p1.
          Inr (snd (hook_commit h p1))))"

text \<open>A failing registration is only logged.  The list is deleted and its pointer stays.\<close>

definition unhook_functions :: "henv \<Rightarrow> zproc \<Rightarrow> zproc res" where
  "unhook_functions h p =
     (case plt_hook_list p of
        None \<Rightarrow> Inl Null_Deref
      | Some l \<Rightarrow>
          let z1 = fold (\<lambda>(dev, inode, s, f) z. if h_register h dev inode s then RegisterHook dev inode s (old_fn p f) 0 z else z)
                     l (zp p)
          in case hook_commit h (p\<lparr>zp := z1\<rparr>) of (ok, p1) \<Rightarrow>
               Inr (if ok then p1 else p1\<lparr>should_unmap_zygisk := False\<rparr>))"

section \<open>The replaced functions\<close>

definition new_fork :: "int \<Rightarrow> zproc \<Rightarrow> int" where
  "new_fork real p = (if g_ctx (zp p) \<and> c_pid (zp p) \<ge> 0 then c_pid (zp p) else real)"

definition CLONE_NEWNS :: u32 where "CLONE_NEWNS = 0x20000"

definition new_unshare :: "henv \<Rightarrow> u32 \<Rightarrow> int \<Rightarrow> zproc \<Rightarrow> zproc res" where
  "new_unshare h fl res p =
     (let z = zp p; info = c_info_flags z; f1 = fst (h_mountinfo h); f2 = snd (h_mountinfo h) in
      if g_ctx z \<and> fl AND CLONE_NEWNS \<noteq> 0 \<and> res = 0 \<and> info AND PROCESS_IS_SYS_UI = 0
      then
        bind_r (if DO_REVERT_UNMOUNT \<in> c_flags z
                then if info AND PROCESS_ROOT_IS_KSU \<noteq> 0 then revert_unmount_ksu f1 f2
                     else if info AND PROCESS_ROOT_IS_APATCH \<noteq> 0 then revert_unmount_apatch f1 f2
                     else if info AND PROCESS_ROOT_IS_MAGISK \<noteq> 0 then revert_unmount_magisk f1
                     else Inr []
                else Inr []) (\<lambda>calls.
          Inr (p\<lparr>zp_unmounts := zp_unmounts p @ calls, zp_errno := 0\<rparr>))
      else Inr p)"

definition new_android_log_close :: "zproc \<Rightarrow> zproc" where
  "new_android_log_close p =
     (if \<not> g_ctx (zp p) then p\<lparr>zp := setfd (-1) (zp p)\<rparr>
      else if SKIP_FD_SANITIZATION \<notin> c_flags (zp p) then p\<lparr>zp := setfd (-1) (zp p)\<rparr>
      else p)"

definition new_pthread_attr_destroy :: "henv \<Rightarrow> bool \<Rightarrow> zproc \<Rightarrow> zproc res" where
  "new_pthread_attr_destroy h main_thread p =
     (if \<not> main_thread then Inr p
      else if should_unmap_zygisk p
      then bind_r (unhook_functions h p) (\<lambda>p1.
             Inr (if should_unmap_zygisk p1 then p1\<lparr>zp_unloaded := True\<rparr> else p1))
      else Inr p)"

definition new_strdup :: "henv \<Rightarrow> string \<Rightarrow> zproc \<Rightarrow> zproc res" where
  "new_strdup h s p =
     (if s = ''com.android.internal.os.ZygoteInit''
      then bind_r (initialize_jni_hook (h_jenv h) (zp_jni p)) (\<lambda>j. Inr (p\<lparr>zp_jni := j\<rparr>))
      else Inr p)"

text \<open>A call of the original method goes to the library's function if the hook is in place.\<close>

definition libcall :: "henv \<Rightarrow> libcall \<Rightarrow> zproc \<Rightarrow> zproc res" where
  "libcall h c p =
     (case c of
        L_fork real \<Rightarrow> Inr (p\<lparr>zp_forks := zp_forks p @ [if old_fn p PF_fork \<noteq> 0 then new_fork real p else real]\<rparr>)
      | L_unshare fl res \<Rightarrow> if old_fn p PF_unshare \<noteq> 0 then new_unshare h fl res p else Inr p
      | L_android_log_close \<Rightarrow> Inr (if old_fn p PF_android_log_close \<noteq> 0 then new_android_log_close p else p)
      | L_pthread_attr_destroy m \<Rightarrow>
          if old_fn p PF_pthread_attr_destroy \<noteq> 0 then new_pthread_attr_destroy h m p else Inr p
      | L_strdup s \<Rightarrow> if old_fn p PF_strdup \<noteq> 0 then new_strdup h s p else Inr p)"

fun libcalls :: "henv \<Rightarrow> libcall list \<Rightarrow> zproc \<Rightarrow> zproc res" where
  "libcalls h [] p = Inr p"
| "libcalls h (c # cs) p = bind_r (libcall h c p) (libcalls h cs)"

section \<open>The context's end\<close>

definition is_child :: "zygote \<Rightarrow> bool" where
  "is_child z \<longleftrightarrow> c_pid z \<le> 0"

definition destroy_ZygiskContext :: "henv \<Rightarrow> zproc \<Rightarrow> zproc res" where
  "destroy_ZygiskContext h p =
     (let p1 = p\<lparr>zp := (zp p)\<lparr>g_ctx := False\<rparr>\<rparr> in
      if \<not> is_child (zp p1) then Inr p1
      else
        (case jni_hook_list (zp_jni p1) of
           None \<Rightarrow> Inl Null_Deref
         | Some l \<Rightarrow>
             bind_r (restore l (j_vm (zp_jni p1))) (\<lambda>(ok, vm).
               hook_unloader h
                 (p1\<lparr>should_unmap_zygisk := ok, zp_jni := (zp_jni p1)\<lparr>j_vm := vm, jni_hook_list := None\<rparr>,
                     zp := (zp p1)\<lparr>c_modules := map (\<lambda>(m, code). (clearApi m, code)) (c_modules (zp p1))\<rparr>\<rparr>))))"

section \<open>The wrappers\<close>

definition pre_of :: "method_kind \<Rightarrow> zenv \<Rightarrow> zygote \<Rightarrow> zygote res" where
  "pre_of k =
     (case k of ForkAndSpecialize \<Rightarrow> nativeForkAndSpecialize_pre | SpecializeAppProcess \<Rightarrow> nativeSpecializeAppProcess_pre
      | ForkSystemServer \<Rightarrow> nativeForkSystemServer_pre)"

definition post_of :: "method_kind \<Rightarrow> zenv \<Rightarrow> zygote \<Rightarrow> zygote res" where
  "post_of k =
     (case k of ForkAndSpecialize \<Rightarrow> nativeForkAndSpecialize_post | SpecializeAppProcess \<Rightarrow> nativeSpecializeAppProcess_post
      | ForkSystemServer \<Rightarrow> nativeForkSystemServer_post)"

definition jni_orig :: "method_kind \<Rightarrow> jni \<Rightarrow> jni_fn option" where
  "jni_orig k j =
     (case k of ForkAndSpecialize \<Rightarrow> nativeForkAndSpecialize_orig j
      | SpecializeAppProcess \<Rightarrow> nativeSpecializeAppProcess_orig j | ForkSystemServer \<Rightarrow> nativeForkSystemServer_orig j)"

text \<open>The value is \<open>ctx.pid\<close>, which the specialisation without a fork does not return.\<close>

definition wrapper :: "henv \<Rightarrow> jni_variant \<Rightarrow> u32 \<Rightarrow> fd list option \<Rightarrow> zproc \<Rightarrow> (int \<times> zproc) res" where
  "wrapper h v uid fds_to_ignore p =
     (let k = kind_of v; ign = (if ''fds_to_ignore'' \<in> set (args_set v) then Some fds_to_ignore else None) in
      bind_r (pre_of k (h_env h) (ZygiskContext uid ign (zp p))) (\<lambda>z1.
      if jni_orig k (zp_jni p) = None then Inl Null_Deref
      else
        bind_r (libcalls h (h_original h) (p\<lparr>zp := z1\<rparr>)) (\<lambda>p2.
        bind_r (post_of k (h_env h) (zp p2)) (\<lambda>z3.
        bind_r (destroy_ZygiskContext h (p2\<lparr>zp := z3\<rparr>)) (\<lambda>p4.
          Inr (c_pid z3, p4))))))"

section \<open>Entry\<close>

text \<open>The release build: the log goes to the daemon.\<close>

definition entry :: "henv \<Rightarrow> nat \<Rightarrow> string \<Rightarrow> zproc \<Rightarrow> zproc res" where
  "entry h handle path p =
     (let c = Init path (z_client (zp p)); peer = e_peer (h_env h) in
      bind_r (PingHeartbeat peer c) (\<lambda>((alive, _), c1).
        let p1 = p\<lparr>self_handle := handle, zp := (zp p)\<lparr>z_client := c1\<rparr>\<rparr> in
        if \<not> alive then Inr p1
        else
          bind_r (RequestLogcatFd peer c1) (\<lambda>((f, _), c2).
            hook_functions h (p1\<lparr>zp := setfd f ((zp p1)\<lparr>z_client := c2\<rparr>)\<rparr>))))"

end
