(* ===== verification/Zygisk_Process.thy ===== *)
theory Zygisk_Process
  imports Zygisk_Hooks
begin

text \<open>
  Properties of the library's life in a process: what it does to the zygote itself, to an app on the denylist and to
  a new process at the end of a hooked method, what a failed fork makes of it, and how its hooks are undone.
\<close>

section \<open>What an app on the denylist sees\<close>

lemma run_modules_pre_info:
  assumes "run_modules_pre e z = Inr z'"
  shows "c_info_flags z' = c_info_flags z \<and> c_flags z \<subseteq> c_flags z' \<and> g_ctx z' = g_ctx z"
proof -
  obtain ms c where l: "for_modules (run_pre e) [0..<length (c_modules (load_modules e 0 ms (z\<lparr>z_client := c\<rparr>)))]
      (load_modules e 0 ms (z\<lparr>z_client := c\<rparr>)) = Inr z'"
    using assms by (auto simp: run_modules_pre_def res_simps Let_def)
  obtain ms' where "load_modules e 0 ms (z\<lparr>z_client := c\<rparr>) = z\<lparr>z_client := c, c_modules := ms'\<rparr>"
    using load_modules_keeps [of e 0 ms "z\<lparr>z_client := c\<rparr>"] by simp
  moreover have "frame (load_modules e 0 ms (z\<lparr>z_client := c\<rparr>)) z'" by (rule conjunct1 [OF for_modules_pre [OF l]]) simp
  ultimately show ?thesis by (simp add: frame_def)
qed

lemma process_flags_root:
  assumes "process_flags q uid = Some fl"
  shows "fl AND PROCESS_IS_SYS_UI = 0 \<and> (fl AND PROCESS_ROOT_IS_KSU \<noteq> 0 \<longleftrightarrow> rq_impl q = KernelSU) \<and>
    (fl AND PROCESS_ROOT_IS_APATCH \<noteq> 0 \<longleftrightarrow> rq_impl q = APatch) \<and>
    (fl AND PROCESS_ROOT_IS_MAGISK \<noteq> 0 \<longleftrightarrow> rq_impl q = Magisk) \<and>
    (fl AND PROCESS_ON_DENYLIST = PROCESS_ON_DENYLIST \<longleftrightarrow> \<not> rq_is_manager q uid \<and> rq_should_umount q uid)"
  using assms
  by (cases "rq_impl q"; cases "rq_is_manager q uid"; cases "rq_granted_root q uid"; cases "rq_should_umount q uid")
    (auto simp: process_flags_def root_flag_def process_flag_defs Let_def)

lemma app_specialize_pre_info:
  assumes "app_specialize_pre e z = Inr z'" and "GetProcessFlags (e_peer e) (c_uid z) (z_client z) = Inr (fl, c)"
  shows "c_info_flags z' = fl \<and> g_ctx z' = g_ctx z \<and>
    (fl AND PROCESS_ON_DENYLIST = PROCESS_ON_DENYLIST \<longrightarrow> DO_REVERT_UNMOUNT \<in> c_flags z')"
proof -
  define z1 where "z1 = (set_flag APP_SPECIALIZE z)\<lparr>z_client := c, c_info_flags := fl\<rparr>"
  define z2 where "z2 = (if fl AND PROCESS_ON_DENYLIST = PROCESS_ON_DENYLIST then set_flag DO_REVERT_UNMOUNT z1 else z1)"
  have "z' = z2\<lparr>zygisk_enabled := True\<rparr> \<or> run_modules_pre e z2 = Inr z'"
    using assms unfolding app_specialize_pre_def z1_def z2_def by (auto simp: Let_def split: if_splits)
  moreover have "c_info_flags z2 = fl \<and> g_ctx z2 = g_ctx z \<and>
      (fl AND PROCESS_ON_DENYLIST = PROCESS_ON_DENYLIST \<longrightarrow> DO_REVERT_UNMOUNT \<in> c_flags z2)"
    by (simp add: z1_def z2_def set_flag_def)
  ultimately show ?thesis using run_modules_pre_info [of e z2 z'] by auto
qed

text \<open>C13: An app that the daemon has on its denylist (and that is not the manager) gets its mounts reverted when it
  leaves the mount namespace of the zygote, by the routine for the root solution the daemon runs on, whatever the
  modules did before.\<close>

theorem denylist_unmounts:
  assumes "serves d (e_peer e)" and "reachable_daemon (z_client z)" and "g_ctx z"
    and "rq_should_umount (dn_root d) (sint (c_uid z))" and "\<not> rq_is_manager (dn_root d) (sint (c_uid z))"
    and "rq_impl (dn_root d) \<in> {KernelSU, APatch, Magisk}"
    and "app_specialize_pre e z = Inr (zp p)" and "fl AND CLONE_NEWNS \<noteq> 0"
    and "parse_mount_info (fst (h_mountinfo h)) = Inr ms1" and "parse_mount_info (snd (h_mountinfo h)) = Inr ms2"
  shows "new_unshare h fl 0 p =
    Inr (p\<lparr>zp_errno := 0, zp_unmounts := zp_unmounts p @
      (if rq_impl (dn_root d) = KernelSU then ksu_unmounts ms1 ms2
       else if rq_impl (dn_root d) = APatch then apatch_unmounts ms1 ms2 else magisk_unmounts ms1)\<rparr>)"
proof -
  obtain flags where pf: "process_flags (dn_root d) (sint (c_uid z)) = Some flags"
    using assms(6) by (auto simp: process_flags_def root_flag_def Let_def)
  obtain c where "GetProcessFlags (e_peer e) (c_uid z) (z_client z) = Inr (flags, c)"
    using GetProcessFlags_serves [OF assms(1,2) pf] by blast
  from app_specialize_pre_info [OF assms(7) this] process_flags_root [OF pf]
  have "c_info_flags (zp p) = flags" "g_ctx (zp p)" "DO_REVERT_UNMOUNT \<in> c_flags (zp p)" using assms(3-5) by auto
  with process_flags_root [OF pf] assms(6,8-10) show ?thesis
    by (auto simp: new_unshare_def Let_def revert_unmount_ksu_def revert_unmount_apatch_def revert_unmount_magisk_def)
qed

text \<open>An example: the process with its hooks in place.\<close>

definition sample_henv :: "int \<Rightarrow> libcall list \<Rightarrow> henv" where
  "sample_henv pid calls =
     \<lparr>h_env = (sample_env sample_code)\<lparr>e_fork := pid\<rparr>,
      h_jenv = \<lparr>je_default_sym = True, je_paths = [], je_dlopen = (\<lambda>_. False), je_helper_sym = False,
        je_created_vms = (0, True), je_get_env = (0, True), je_getModifiers = Some True,
        je_NATIVE = Some (Some 0x100), je_art_init = True\<rparr>,
      h_maps = [], h_register = (\<lambda>_ _ _. True), h_orig = (\<lambda>_ _ s. length s), h_mountinfo = (None, None),
      h_original = calls\<rparr>"

definition sample_proc :: "zygote \<Rightarrow> zproc" where
  "sample_proc z =
     \<lparr>zp = z, zp_jni = sample_jni\<lparr>nativeForkAndSpecialize_orig := Some (Art_fn 1)\<rparr>, should_unmap_zygisk = False,
      plt_hook_list = Some [(0, 0, ''fork'', PF_fork)], plt_pending = [],
      old_fn = (\<lambda>f. if f = PF_fork then 4 else 0), self_handle = 7, zp_errno = 1, zp_unmounts = [], zp_forks = [],
      zp_unloaded = False\<rparr>"

theorem denylist_unmounts_witness:
  "\<exists>z'. app_specialize_pre (sample_env sample_code)
       (sample_context\<lparr>sigchld_blocked := True, c_pid := 0, c_allowed_fds := {0, 1, 2}\<rparr>) = Inr z' \<and>
     (\<exists>p'. new_unshare (sample_henv 0 []) CLONE_NEWNS 0 (sample_proc z') = Inr p' \<and> zp_unmounts p' = [MODULE_DIR])"
    (is "\<exists>z'. app_specialize_pre ?e ?z = _ \<and> _")
proof -
  have "case for_modules (run_pre ?e) [0..<length (c_modules (sample_loaded sample_code))] (sample_loaded sample_code) of
      Inl _ \<Rightarrow> False | Inr _ \<Rightarrow> True" by code_simp
  then obtain z' where z': "app_specialize_pre ?e ?z = Inr z'"
    unfolding sample_specialize by (auto split: sum.splits)
  have c: "z_client ?z = z_client sample_zygote" "g_ctx ?z"
    by (simp_all add: sample_context_def set_flag_def ZygiskContext_def)
  have p: "zp (sample_proc z') = z'" by (simp add: sample_proc_def)
  have "CLONE_NEWNS AND CLONE_NEWNS \<noteq> 0" by (simp add: CLONE_NEWNS_def)
  moreover have "serves sample_daemon (e_peer ?e)" by (simp add: serves_def sample_env_def)
  moreover have "parse_mount_info None = Inr []" by (simp add: parse_mount_info_def file_readline_path_def)
  moreover have "ksu_unmounts [] [] = [MODULE_DIR]" by code_simp
  ultimately show ?thesis
    using denylist_unmounts [of sample_daemon ?e ?z "sample_proc z'" CLONE_NEWNS "sample_henv 0 []" "[]" "[]"]
      z' sample_reachable c p
    by (auto simp: sample_henv_def sample_daemon_def sample_proc_def)
qed

section \<open>The zygote itself\<close>

text \<open>What stays of a process in which no part of the library runs.\<close>

definition undisturbed :: "zproc \<Rightarrow> zproc \<Rightarrow> bool" where
  "undisturbed p q \<longleftrightarrow>
     z_log (zp q) = z_log (zp p) \<and> z_mem (zp q) = z_mem (zp p) \<and> z_ls (zp q) = z_ls (zp p) \<and> zp_jni q = zp_jni p \<and>
     set (z_fds (zp q)) \<subseteq> set (z_fds (zp p)) \<and> plt_hook_list q = plt_hook_list p \<and> old_fn q = old_fn p \<and>
     should_unmap_zygisk q = should_unmap_zygisk p \<and> zp_unmounts q = zp_unmounts p \<and> zp_unloaded q = zp_unloaded p"

definition parent_inv :: "int \<Rightarrow> zproc \<Rightarrow> zproc \<Rightarrow> bool" where
  "parent_inv pid p q \<longleftrightarrow>
     undisturbed p q \<and> g_ctx (zp q) \<and> c_pid (zp q) = pid \<and> DO_REVERT_UNMOUNT \<notin> c_flags (zp q) \<and> c_modules (zp q) = [] \<and>
     set (zp_forks q) \<subseteq> set (zp_forks p) \<union> {pid}"

lemma parent_libcall:
  assumes "parent_inv pid p q" and "pid > 0" and "\<not> should_unmap_zygisk p" and "old_fn p PF_fork \<noteq> 0"
    and "\<forall>s. c \<noteq> L_strdup s" and "libcall h c q = Inr q'"
  shows "parent_inv pid p q'"
proof -
  have o: "old_fn q = old_fn p" "should_unmap_zygisk q = should_unmap_zygisk p"
    using assms(1) by (simp_all add: parent_inv_def undisturbed_def)
  show ?thesis
  proof (cases c)
    case L_android_log_close
    have "parent_inv pid p (q\<lparr>zp := setfd (-1) (zp q)\<rparr>)"
      using assms(1) set_remove1_subset [of "logfd (zp q)" "z_fds (zp q)"]
      by (auto simp: parent_inv_def undisturbed_def setfd_def z_close_def close_fd_def)
    with L_android_log_close assms(1,6) show ?thesis
      by (auto simp: libcall_def new_android_log_close_def split: if_splits)
  qed (use assms o in \<open>auto simp: libcall_def parent_inv_def undisturbed_def new_fork_def new_unshare_def Let_def
      new_pthread_attr_destroy_def split: if_splits\<close>)
qed

lemma parent_libcalls:
  assumes "parent_inv pid p q" and "pid > 0" and "\<not> should_unmap_zygisk p" and "old_fn p PF_fork \<noteq> 0"
    and "\<forall>s. L_strdup s \<notin> set cs" and "libcalls h cs q = Inr q'"
  shows "parent_inv pid p q'"
  using assms
proof (induction cs arbitrary: q)
  case (Cons c cs)
  then obtain q1 where q1: "libcall h c q = Inr q1" "libcalls h cs q1 = Inr q'" by (auto simp: bind_r_eq_Inr)
  have c: "\<forall>s. c \<noteq> L_strdup s" "\<forall>s. L_strdup s \<notin> set cs" using Cons.prems(5) by auto
  show ?case
    by (rule Cons.IH [OF parent_libcall [OF Cons.prems(1-4) c(1) q1(1)] Cons.prems(2-4) c(2) q1(2)])
qed simp

lemma fork_pre_parent: "e_fork e \<noteq> 0 \<Longrightarrow> fork_pre e z = Inr (z\<lparr>sigchld_blocked := True, c_pid := e_fork e\<rparr>)"
  by (simp add: fork_pre_def Let_def)

lemma sanitize_parent:
  assumes "sanitize_fds e z = Inr z'" and "c_pid z \<noteq> 0"
  shows "z_client z' = z_client z \<and> z_log z' = z_log z \<and> z_mem z' = z_mem z \<and> z_ls z' = z_ls z \<and> g_ctx z' = g_ctx z \<and>
    c_pid z' = c_pid z \<and> c_modules z' = c_modules z \<and> (DO_REVERT_UNMOUNT \<in> c_flags z' \<longleftrightarrow> DO_REVERT_UNMOUNT \<in> c_flags z)"
  using assms
  by (auto simp: sanitize_fds_def bind_r_eq_Inr sanitize_array_def update_fd_array_def allow_all_def set_flag_def
      split: if_splits option.splits)

lemma parent_pre:
  assumes "pre_of k e (ZygiskContext uid ign (zp p)) = Inr z1" and "e_fork e \<noteq> 0" and "k \<noteq> SpecializeAppProcess"
  shows "parent_inv (e_fork e) p (p\<lparr>zp := z1\<rparr>)"
proof (cases k)
  case ForkAndSpecialize
  let ?c = "set_flag APP_FORK_AND_SPECIALIZE ((ZygiskContext uid ign (zp p))\<lparr>c_process := e_nice_name e\<rparr>)"
  let ?z2 = "if logfd ?c \<noteq> -1 then ?c\<lparr>c_exempted_fds := c_exempted_fds ?c @ [logfd ?c]\<rparr> else ?c"
  have "sanitize_fds e (?z2\<lparr>sigchld_blocked := True, c_pid := e_fork e\<rparr>) = Inr z1"
    using assms(1,2) unfolding ForkAndSpecialize pre_of_def nativeForkAndSpecialize_pre_def Let_def
    by (simp add: fork_pre_parent)
  from sanitize_parent [OF this] assms(2) show ?thesis
    by (auto simp: parent_inv_def undisturbed_def ZygiskContext_def set_flag_def)
qed (use assms in \<open>auto simp: pre_of_def nativeForkSystemServer_pre_def fork_pre_parent parent_inv_def undisturbed_def
    ZygiskContext_def set_flag_def\<close>)

text \<open>C8: In the zygote itself, where \<open>fork\<close> returned a pid, a hooked method that forks returns that pid, and the
  original method sees it too instead of forking again; no module code runs, nothing is mounted, mapped, unhooked
  or unloaded, no descriptor is new, and at the end no context is left and \<open>SIGCHLD\<close> is no longer blocked.\<close>

theorem zygote_undisturbed:
  assumes "wrapper h v uid ign p = Inr (r, p')" and "e_fork (h_env h) > 0" and "kind_of v \<noteq> SpecializeAppProcess"
    and "\<not> should_unmap_zygisk p" and "old_fn p PF_fork \<noteq> 0" and "\<forall>s. L_strdup s \<notin> set (h_original h)"
  shows "r = e_fork (h_env h) \<and> undisturbed p p' \<and> \<not> g_ctx (zp p') \<and> \<not> sigchld_blocked (zp p') \<and>
    set (zp_forks p') \<subseteq> set (zp_forks p) \<union> {e_fork (h_env h)}"
proof -
  let ?e = "h_env h" and ?k = "kind_of v"
  let ?ign = "if ''fds_to_ignore'' \<in> set (args_set v) then Some ign else None"
  obtain z1 p2 z3 p4 where w: "pre_of ?k ?e (ZygiskContext uid ?ign (zp p)) = Inr z1"
      "libcalls h (h_original h) (p\<lparr>zp := z1\<rparr>) = Inr p2" "post_of ?k ?e (zp p2) = Inr z3"
      "destroy_ZygiskContext h (p2\<lparr>zp := z3\<rparr>) = Inr p4" "r = c_pid z3" "p' = p4"
    using assms(1) by (auto simp: wrapper_def Let_def bind_r_eq_Inr split: if_splits)
  have i: "parent_inv (e_fork ?e) p p2"
    by (rule parent_libcalls [OF parent_pre [OF w(1) _ assms(3)] assms(2,4,5,6) w(2)]) (use assms(2) in simp)
  have z3: "z3 = fork_post (zp p2)"
    using w(3) i assms(2,3)
    by (cases ?k) (auto simp: post_of_def nativeForkAndSpecialize_post_def nativeForkSystemServer_post_def parent_inv_def)
  then have "p4 = p2\<lparr>zp := (fork_post (zp p2))\<lparr>g_ctx := False\<rparr>\<rparr>"
    using w(4) i assms(2) by (auto simp: destroy_ZygiskContext_def is_child_def fork_post_def parent_inv_def Let_def)
  with z3 w(5,6) i show ?thesis
    by (simp add: fork_post_def parent_inv_def undisturbed_def)
qed

theorem zygote_undisturbed_witness:
  "\<exists>p'. wrapper (sample_henv 42 [L_android_log_close, L_fork 99]) nativeForkAndSpecialize_u 10000 None
       (sample_proc sample_zygote) = Inr (42, p') \<and> set (zp_forks p') \<subseteq> {42} \<and> z_log (zp p') = []"
    (is "\<exists>p'. wrapper ?h ?v ?u ?i ?p = _ \<and> _")
proof -
  have "case wrapper ?h ?v ?u ?i ?p of Inl _ \<Rightarrow> False | Inr _ \<Rightarrow> True" by code_simp
  then obtain r p' where w: "wrapper ?h ?v ?u ?i ?p = Inr (r, p')" by (auto split: sum.splits)
  have "r = e_fork (h_env ?h) \<and> undisturbed ?p p' \<and> \<not> g_ctx (zp p') \<and> \<not> sigchld_blocked (zp p') \<and>
      set (zp_forks p') \<subseteq> set (zp_forks ?p) \<union> {e_fork (h_env ?h)}"
    by (rule zygote_undisturbed [OF w]) (simp_all add: sample_henv_def sample_proc_def kind_of_def)
  with w show ?thesis by (simp add: sample_henv_def sample_proc_def undisturbed_def sample_zygote_def)
qed

section \<open>The end of a context outside the zygote\<close>

lemma hook_register_keeps:
  "hook_register h dev inode s f p = Inr p' \<Longrightarrow>
     zp_jni p' = zp_jni p \<and> should_unmap_zygisk p' = should_unmap_zygisk p \<and> c_modules (zp p') = c_modules (zp p) \<and>
     g_ctx (zp p') = g_ctx (zp p) \<and> zp_forks p' = zp_forks p"
  by (auto simp: hook_register_def Let_def RegisterHook_def split: if_splits option.splits)

lemma hook_commit_keeps:
  "hook_commit h p = (b, p') \<Longrightarrow>
     zp_jni p' = zp_jni p \<and> should_unmap_zygisk p' = should_unmap_zygisk p \<and> c_modules (zp p') = c_modules (zp p) \<and>
     g_ctx (zp p') = g_ctx (zp p) \<and> zp_forks p' = zp_forks p \<and> c_pid (zp p') = c_pid (zp p)"
  by (auto simp: hook_commit_def CommitHook_def)

lemma hook_unloader_keeps:
  assumes "hook_unloader h p = Inr p'"
  shows "zp_jni p' = zp_jni p \<and> should_unmap_zygisk p' = should_unmap_zygisk p \<and> c_modules (zp p') = c_modules (zp p) \<and>
     g_ctx (zp p') = g_ctx (zp p) \<and> zp_forks p' = zp_forks p"
proof -
  obtain dev inode p1 where "hook_register h dev inode ''pthread_attr_destroy'' PF_pthread_attr_destroy p = Inr p1"
    "p' = snd (hook_commit h p1)"
    using assms by (auto simp: hook_unloader_def bind_r_eq_Inr split: prod.splits)
  with hook_register_keeps [of h dev inode _ _ p p1] hook_commit_keeps [of h p1] show ?thesis by (metis prod.collapse)
qed

lemma destroy_child:
  assumes "destroy_ZygiskContext h p = Inr p'" and "c_pid (zp p) \<le> 0"
  shows "\<exists>l ok. jni_hook_list (zp_jni p) = Some l \<and> restore l (j_vm (zp_jni p)) = Inr (ok, j_vm (zp_jni p')) \<and>
    should_unmap_zygisk p' = ok \<and> jni_hook_list (zp_jni p') = None \<and> \<not> g_ctx (zp p') \<and>
    list_all (\<lambda>(m, _). m_api m = null_table) (c_modules (zp p')) \<and> zp_forks p' = zp_forks p"
proof -
  obtain l ok vm where l: "jni_hook_list (zp_jni p) = Some l" "restore l (j_vm (zp_jni p)) = Inr (ok, vm)"
    and h: "hook_unloader h (p\<lparr>should_unmap_zygisk := ok, zp_jni := (zp_jni p)\<lparr>j_vm := vm, jni_hook_list := None\<rparr>,
        zp := (zp p)\<lparr>g_ctx := False, c_modules := map (\<lambda>(m, code). (clearApi m, code)) (c_modules (zp p))\<rparr>\<rparr>) = Inr p'"
    using assms by (auto simp: destroy_ZygiskContext_def is_child_def Let_def bind_r_eq_Inr split: option.splits)
  from hook_unloader_keeps [OF h] l show ?thesis
    by (auto simp: list_all_iff clearApi_def)
qed

text \<open>The recorded originals undo the JNI hooks: the class table of the machine becomes \<open>vm\<close> again.\<close>

definition undoes :: "jvm \<Rightarrow> jni \<Rightarrow> bool" where
  "undoes vm j \<longleftrightarrow> (\<exists>l. jni_hook_list j = Some l \<and> restore l (j_vm j) = Inr (True, vm))"

definition real_forks :: "libcall list \<Rightarrow> int list" where
  "real_forks cs = concat (map (\<lambda>c. case c of L_fork r \<Rightarrow> [r] | _ \<Rightarrow> []) cs)"

lemma fold_register_keeps:
  "c_pid (fold (\<lambda>(dev, inode, s, f) z. if P dev inode s then RegisterHook dev inode s (q f) 0 z else z) l z) = c_pid z"
  by (induction l arbitrary: z) (auto simp: RegisterHook_def)

lemma unhook_keeps:
  assumes "unhook_functions h p = Inr p'"
  shows "zp_jni p' = zp_jni p \<and> c_pid (zp p') = c_pid (zp p) \<and> zp_forks p' = zp_forks p"
proof -
  obtain l where l: "plt_hook_list p = Some l" using assms by (auto simp: unhook_functions_def split: option.splits)
  define z1 where "z1 = fold (\<lambda>(dev, inode, s, f) z.
    if h_register h dev inode s then RegisterHook dev inode s (old_fn p f) 0 z else z) l (zp p)"
  have z1: "c_pid z1 = c_pid (zp p)" unfolding z1_def by (rule fold_register_keeps)
  have r: "(case hook_commit h (p\<lparr>zp := z1\<rparr>) of (ok, p1) \<Rightarrow>
      Inr (if ok then p1 else p1\<lparr>should_unmap_zygisk := False\<rparr>)) = (Inr p' :: zproc res)"
    using assms l by (simp add: unhook_functions_def Let_def z1_def)
  obtain ok p1 where c: "hook_commit h (p\<lparr>zp := z1\<rparr>) = (ok, p1)" by fastforce
  from hook_commit_keeps [OF c] z1 r c show ?thesis by (auto split: if_splits)
qed

lemma libcall_keeps:
  assumes "libcall h c p = Inr p'" and "\<forall>s. c \<noteq> L_strdup s"
  shows "zp_jni p' = zp_jni p \<and> c_pid (zp p') = c_pid (zp p) \<and>
    (c_pid (zp p) < 0 \<longrightarrow> zp_forks p' = zp_forks p @ real_forks [c])"
proof (cases c)
  case (L_pthread_attr_destroy m)
  then have "p' = p \<or> (\<exists>p1. unhook_functions h p = Inr p1 \<and> (p' = p1 \<or> p' = p1\<lparr>zp_unloaded := True\<rparr>))"
    using assms(1) by (auto simp: libcall_def new_pthread_attr_destroy_def bind_r_eq_Inr split: if_splits)
  then show ?thesis using unhook_keeps [of h p] L_pthread_attr_destroy by (auto simp: real_forks_def)
qed (use assms in \<open>auto simp: libcall_def new_fork_def new_unshare_def new_android_log_close_def setfd_def z_close_def
    real_forks_def Let_def bind_r_eq_Inr split: if_splits\<close>)

lemma libcalls_keep:
  "libcalls h cs p = Inr p' \<Longrightarrow> \<forall>s. L_strdup s \<notin> set cs \<Longrightarrow>
     zp_jni p' = zp_jni p \<and> c_pid (zp p') = c_pid (zp p) \<and>
     (c_pid (zp p) < 0 \<longrightarrow> zp_forks p' = zp_forks p @ real_forks cs)"
proof (induction cs arbitrary: p)
  case (Cons c cs)
  then obtain p1 where p1: "libcall h c p = Inr p1" "libcalls h cs p1 = Inr p'" by (auto simp: bind_r_eq_Inr)
  have c: "\<forall>s. c \<noteq> L_strdup s" "\<forall>s. L_strdup s \<notin> set cs" using Cons.prems(2) by auto
  from libcall_keeps [OF p1(1) c(1)] Cons.IH [OF p1(2) c(2)] show ?case by (auto simp: real_forks_def)
qed (simp add: real_forks_def)

text \<open>C39: When \<open>fork\<close> fails in a hooked method, the library takes the zygote for a new process: it puts the methods of the
  zygote's class back and arranges for its own unloading, so later processes start without it, and the original
  method, which gets no cached result, forks once more each time it asks.\<close>

theorem failed_fork_unhooks_zygote:
  assumes "wrapper h v uid ign p = Inr (r, p')" and "e_fork (h_env h) < 0" and "kind_of v \<noteq> SpecializeAppProcess"
    and "undoes vm (zp_jni p)" and "\<forall>s. L_strdup s \<notin> set (h_original h)"
  shows "r = e_fork (h_env h) \<and> j_vm (zp_jni p') = vm \<and> jni_hook_list (zp_jni p') = None \<and> should_unmap_zygisk p' \<and>
    zp_forks p' = zp_forks p @ real_forks (h_original h)"
proof -
  let ?e = "h_env h" and ?k = "kind_of v"
  let ?ign = "if ''fds_to_ignore'' \<in> set (args_set v) then Some ign else None"
  obtain z1 p2 z3 where w: "pre_of ?k ?e (ZygiskContext uid ?ign (zp p)) = Inr z1"
      "libcalls h (h_original h) (p\<lparr>zp := z1\<rparr>) = Inr p2" "post_of ?k ?e (zp p2) = Inr z3"
      "destroy_ZygiskContext h (p2\<lparr>zp := z3\<rparr>) = Inr p'" "r = c_pid z3"
    using assms(1) by (auto simp: wrapper_def Let_def bind_r_eq_Inr split: if_splits)
  have z1: "c_pid z1 = e_fork ?e"
    using parent_pre [OF w(1) _ assms(3)] assms(2) by (simp add: parent_inv_def)
  have p2: "zp_jni p2 = zp_jni p" "c_pid (zp p2) = e_fork ?e" "zp_forks p2 = zp_forks p @ real_forks (h_original h)"
    using libcalls_keep [OF w(2) assms(5)] z1 assms(2) by simp_all
  have z3: "c_pid z3 = e_fork ?e"
    using w(3) p2(2) assms(2,3)
    by (cases ?k) (auto simp: post_of_def nativeForkAndSpecialize_post_def nativeForkSystemServer_post_def fork_post_def)
  obtain l ok where d: "jni_hook_list (zp_jni p) = Some l" "restore l (j_vm (zp_jni p)) = Inr (ok, j_vm (zp_jni p'))"
      "should_unmap_zygisk p' = ok" "jni_hook_list (zp_jni p') = None" "zp_forks p' = zp_forks p2"
    using destroy_child [OF w(4)] z3 assms(2) p2(1) by auto
  with assms(4) z3 w(5) p2(3) show ?thesis by (auto simp: undoes_def)
qed

theorem failed_fork_unhooks_zygote_witness:
  "\<exists>j1 p'. do_hook_zygote sample_jni = Inr j1 \<and>
     wrapper (sample_henv (-1) [L_fork 99]) nativeForkAndSpecialize_u 10000 None
       ((sample_proc sample_zygote)\<lparr>zp_jni := j1\<rparr>) = Inr (-1, p') \<and>
     j_vm (zp_jni p') = j_vm sample_jni \<and> should_unmap_zygisk p' \<and> zp_forks p' = [99]"
    (is "\<exists>j1 p'. _ \<and> wrapper ?h ?v ?u ?i _ = _ \<and> _")
proof -
  have o: "one_native sample_class nativeForkAndSpecialize_methods"
    "one_native sample_class nativeSpecializeAppProcess_methods" "one_native sample_class nativeForkSystemServer_methods"
    by code_simp+
  obtain j1 where j1: "do_hook_zygote sample_jni = Inr j1" "undoes (j_vm sample_jni) j1"
    using jni_hooks_undone [of sample_jni sample_class] o by (auto simp: sample_jni_def undoes_def)
  let ?p = "(sample_proc sample_zygote)\<lparr>zp_jni := j1\<rparr>"
  have "case do_hook_zygote sample_jni of Inl _ \<Rightarrow> False
      | Inr j1 \<Rightarrow> (case wrapper ?h ?v ?u ?i ((sample_proc sample_zygote)\<lparr>zp_jni := j1\<rparr>) of Inl _ \<Rightarrow> False | Inr _ \<Rightarrow> True)"
    by code_simp
  then obtain r p' where w: "wrapper ?h ?v ?u ?i ?p = Inr (r, p')" using j1(1) by (auto split: sum.splits)
  have "r = e_fork (h_env ?h) \<and> j_vm (zp_jni p') = j_vm sample_jni \<and> jni_hook_list (zp_jni p') = None \<and>
      should_unmap_zygisk p' \<and> zp_forks p' = zp_forks ?p @ real_forks (h_original ?h)"
    by (rule failed_fork_unhooks_zygote [OF w]) (use j1(2) in \<open>simp_all add: sample_henv_def kind_of_def\<close>)
  with w j1(1) show ?thesis by (auto simp: sample_henv_def sample_proc_def real_forks_def)
qed

section \<open>PLT hooks and their undoing\<close>

definition library_hooks :: "henv \<Rightarrow> plt_entry list" where
  "library_hooks h =
     (case find_lib ''libandroid_runtime.so'' (h_maps h) of (dev, inode) \<Rightarrow>
        [(dev, inode, ''fork'', PF_fork), (dev, inode, ''unshare'', PF_unshare), (dev, inode, ''strdup'', PF_strdup),
         (dev, inode, ''__android_log_close'', PF_android_log_close)])"

definition accepted :: "henv \<Rightarrow> plt_entry \<Rightarrow> bool" where
  "accepted h t = (case t of (dev, inode, s, f) \<Rightarrow> h_register h dev inode s)"

definition orig_fn :: "henv \<Rightarrow> plt_entry \<Rightarrow> nat" where
  "orig_fn h t = (case t of (dev, inode, s, f) \<Rightarrow> h_orig h dev inode s)"

definition hook_call :: "plt_entry \<Rightarrow> ls_call" where
  "hook_call t = (case t of (dev, inode, s, f) \<Rightarrow> LS_Register dev inode s (new_addr f) (old_addr f))"

definition undo_call :: "henv \<Rightarrow> plt_entry \<Rightarrow> ls_call" where
  "undo_call h t = (case t of (dev, inode, s, f) \<Rightarrow> LS_Register dev inode s (h_orig h dev inode s) 0)"

definition registered :: "henv \<Rightarrow> plt_entry list \<Rightarrow> zproc \<Rightarrow> zproc" where
  "registered h es p =
     p\<lparr>zp := (zp p)\<lparr>z_ls := z_ls (zp p) @ map hook_call (filter (accepted h) es)\<rparr>,
       plt_pending := plt_pending p @ filter (accepted h) es,
       plt_hook_list := map_option (\<lambda>l. l @ filter (accepted h) es) (plt_hook_list p)\<rparr>"

lemma hook_register_registered:
  "plt_hook_list p \<noteq> None \<Longrightarrow> hook_register h dev inode s f p = Inr (registered h [(dev, inode, s, f)] p)"
  by (auto simp: hook_register_def registered_def accepted_def hook_call_def RegisterHook_def)

lemma registered_registered: "registered h es (registered h es' p) = registered h (es' @ es) p"
  by (cases "plt_hook_list p") (simp_all add: registered_def)

lemma registered_list [simp]: "plt_hook_list (registered h es p) = None \<longleftrightarrow> plt_hook_list p = None"
  by (simp add: registered_def)

lemma hook_functions_eq:
  "hook_functions h p =
     (let p1 = registered h (library_hooks h) (p\<lparr>plt_hook_list := Some [], zp_jni := (zp_jni p)\<lparr>jni_hook_list := Some []\<rparr>\<rparr>);
          p2 = snd (hook_commit h p1)
      in Inr (p2\<lparr>plt_hook_list := map_option (filter (\<lambda>(_, _, _, f). old_fn p2 f \<noteq> 0)) (plt_hook_list p2)\<rparr>))"
  by (simp add: hook_functions_def library_hooks_def hook_register_registered registered_registered split: prod.splits)

lemma find_hook:
  assumes "t \<in> set ts" and "distinct (map (snd \<circ> snd \<circ> snd) ts)"
  shows "find (\<lambda>(dev, inode, s, g). g = snd (snd (snd t))) ts = Some t"
  using assms by (induction ts) auto

lemma library_hooks_distinct: "distinct (map (snd \<circ> snd \<circ> snd) (filter P (library_hooks h)))"
  by (rule distinct_map_filter) (simp add: library_hooks_def split: prod.splits)

lemma fold_undo:
  assumes "list_all (accepted h) l" and "\<forall>t \<in> set l. q (snd (snd (snd t))) = orig_fn h t"
  shows "fold (\<lambda>(dev, inode, s, f) z. if h_register h dev inode s then RegisterHook dev inode s (q f) 0 z else z) l z =
    z\<lparr>z_ls := z_ls z @ map (undo_call h) l\<rparr>"
  using assms
  by (induction l arbitrary: z) (auto simp: accepted_def orig_fn_def undo_call_def RegisterHook_def)



section \<open>What a new process keeps of the library\<close>

lemma fork_pre_pid: "fork_pre e z = Inr z' \<Longrightarrow> c_pid z' = e_fork e"
  by (auto simp: fork_pre_def Let_def z_close_def z_open_def record_fds_eq split: if_splits)

lemma sanitize_pid:
  assumes "sanitize_fds e z = Inr z'"
  shows "c_pid z' = c_pid z"
proof (cases "SKIP_FD_SANITIZATION \<in> c_flags z")
  case False
  then obtain z1 where z1: "sanitize_array e z = Inr z1" using assms by (auto simp: sanitize_fds_def bind_r_eq_Inr)
  then have "c_pid z1 = c_pid z" by (simp add: sanitize_array_props)
  with False z1 assms show ?thesis
    by (auto simp: sanitize_fds_def Let_def z_close_def z_open_def close_forbidden_eq split: if_splits)
qed (use assms in \<open>simp add: sanitize_fds_def\<close>)

lemma c_pid_set_flag [simp]: "c_pid (set_flag f z) = c_pid z"
  by (simp add: set_flag_def)

lemma pre_pid:
  assumes "pre_of k e (ZygiskContext uid ign z) = Inr z1"
  shows "c_pid z1 = (if k = SpecializeAppProcess then -1 else e_fork e)"
proof (cases k)
  case ForkAndSpecialize
  then have "nativeForkAndSpecialize_pre e (ZygiskContext uid ign z) = Inr z1" using assms by (simp add: pre_of_def)
  then obtain z2 z3 z4 where "fork_pre e z2 = Inr z3"
    "(if c_pid z3 = 0 then app_specialize_pre e z3 else Inr z3) = Inr z4" "sanitize_fds e z4 = Inr z1"
    unfolding nativeForkAndSpecialize_pre_def Let_def bind_r_eq_Inr by blast
  with ForkAndSpecialize fork_pre_pid [of e z2 z3] sanitize_pid [of e z4 z1] app_specialize_pre_kept [of e z3 z4] show ?thesis
    by (auto simp: kept_def split: if_splits)
next
  case ForkSystemServer
  then have "nativeForkSystemServer_pre e (ZygiskContext uid ign z) = Inr z1" using assms by (simp add: pre_of_def)
  then obtain z2 where z2: "fork_pre e (set_flag SERVER_FORK_AND_SPECIALIZE (ZygiskContext uid ign z)) = Inr z2"
    and r: "(if c_pid z2 \<noteq> 0 then Inr z2 else bind_r (run_modules_pre e z2) (\<lambda>z3.
      bind_r (SystemServerStarted (e_peer e) (z_client z3)) (\<lambda>(s, c). sanitize_fds e (z3\<lparr>z_client := c\<rparr>)))) = Inr z1"
    unfolding nativeForkSystemServer_pre_def bind_r_eq_Inr by blast
  show ?thesis
  proof (cases "c_pid z2 = 0")
    case True
    then obtain z3 c where "run_modules_pre e z2 = Inr z3" "sanitize_fds e (z3\<lparr>z_client := c\<rparr>) = Inr z1"
      using r by (auto simp: bind_r_eq_Inr)
    with ForkSystemServer True fork_pre_pid [OF z2] run_modules_pre_kept [of e z2 z3] sanitize_pid [of e _ z1] show ?thesis
      by (auto simp: kept_def)
  qed (use r ForkSystemServer fork_pre_pid [OF z2] in simp)
next
  case SpecializeAppProcess
  then obtain z2 where "app_specialize_pre e z2 = Inr z1" "c_pid z2 = -1"
    using assms by (auto simp: pre_of_def nativeSpecializeAppProcess_pre_def ZygiskContext_def)
  with SpecializeAppProcess app_specialize_pre_kept [of e z2 z1] show ?thesis by (simp add: kept_def)
qed

lemma frame_tryUnload: "frame z z' \<Longrightarrow> frame z (tryUnload m z')"
  by (auto simp: tryUnload_def intro: frame_trans [OF _ frame_zlog])

lemma run_post_frame:
  assumes "run_post e k z = Inr z'" and "k < length (c_modules z)"
  shows "frame z z'"
proof -
  have acts: "frame z z1" if "run_acts e k as (zlog ev z) = Inr z1" for as ev z1
  proof -
    have "k < length (c_modules (zlog ev z))" using assms(2) by (simp add: zlog_def)
    from quiet_run_acts [OF that this] show ?thesis by (auto simp: quiet_def intro: frame_trans [OF frame_zlog])
  qed
  obtain z1 where z1: "z' = tryUnload (fst (c_modules z1 ! k)) z1"
    and "(if APP_SPECIALIZE \<in> c_flags z
          then bind_r (call_app abi_postApp (fst (c_modules z ! k))) (\<lambda>r. case r of None \<Rightarrow> Inr z
            | Some args \<Rightarrow> run_acts e k (mc_postApp (snd (c_modules z ! k))) (zlog (Z_PostApp (m_id (fst (c_modules z ! k))) args) z))
          else if SERVER_FORK_AND_SPECIALIZE \<in> c_flags z
          then bind_r (call_server abi_postServer (fst (c_modules z ! k))) (\<lambda>_.
            run_acts e k (mc_postServer (snd (c_modules z ! k))) (zlog (Z_PostServer (m_id (fst (c_modules z ! k)))) z))
          else Inr z) = Inr z1"
    using assms(1) unfolding run_post_def Let_def bind_r_eq_Inr by auto
  then have "frame z z1" by (auto simp: bind_r_eq_Inr split: if_splits option.splits intro: acts)
  then show ?thesis unfolding z1 by (rule frame_tryUnload)
qed

lemma for_modules_post:
  "for_modules (run_post e) ks z = Inr z' \<Longrightarrow> \<forall>k \<in> set ks. k < length (c_modules z) \<Longrightarrow> frame z z'"
proof (induction ks arbitrary: z)
  case (Cons k ks)
  then obtain z1 where z1: "run_post e k z = Inr z1" "for_modules (run_post e) ks z1 = Inr z'" by (auto simp: bind_r_eq_Inr)
  have f: "frame z z1" by (rule run_post_frame [OF z1(1)]) (use Cons.prems(2) in simp)
  have "frame z1 z'" by (rule Cons.IH [OF z1(2)]) (use Cons.prems(2) frame_length [OF f] in simp)
  with f show ?case by (rule frame_trans)
qed simp

lemma remap_pid: "c_pid (remap_jit_cache e ms z) = c_pid z"
  by (induction ms arbitrary: z) (simp_all add: mem_def Let_def)

lemma randomize_pid: "randomize_anon e ms z = Inr z' \<Longrightarrow> c_pid z' = c_pid z"
proof (induction ms arbitrary: z)
  case (Cons m ms)
  have "c_pid (mem ops z) = c_pid z" for ops z by (simp add: mem_def)
  with Cons show ?case by (fastforce simp: Let_def split: if_splits)
qed simp

lemma run_modules_post_pid: "run_modules_post e z = Inr z' \<Longrightarrow> c_pid z' = c_pid z"
proof -
  assume "run_modules_post e z = Inr z'"
  then obtain z1 where z1: "for_modules (run_post e) [0..<length (c_modules z)] (set_flag POST_SPECIALIZE z) = Inr z1"
    and r: "randomize_anon e (e_maps_anon e) (remap_jit_cache e (e_maps_post e)
      (if e_solist e then mem [M_Nullify ''jit-cache''] z1 else z1)) = Inr z'"
    unfolding run_modules_post_def Let_def bind_r_eq_Inr by blast
  have "frame (set_flag POST_SPECIALIZE z) z1" by (rule for_modules_post [OF z1]) (simp add: set_flag_def)
  then have "c_pid z1 = c_pid z" by (simp add: frame_def)
  then show "c_pid z' = c_pid z" using randomize_pid [OF r] by (simp add: remap_pid mem_def split: if_splits)
qed

lemma post_pid:
  assumes "post_of k e z = Inr z'"
  shows "c_pid z' = c_pid z \<and> (k \<noteq> SpecializeAppProcess \<longrightarrow> \<not> sigchld_blocked z')"
proof -
  have a: "app_specialize_post e z = Inr z1 \<Longrightarrow> c_pid z1 = c_pid z" for z1
    using run_modules_post_pid [of e z] by (auto simp: app_specialize_post_def bind_r_eq_Inr setfd_def z_close_def)
  show ?thesis
    using assms a run_modules_post_pid [of e z]
    by (cases k) (auto simp: post_of_def nativeForkAndSpecialize_post_def nativeForkSystemServer_post_def fork_post_def
        nativeSpecializeAppProcess_post_def bind_r_eq_Inr split: if_splits)
qed

text \<open>C9: When a hooked method ends in a process that is not the zygote (after a fork, or specialised without one), the
  methods of the zygote's class are the original ones again, the API of every module is null, no context is left
  and the library is marked for unloading.\<close>

theorem new_process_cleaned:
  assumes "wrapper h v uid ign p = Inr (r, p')" and "kind_of v \<noteq> SpecializeAppProcess \<longrightarrow> e_fork (h_env h) = 0"
    and "undoes vm (zp_jni p)" and "\<forall>s. L_strdup s \<notin> set (h_original h)"
  shows "r \<le> 0 \<and> j_vm (zp_jni p') = vm \<and> jni_hook_list (zp_jni p') = None \<and> should_unmap_zygisk p' \<and> \<not> g_ctx (zp p') \<and>
    list_all (\<lambda>(m, _). m_api m = null_table) (c_modules (zp p'))"
proof -
  let ?e = "h_env h" and ?k = "kind_of v"
  let ?ign = "if ''fds_to_ignore'' \<in> set (args_set v) then Some ign else None"
  obtain z1 p2 z3 where w: "pre_of ?k ?e (ZygiskContext uid ?ign (zp p)) = Inr z1"
      "libcalls h (h_original h) (p\<lparr>zp := z1\<rparr>) = Inr p2" "post_of ?k ?e (zp p2) = Inr z3"
      "destroy_ZygiskContext h (p2\<lparr>zp := z3\<rparr>) = Inr p'" "r = c_pid z3"
    using assms(1) by (auto simp: wrapper_def Let_def bind_r_eq_Inr split: if_splits)
  have "c_pid z1 \<le> 0" using pre_pid [OF w(1)] assms(2) by auto
  with libcalls_keep [OF w(2) assms(4)] post_pid [OF w(3)] have "c_pid z3 \<le> 0" "zp_jni p2 = zp_jni p" by simp_all
  with destroy_child [OF w(4)] assms(3) w(5) show ?thesis by (auto simp: undoes_def)
qed

theorem new_process_cleaned_witness:
  "\<exists>j1 r p'. do_hook_zygote sample_jni = Inr j1 \<and>
     wrapper (sample_henv 0 [L_android_log_close, L_fork 99]) nativeForkAndSpecialize_u 10000 None
       ((sample_proc (sample_zygote\<lparr>z_client := (z_client sample_zygote)\<lparr>connects := []\<rparr>\<rparr>))\<lparr>zp_jni := j1\<rparr>) = Inr (r, p') \<and>
     j_vm (zp_jni p') = j_vm sample_jni \<and> should_unmap_zygisk p'"
    (is "\<exists>j1 r p'. _ \<and> wrapper ?h ?v ?u ?i _ = _ \<and> _")
proof -
  have o: "one_native sample_class nativeForkAndSpecialize_methods"
    "one_native sample_class nativeSpecializeAppProcess_methods" "one_native sample_class nativeForkSystemServer_methods"
    by code_simp+
  obtain j1 where j1: "do_hook_zygote sample_jni = Inr j1" "undoes (j_vm sample_jni) j1"
    using jni_hooks_undone [of sample_jni sample_class] o by (auto simp: sample_jni_def undoes_def)
  let ?p = "\<lambda>j1. (sample_proc (sample_zygote\<lparr>z_client := (z_client sample_zygote)\<lparr>connects := []\<rparr>\<rparr>))\<lparr>zp_jni := j1\<rparr>"
  have "case do_hook_zygote sample_jni of Inl _ \<Rightarrow> False
      | Inr j1 \<Rightarrow> (case wrapper ?h ?v ?u ?i (?p j1) of Inl _ \<Rightarrow> False | Inr _ \<Rightarrow> True)"
    by code_simp
  then obtain r p' where w: "wrapper ?h ?v ?u ?i (?p j1) = Inr (r, p')" using j1(1) by (auto split: sum.splits)
  have "r \<le> 0 \<and> j_vm (zp_jni p') = j_vm sample_jni \<and> jni_hook_list (zp_jni p') = None \<and> should_unmap_zygisk p' \<and>
      \<not> g_ctx (zp p') \<and> list_all (\<lambda>(m, _). m_api m = null_table) (c_modules (zp p'))"
    by (rule new_process_cleaned [OF w]) (use j1(2) in \<open>simp_all add: sample_henv_def\<close>)
  with w j1(1) show ?thesis by blast
qed

end
