(* ===== verification/Elf_Image.thy ===== *)
theory Elf_Image
  imports Zygisk_Prelude
begin

text \<open>
  Symbol lookup in the file of a loaded library, \<open>SandHook::ElfImg\<close> of \<open>loader/src/include/elf_util.h\<close> and
  \<open>loader/src/common/elf_util.cpp\<close>, for the 64-bit build: the scan of the sections in the constructor, the three
  lookups (GNU hash table, System V hash table, the symbol table one by one) and their combination.

  The mapped file is a byte string; every field is read from it at the offset the C structs give it, and a read
  outside of the file is a fault.  The loops along a hash chain take fuel; \<^term>\<open>None\<close> is a chain without end.
\<close>

section \<open>Reading the file\<close>

definition rd :: "nat \<Rightarrow> string \<Rightarrow> nat \<Rightarrow> nat res" where
  "rd k f off = (if off + k \<le> length f then Inr (le_dec (take k (drop off f))) else Inl Out_Of_Bounds)"

definition cstr_at :: "string \<Rightarrow> nat \<Rightarrow> string res" where
  "cstr_at f off = (if NUL \<in> set (drop off f) then Inr (c_str (drop off f)) else Inl Out_Of_Bounds)"

text \<open>The members of the class.  A pointer into the mapping is an offset; \<open>gnu_bucket_\<close> and \<open>gnu_chain_\<close> follow from
  the others.\<close>

record elf_img =
  elf :: string
  base :: u64
  header :: "string option"
  bias :: u64
  dynsym_start :: "nat option"
  strtab_start :: "nat option"
  symtab_start :: "nat option"
  symtab_count :: nat
  symstr_offset_for_symtab :: nat
  nbucket :: u32
  bucket :: nat
  gnu_nbucket :: u32
  gnu_symndx :: u32
  gnu_bloom_size :: u32
  gnu_shift2 :: u32
  gnu_bloom_filter :: nat
  symtabs :: "(string \<times> u64) list"

definition no_bias :: u64 where "no_bias = -4396"

definition new_img :: "string \<Rightarrow> elf_img" where
  "new_img name =
     \<lparr>elf = name, base = 0, header = None, bias = no_bias, dynsym_start = None, strtab_start = None, symtab_start = None,
      symtab_count = 0, symstr_offset_for_symtab = 0, nbucket = 0, bucket = 0, gnu_nbucket = 0, gnu_symndx = 0,
      gnu_bloom_size = 0, gnu_shift2 = 0, gnu_bloom_filter = 0, symtabs = []\<rparr>"

section \<open>The constructor\<close>

text \<open>\<open>dl_iterate_phdr\<close> goes over the loaded objects, with their names (or null) and load addresses.\<close>

fun findModuleBase :: "(string option \<times> u64) list \<Rightarrow> elf_img \<Rightarrow> bool \<times> elf_img" where
  "findModuleBase [] img = (base img \<noteq> 0, img)"
| "findModuleBase ((None, addr) # os) img = findModuleBase os img"
| "findModuleBase ((Some name, addr) # os) img =
     (if find_sub (elf img) name \<noteq> None then (addr \<noteq> 0, img\<lparr>elf := name, base := addr\<rparr>)
      else findModuleBase os img)"

definition SHT_PROGBITS :: nat where "SHT_PROGBITS = 1"
definition SHT_SYMTAB :: nat where "SHT_SYMTAB = 2"
definition SHT_STRTAB :: nat where "SHT_STRTAB = 3"
definition SHT_HASH :: nat where "SHT_HASH = 5"
definition SHT_DYNSYM :: nat where "SHT_DYNSYM = 11"
definition SHT_GNU_HASH :: nat where "SHT_GNU_HASH = 0x6ffffff6"

text \<open>One round of the loop: the section header at \<open>sh\<close>.\<close>

definition scan_section :: "string \<Rightarrow> nat \<Rightarrow> nat \<Rightarrow> elf_img \<Rightarrow> elf_img res" where
  "scan_section f section_str sh img =
     bind_r (rd 4 f sh) (\<lambda>sh_name. bind_r (rd 4 f (sh + 4)) (\<lambda>sh_type. bind_r (rd 8 f (sh + 16)) (\<lambda>sh_addr.
     bind_r (rd 8 f (sh + 24)) (\<lambda>sh_offset. bind_r (rd 8 f (sh + 32)) (\<lambda>sh_size. bind_r (rd 8 f (sh + 56)) (\<lambda>entsize.
       if sh_type = SHT_DYNSYM
       then Inr (if bias img = no_bias then img\<lparr>dynsym_start := Some sh_offset\<rparr> else img)
       else if sh_type = SHT_SYMTAB
       then bind_r (cstr_at f (section_str + sh_name)) (\<lambda>sname.
              if sname \<noteq> ''.symtab'' then Inr img
              else if entsize = 0 then Inl Div_Zero
              else Inr (img\<lparr>symtab_start := Some sh_offset, symtab_count := sh_size div entsize\<rparr>))
       else if sh_type = SHT_STRTAB
       then (let img1 = (if bias img = no_bias then img\<lparr>strtab_start := Some sh_offset\<rparr> else img)
             in bind_r (cstr_at f (section_str + sh_name)) (\<lambda>sname.
                  Inr (if sname = ''.strtab'' then img1\<lparr>symstr_offset_for_symtab := sh_offset\<rparr> else img1)))
       else if sh_type = SHT_PROGBITS
       then Inr (if strtab_start img = None \<or> dynsym_start img = None then img
                 else if bias img = no_bias then img\<lparr>bias := word_of_nat sh_addr - word_of_nat sh_offset\<rparr>
                 else img)
       else if sh_type = SHT_HASH
       then bind_r (rd 4 f sh_offset) (\<lambda>nb. Inr (img\<lparr>nbucket := word_of_nat nb, bucket := sh_offset + 8\<rparr>))
       else if sh_type = SHT_GNU_HASH
       then bind_r (rd 4 f sh_offset) (\<lambda>nb. bind_r (rd 4 f (sh_offset + 4)) (\<lambda>ndx.
            bind_r (rd 4 f (sh_offset + 8)) (\<lambda>bs. bind_r (rd 4 f (sh_offset + 12)) (\<lambda>s2.
              Inr (img\<lparr>gnu_nbucket := word_of_nat nb, gnu_symndx := word_of_nat ndx, gnu_bloom_size := word_of_nat bs,
                       gnu_shift2 := word_of_nat s2, gnu_bloom_filter := sh_offset + 16\<rparr>)))))
       else Inr img))))))"

fun scan_sections :: "string \<Rightarrow> nat \<Rightarrow> nat \<Rightarrow> nat \<Rightarrow> nat \<Rightarrow> elf_img \<Rightarrow> elf_img res" where
  "scan_sections f section_str entsize shoff 0 img = Inr img"
| "scan_sections f section_str entsize shoff (Suc n) img =
     bind_r (scan_section f section_str shoff img) (scan_sections f section_str entsize (shoff + entsize) n)"

text \<open>The index of the string section goes by the size of the struct, the loop by \<open>e_shentsize\<close>.\<close>

definition scan_file :: "string \<Rightarrow> elf_img \<Rightarrow> elf_img res" where
  "scan_file f img =
     bind_r (rd 8 f 0x28) (\<lambda>e_shoff. bind_r (rd 2 f 0x3A) (\<lambda>e_shentsize. bind_r (rd 2 f 0x3C) (\<lambda>e_shnum.
     bind_r (rd 2 f 0x3E) (\<lambda>e_shstrndx. bind_r (rd 8 f (e_shoff + 64 * e_shstrndx + 24)) (\<lambda>section_str.
       scan_sections f section_str e_shentsize e_shoff e_shnum (img\<lparr>header := Some f\<rparr>))))))"

text \<open>An empty file cannot be mapped, and the result of \<open>mmap\<close> is used unchecked.\<close>

definition ElfImg ::
  "(string option \<times> u64) list \<Rightarrow> (string \<Rightarrow> string option) \<Rightarrow> bool \<Rightarrow> string \<Rightarrow> elf_img res" where
  "ElfImg objects open_file mmap_ok base_name =
     (case findModuleBase objects (new_img base_name) of (found, img) \<Rightarrow>
        if \<not> found then Inr (img\<lparr>base := 0\<rparr>)
        else
          (case open_file (c_str (elf img)) of
             None \<Rightarrow> Inr img
           | Some f \<Rightarrow> if f = [] \<or> \<not> mmap_ok then Inl Out_Of_Bounds else scan_file f img))"

definition isValid :: "elf_img \<Rightarrow> bool" where
  "isValid img \<longleftrightarrow> base img \<noteq> 0"

text \<open>The destructor: the sizes of the mappings it takes away.  \<open>buffer\<close> is never set.\<close>

definition destroy_ElfImg :: "elf_img \<Rightarrow> nat list" where
  "destroy_ElfImg img = (case header img of None \<Rightarrow> [] | Some f \<Rightarrow> [length f])"

section \<open>Hash functions\<close>

definition ElfHash :: "string \<Rightarrow> u32" where
  "ElfHash name =
     fold (\<lambda>p h. let h1 = push_bit 4 h + of_nat (of_char p); g = h1 AND 0xf0000000; h2 = h1 XOR g
                 in h2 XOR drop_bit 24 g) name 0"

definition GnuHash :: "string \<Rightarrow> u32" where
  "GnuHash name = fold (\<lambda>p h. h + (push_bit 5 h + of_nat (of_char p))) name 5381"

section \<open>Lookups\<close>

definition dyn_sym :: "elf_img \<Rightarrow> u32 \<Rightarrow> nat \<Rightarrow> nat \<Rightarrow> nat res" where
  "dyn_sym img n field k =
     (case (header img, dynsym_start img) of
        (Some f, Some d) \<Rightarrow> rd k f (d + 24 * unat n + field)
      | _ \<Rightarrow> Inl Null_Deref)"

definition dyn_name :: "elf_img \<Rightarrow> u32 \<Rightarrow> string res" where
  "dyn_name img n =
     (case (header img, strtab_start img) of
        (Some f, Some s) \<Rightarrow> bind_r (dyn_sym img n 0 4) (\<lambda>st_name. cstr_at f (s + st_name))
      | _ \<Rightarrow> Inl Null_Deref)"

definition dyn_value :: "elf_img \<Rightarrow> u32 \<Rightarrow> u64 res" where
  "dyn_value img n = bind_r (dyn_sym img n 8 8) (\<lambda>v. Inr (word_of_nat v))"

definition word_at :: "elf_img \<Rightarrow> nat \<Rightarrow> u32 res" where
  "word_at img off =
     (case header img of None \<Rightarrow> Inl Null_Deref | Some f \<Rightarrow> bind_r (rd 4 f off) (\<lambda>v. Inr (word_of_nat v)))"

definition chain_at :: "elf_img \<Rightarrow> u32 \<Rightarrow> u32 res" where
  "chain_at img n = word_at img (bucket img + 4 * unat (nbucket img) + 4 * unat n)"

fun elf_loop :: "nat \<Rightarrow> elf_img \<Rightarrow> string \<Rightarrow> u32 \<Rightarrow> u64 res option" where
  "elf_loop 0 img name n = None"
| "elf_loop (Suc k) img name n =
     (if n = 0 then Some (Inr 0)
      else
        (case dyn_name img n of
           Inl e \<Rightarrow> Some (Inl e)
         | Inr s \<Rightarrow>
             if name = s then Some (dyn_value img n)
             else (case chain_at img n of Inl e \<Rightarrow> Some (Inl e) | Inr m \<Rightarrow> elf_loop k img name m)))"

definition ElfLookup :: "nat \<Rightarrow> elf_img \<Rightarrow> string \<Rightarrow> u32 \<Rightarrow> u64 res option" where
  "ElfLookup fuel img name hash =
     (if nbucket img = 0 then Some (Inr 0)
      else
        (case word_at img (bucket img + 4 * unat (hash mod nbucket img)) of
           Inl e \<Rightarrow> Some (Inl e) | Inr n \<Rightarrow> elf_loop fuel img name n))"

definition gnu_bucket_at :: "elf_img \<Rightarrow> u32 \<Rightarrow> u32 res" where
  "gnu_bucket_at img b = word_at img (gnu_bloom_filter img + 8 * unat (gnu_bloom_size img) + 4 * unat b)"

text \<open>\<open>gnu_chain_\<close> is set back by \<open>gnu_symndx_\<close> words.\<close>

definition gnu_chain_at :: "elf_img \<Rightarrow> u32 \<Rightarrow> u32 res" where
  "gnu_chain_at img n =
     (if n < gnu_symndx img then Inl Out_Of_Bounds
      else word_at img (gnu_bloom_filter img + 8 * unat (gnu_bloom_size img) + 4 * unat (gnu_nbucket img) +
             4 * (unat n - unat (gnu_symndx img))))"

definition bloom_at :: "elf_img \<Rightarrow> u32 \<Rightarrow> u64 res" where
  "bloom_at img i =
     (case header img of
        None \<Rightarrow> Inl Null_Deref
      | Some f \<Rightarrow> bind_r (rd 8 f (gnu_bloom_filter img + 8 * unat i)) (\<lambda>v. Inr (word_of_nat v)))"

definition bloom_mask :: "elf_img \<Rightarrow> u32 \<Rightarrow> u64" where
  "bloom_mask img hash =
     push_bit (unat (hash mod 64)) 1 OR push_bit (unat (drop_bit (unat (gnu_shift2 img)) hash mod 64)) 1"

fun gnu_loop :: "nat \<Rightarrow> elf_img \<Rightarrow> string \<Rightarrow> u32 \<Rightarrow> u32 \<Rightarrow> u64 res option" where
  "gnu_loop 0 img name hash n = None"
| "gnu_loop (Suc k) img name hash n =
     (case gnu_chain_at img n of
        Inl e \<Rightarrow> Some (Inl e)
      | Inr c \<Rightarrow>
          (case (if drop_bit 1 (c XOR hash) = 0 then bind_r (dyn_name img n) (\<lambda>s. Inr (name = s)) else Inr False) of
             Inl e \<Rightarrow> Some (Inl e)
           | Inr found \<Rightarrow>
               if found then Some (dyn_value img n)
               else if c AND 1 = 0 then gnu_loop k img name hash (n + 1)
               else Some (Inr 0)))"

definition GnuLookup :: "nat \<Rightarrow> elf_img \<Rightarrow> string \<Rightarrow> u32 \<Rightarrow> u64 res option" where
  "GnuLookup fuel img name hash =
     (if gnu_nbucket img = 0 \<or> gnu_bloom_size img = 0 then Some (Inr 0)
      else
        (case bloom_at img (hash div 64 mod gnu_bloom_size img) of
           Inl e \<Rightarrow> Some (Inl e)
         | Inr bloom_word \<Rightarrow>
             if bloom_mask img hash AND bloom_word \<noteq> bloom_mask img hash then Some (Inr 0)
             else
               (case gnu_bucket_at img (hash mod gnu_nbucket img) of
                  Inl e \<Rightarrow> Some (Inl e)
                | Inr n \<Rightarrow> if n \<ge> gnu_symndx img then gnu_loop fuel img name hash n else Some (Inr 0))))"

text \<open>\<open>symtabs_\<close>: the first entry of a name stays.  The types are \<open>STT_OBJECT\<close> and \<open>STT_FUNC\<close>.\<close>

definition emplace :: "string \<Rightarrow> u64 \<Rightarrow> (string \<times> u64) list \<Rightarrow> (string \<times> u64) list" where
  "emplace name v m = (if map_of m name = None then m @ [(name, v)] else m)"

fun build_symtabs :: "string \<Rightarrow> nat \<Rightarrow> nat \<Rightarrow> nat \<Rightarrow> (string \<times> u64) list \<Rightarrow> (string \<times> u64) list res" where
  "build_symtabs f str off 0 m = Inr m"
| "build_symtabs f str off (Suc n) m =
     bind_r (rd 1 f (off + 4)) (\<lambda>st_info. bind_r (rd 8 f (off + 16)) (\<lambda>st_size. bind_r (rd 4 f off) (\<lambda>st_name.
       if st_info mod 16 \<in> {1, 2} \<and> st_size \<noteq> 0
       then bind_r (cstr_at f (str + st_name)) (\<lambda>name. bind_r (rd 8 f (off + 8)) (\<lambda>v.
              build_symtabs f str (off + 24) n (emplace name (word_of_nat v) m)))
       else build_symtabs f str (off + 24) n m)))"

definition LinearLookup :: "elf_img \<Rightarrow> string \<Rightarrow> (u64 \<times> elf_img) res" where
  "LinearLookup img name =
     bind_r (case (symtabs img, symtab_start img, header img) of
               ([], Some off, Some f) \<Rightarrow>
                 if symstr_offset_for_symtab img \<noteq> 0
                 then build_symtabs f (symstr_offset_for_symtab img) off (symtab_count img) []
                 else Inr []
             | _ \<Rightarrow> Inr (symtabs img)) (\<lambda>m.
       Inr (case map_of m name of None \<Rightarrow> 0 | Some v \<Rightarrow> v, img\<lparr>symtabs := m\<rparr>))"

definition getSymbOffset :: "nat \<Rightarrow> elf_img \<Rightarrow> string \<Rightarrow> (u64 \<times> elf_img) res option" where
  "getSymbOffset fuel img name =
     (case GnuLookup fuel img name (GnuHash name) of
        None \<Rightarrow> None
      | Some (Inl e) \<Rightarrow> Some (Inl e)
      | Some (Inr offset) \<Rightarrow>
          if offset > 0 then Some (Inr (offset, img))
          else
            (case ElfLookup fuel img name (ElfHash name) of
               None \<Rightarrow> None
             | Some (Inl e) \<Rightarrow> Some (Inl e)
             | Some (Inr offset) \<Rightarrow> if offset > 0 then Some (Inr (offset, img)) else Some (LinearLookup img name)))"

definition getSymbAddress :: "nat \<Rightarrow> elf_img \<Rightarrow> string \<Rightarrow> (u64 \<times> elf_img) res option" where
  "getSymbAddress fuel img name =
     map_option (\<lambda>r. bind_r r (\<lambda>(offset, img').
       Inr (if offset > 0 \<and> base img' \<noteq> 0 then base img' + offset - bias img' else 0, img')))
     (getSymbOffset fuel img name)"

end
