(* ===== verification/Elf_Lookup.thy ===== *)
theory Elf_Lookup
  imports Elf_Image
begin

text \<open>
  The symbol lookups of \<open>ElfImg\<close> against an abstract symbol table: a list of names and values.  What it means that the
  bytes of a file hold a hash table over such a list is stated after the formats of the two tables; both lookups
  meet the contract \<open>symbol_lookup\<close>, from which the facts about addresses follow.
\<close>

definition sym_value :: "(string \<times> u64) list \<Rightarrow> string \<Rightarrow> u64" where
  "sym_value syms name = (case map_of syms name of None \<Rightarrow> 0 | Some v \<Rightarrow> v)"

lemma sym_value_Cons: "sym_value (s # syms) name = (if fst s = name then snd s else sym_value syms name)"
  by (cases s) (simp add: sym_value_def)

lemma sym_value_absent: "name \<notin> fst ` set syms \<Longrightarrow> sym_value syms name = 0"
  by (simp add: sym_value_def map_of_eq_None_iff [THEN iffD2])

lemma sym_value_drop: "name \<notin> fst ` set (take i syms) \<Longrightarrow> sym_value (drop i syms) name = sym_value syms name"
proof -
  assume "name \<notin> fst ` set (take i syms)"
  then have "map_of (take i syms @ drop i syms) name = map_of (drop i syms) name"
    by (metis map_add_dom_app_simps(3) dom_map_of_conv_image_fst map_of_append)
  then show ?thesis by (simp add: sym_value_def)
qed

text \<open>The contract: on an image that holds the table of \<open>syms\<close> the lookup of a name ends and gives its value, or 0.\<close>

locale symbol_lookup =
  fixes lookup :: "nat \<Rightarrow> elf_img \<Rightarrow> string \<Rightarrow> u64 res option"
    and holds_table :: "elf_img \<Rightarrow> (string \<times> u64) list \<Rightarrow> bool"
  assumes lookup_value: "holds_table img syms \<Longrightarrow> fuel > length syms \<Longrightarrow> lookup fuel img name = Some (Inr (sym_value syms name))"
begin

lemma listed:
  "holds_table img syms \<Longrightarrow> distinct (map fst syms) \<Longrightarrow> (name, v) \<in> set syms \<Longrightarrow> fuel > length syms \<Longrightarrow>
   lookup fuel img name = Some (Inr v)"
  by (simp add: lookup_value sym_value_def)

lemma not_listed:
  "holds_table img syms \<Longrightarrow> name \<notin> fst ` set syms \<Longrightarrow> fuel > length syms \<Longrightarrow> lookup fuel img name = Some (Inr 0)"
  by (simp add: lookup_value sym_value_absent)

end

section \<open>The GNU hash table\<close>

text \<open>The symbols of the table have the indices from \<open>gnu_symndx\<close> on and are sorted by bucket; the chain holds their
  hashes, with the lowest bit set at the end of a bucket.\<close>

definition gnu_idx :: "elf_img \<Rightarrow> nat \<Rightarrow> u32" where
  "gnu_idx img i = gnu_symndx img + word_of_nat i"

definition bno :: "elf_img \<Rightarrow> string \<Rightarrow> nat" where
  "bno img name = unat (GnuHash name mod gnu_nbucket img)"

definition bucket_end :: "elf_img \<Rightarrow> (string \<times> u64) list \<Rightarrow> nat \<Rightarrow> bool" where
  "bucket_end img syms i \<longleftrightarrow> Suc i = length syms \<or> bno img (fst (syms ! Suc i)) \<noteq> bno img (fst (syms ! i))"

definition gnu_entry :: "elf_img \<Rightarrow> (string \<times> u64) list \<Rightarrow> nat \<Rightarrow> bool" where
  "gnu_entry img syms i \<longleftrightarrow>
     dyn_name img (gnu_idx img i) = Inr (fst (syms ! i)) \<and> dyn_value img (gnu_idx img i) = Inr (snd (syms ! i)) \<and>
     (case gnu_chain_at img (gnu_idx img i) of
        Inl _ \<Rightarrow> False
      | Inr c \<Rightarrow> drop_bit 1 (c XOR GnuHash (fst (syms ! i))) = 0 \<and> (c AND 1 \<noteq> 0 \<longleftrightarrow> bucket_end img syms i))"

definition gnu_bucket :: "elf_img \<Rightarrow> (string \<times> u64) list \<Rightarrow> nat \<Rightarrow> bool" where
  "gnu_bucket img syms b \<longleftrightarrow>
     gnu_bucket_at img (word_of_nat b) =
       Inr (case find (\<lambda>i. bno img (fst (syms ! i)) = b) [0..<length syms] of None \<Rightarrow> 0 | Some i \<Rightarrow> gnu_idx img i)"

definition in_bloom :: "elf_img \<Rightarrow> string \<Rightarrow> bool" where
  "in_bloom img name =
     (case bloom_at img (GnuHash name div 64 mod gnu_bloom_size img) of
        Inl _ \<Rightarrow> False | Inr w \<Rightarrow> bloom_mask img (GnuHash name) AND w = bloom_mask img (GnuHash name))"

definition gnu_table :: "elf_img \<Rightarrow> (string \<times> u64) list \<Rightarrow> bool" where
  "gnu_table img syms \<longleftrightarrow>
     gnu_nbucket img \<noteq> 0 \<and> gnu_bloom_size img \<noteq> 0 \<and> gnu_symndx img \<noteq> 0 \<and>
     unat (gnu_symndx img) + length syms < 2 ^ 32 \<and> sorted (map (bno img \<circ> fst) syms) \<and>
     list_all (gnu_entry img syms) [0..<length syms] \<and> list_all (gnu_bucket img syms) [0..<unat (gnu_nbucket img)] \<and>
     list_all (\<lambda>i. \<not> Sum_Type.isl (bloom_at img (word_of_nat i))) [0..<unat (gnu_bloom_size img)] \<and>
     list_all (in_bloom img \<circ> fst) syms"

lemma gnu_idx_Suc: "gnu_idx img i + 1 = gnu_idx img (Suc i)"
  by (simp add: gnu_idx_def algebra_simps)

lemma gnu_table_entry: "gnu_table img syms \<Longrightarrow> i < length syms \<Longrightarrow> gnu_entry img syms i"
  by (simp add: gnu_table_def list_all_iff)

lemma gnu_table_later:
  assumes "gnu_table img syms" and "i < length syms" and "bucket_end img syms i" and "bno img name = bno img (fst (syms ! i))"
  shows "name \<notin> fst ` set (drop (Suc i) syms)"
proof
  assume "name \<in> fst ` set (drop (Suc i) syms)"
  then obtain x where x: "x \<in> set (drop (Suc i) syms)" "fst x = name" by blast
  then obtain k where k: "k < length syms - Suc i" "fst (drop (Suc i) syms ! k) = name"
    unfolding in_set_conv_nth by (metis length_drop)
  define j where "j = Suc i + k"
  have j: "Suc i \<le> j" "j < length syms" "fst (syms ! j) = name" using k by (simp_all add: j_def)
  then have s: "Suc i < length syms" by simp
  have srt: "sorted (map (bno img \<circ> fst) syms)" using assms(1) by (simp add: gnu_table_def)
  have "bno img (fst (syms ! i)) \<le> bno img (fst (syms ! Suc i))" "bno img (fst (syms ! Suc i)) \<le> bno img (fst (syms ! j))"
    using sorted_nth_mono [OF srt, of i "Suc i"] sorted_nth_mono [OF srt, of "Suc i" j] j s by simp_all
  with j(3) assms(3,4) s show False by (simp add: bucket_end_def)
qed

lemma gnu_loop_value:
  assumes "gnu_table img syms" and "i < length syms" and "bno img (fst (syms ! i)) = bno img name" and "fuel \<ge> length syms - i"
  shows "gnu_loop fuel img name (GnuHash name) (gnu_idx img i) = Some (Inr (sym_value (drop i syms) name))"
  using assms(2-4)
proof (induction "length syms - i" arbitrary: i fuel)
  case (Suc n)
  obtain k where k: "fuel = Suc k" using Suc.hyps(2) Suc.prems(3) by (cases fuel) auto
  note en = gnu_table_entry [OF assms(1) Suc.prems(1), unfolded gnu_entry_def]
  then obtain c where c: "gnu_chain_at img (gnu_idx img i) = Inr c" "drop_bit 1 (c XOR GnuHash (fst (syms ! i))) = 0"
    "c AND 1 \<noteq> 0 \<longleftrightarrow> bucket_end img syms i" by (auto split: sum.splits)
  have d: "drop i syms = syms ! i # drop (Suc i) syms" by (rule Cons_nth_drop_Suc [symmetric, OF Suc.prems(1)])
  show ?case
  proof (cases "name = fst (syms ! i)")
    case True
    then show ?thesis using en c k by (simp add: d sym_value_Cons)
  next
    case False
    then have v: "sym_value (drop i syms) name = sym_value (drop (Suc i) syms) name" by (simp add: d sym_value_Cons)
    show ?thesis
    proof (cases "bucket_end img syms i")
      case True
      then have "sym_value (drop (Suc i) syms) name = 0"
        using gnu_table_later [OF assms(1) Suc.prems(1)] Suc.prems(2) by (simp add: sym_value_absent)
      with True False en c k v show ?thesis by auto
    next
      case last: False
      then have s: "Suc i < length syms" "bno img (fst (syms ! Suc i)) = bno img name"
        using Suc.prems(1,2) by (auto simp: bucket_end_def)
      have "gnu_loop k img name (GnuHash name) (gnu_idx img (Suc i)) = Some (Inr (sym_value (drop (Suc i) syms) name))"
        by (rule Suc.hyps(1)) (use Suc.hyps(2) Suc.prems(3) k s in auto)
      with last False en c k v show ?thesis by (auto simp: gnu_idx_Suc)
    qed
  qed
qed simp

lemma mod_less_word: "(m :: u32) \<noteq> 0 \<Longrightarrow> unat (x mod m) < unat m"
  by (simp add: unat_mod_distrib unat_gt_0)

lemma in_fst_nth: "name \<in> fst ` set syms \<Longrightarrow> \<exists>i < length syms. fst (syms ! i) = name"
  by (metis imageE in_set_conv_nth)

lemma gnu_start:
  assumes "gnu_table img syms"
  shows "gnu_bucket_at img (GnuHash name mod gnu_nbucket img) =
    Inr (case find (\<lambda>i. bno img (fst (syms ! i)) = bno img name) [0..<length syms] of None \<Rightarrow> 0 | Some i \<Rightarrow> gnu_idx img i)"
proof -
  have "gnu_nbucket img \<noteq> 0" and l: "list_all (gnu_bucket img syms) [0..<unat (gnu_nbucket img)]"
    using assms by (auto simp: gnu_table_def)
  then have "bno img name < unat (gnu_nbucket img)" unfolding bno_def by (intro mod_less_word)
  with l have "gnu_bucket img syms (bno img name)" by (simp add: list_all_iff)
  then show ?thesis by (simp add: gnu_bucket_def bno_def)
qed

lemma gnu_idx_ge: "gnu_table img syms \<Longrightarrow> i < length syms \<Longrightarrow> gnu_idx img i \<ge> gnu_symndx img"
  by (simp add: gnu_table_def gnu_idx_def word_le_nat_alt unat_word_ariths unsigned_of_nat take_bit_eq_mod)

lemma GnuLookup_value:
  assumes "gnu_table img syms" and "fuel > length syms"
  shows "GnuLookup fuel img name (GnuHash name) = Some (Inr (sym_value syms name))"
proof -
  have nz: "gnu_nbucket img \<noteq> 0" "gnu_bloom_size img \<noteq> 0" "gnu_symndx img \<noteq> 0"
    and bl: "list_all (\<lambda>i. \<not> Sum_Type.isl (bloom_at img (word_of_nat i))) [0..<unat (gnu_bloom_size img)]"
    and ib: "list_all (in_bloom img \<circ> fst) syms"
    using assms(1) by (auto simp: gnu_table_def)
  have "unat (GnuHash name div 64 mod gnu_bloom_size img) < unat (gnu_bloom_size img)" using nz(2) by (rule mod_less_word)
  with bl have "\<not> Sum_Type.isl (bloom_at img (word_of_nat (unat (GnuHash name div 64 mod gnu_bloom_size img))))"
    unfolding list_all_iff by (metis atLeastLessThan_iff le0 set_upt)
  then obtain w where w: "bloom_at img (GnuHash name div 64 mod gnu_bloom_size img) = Inr w"
    by (cases "bloom_at img (GnuHash name div 64 mod gnu_bloom_size img)") simp_all
  show ?thesis
  proof (cases "in_bloom img name")
    case False
    then have "name \<notin> fst ` set syms" using ib by (auto simp: list_all_iff)
    then show ?thesis using False w nz by (simp add: GnuLookup_def in_bloom_def sym_value_absent)
  next
    case True
    then have m: "bloom_mask img (GnuHash name) AND w = bloom_mask img (GnuHash name)" using w by (simp add: in_bloom_def)
    show ?thesis
    proof (cases "find (\<lambda>i. bno img (fst (syms ! i)) = bno img name) [0..<length syms]")
      case None
      then have "name \<notin> fst ` set syms" using in_fst_nth [of name syms] unfolding find_None_iff by (metis atLeastLessThan_iff le0 set_upt)
      then show ?thesis
        using None w m nz gnu_start [OF assms(1), of name] by (simp add: GnuLookup_def sym_value_absent word_le_nat_alt unat_eq_zero)
    next
      case (Some i)
      then have i: "i < length syms" "bno img (fst (syms ! i)) = bno img name"
        and before: "\<forall>j < i. bno img (fst (syms ! j)) \<noteq> bno img name"
        by (auto simp: find_Some_iff)
      have "name \<notin> fst ` set (take i syms)"
      proof
        assume "name \<in> fst ` set (take i syms)"
        then obtain j where "j < i" "fst (syms ! j) = name" using in_fst_nth [of name "take i syms"] by auto
        with before show False by auto
      qed
      then have "sym_value (drop i syms) name = sym_value syms name" by (rule sym_value_drop)
      moreover have "gnu_loop fuel img name (GnuHash name) (gnu_idx img i) = Some (Inr (sym_value (drop i syms) name))"
        by (rule gnu_loop_value [OF assms(1) i]) (use assms(2) in simp)
      ultimately show ?thesis
        using Some w m nz gnu_start [OF assms(1), of name] gnu_idx_ge [OF assms(1) i(1)] by (simp add: GnuLookup_def)
    qed
  qed
qed

interpretation gnu: symbol_lookup "\<lambda>fuel img name. GnuLookup fuel img name (GnuHash name)" gnu_table
  by unfold_locales (rule GnuLookup_value)

section \<open>The System V hash table\<close>

text \<open>The symbol of position \<open>i\<close> in the list has index \<open>i + 1\<close>; a bucket starts a chain of indices that ends with 0.\<close>

fun chain_path :: "elf_img \<Rightarrow> u32 \<Rightarrow> nat list \<Rightarrow> bool" where
  "chain_path img n [] \<longleftrightarrow> n = 0"
| "chain_path img n (i # is) \<longleftrightarrow>
     n = word_of_nat (Suc i) \<and> (case chain_at img n of Inl _ \<Rightarrow> False | Inr m \<Rightarrow> chain_path img m is)"

definition elf_entry :: "elf_img \<Rightarrow> (string \<times> u64) list \<Rightarrow> nat \<Rightarrow> bool" where
  "elf_entry img syms i \<longleftrightarrow>
     dyn_name img (word_of_nat (Suc i)) = Inr (fst (syms ! i)) \<and> dyn_value img (word_of_nat (Suc i)) = Inr (snd (syms ! i))"

text \<open>\<open>chs ! b\<close> are the positions in the bucket \<open>b\<close>.\<close>

definition elf_chains :: "elf_img \<Rightarrow> (string \<times> u64) list \<Rightarrow> nat list list \<Rightarrow> bool" where
  "elf_chains img syms chs \<longleftrightarrow>
     nbucket img \<noteq> 0 \<and> length chs = unat (nbucket img) \<and> Suc (length syms) < 2 ^ 32 \<and> distinct (map fst syms) \<and>
     list_all (elf_entry img syms) [0..<length syms] \<and>
     list_all (\<lambda>b. (case word_at img (bucket img + 4 * b) of Inl _ \<Rightarrow> False | Inr n \<Rightarrow> chain_path img n (chs ! b)) \<and>
       list_all (\<lambda>i. i < length syms) (chs ! b) \<and> length (chs ! b) \<le> length syms) [0..<length chs] \<and>
     list_all (\<lambda>i. i \<in> set (chs ! unat (ElfHash (fst (syms ! i)) mod nbucket img))) [0..<length syms]"

definition elf_table :: "elf_img \<Rightarrow> (string \<times> u64) list \<Rightarrow> bool" where
  "elf_table img syms \<longleftrightarrow> (\<exists>chs. elf_chains img syms chs)"

lemma word_of_Suc_nz: "Suc i < 2 ^ 32 \<Longrightarrow> (word_of_nat (Suc i) :: u32) \<noteq> 0"
proof
  assume i: "Suc i < 2 ^ 32" and z: "(word_of_nat (Suc i) :: u32) = 0"
  have "unat (word_of_nat (Suc i) :: u32) = Suc i mod 2 ^ 32" by (simp add: unsigned_of_nat take_bit_eq_mod del: of_nat_Suc)
  with i z show False by (metis mod_less nat.distinct(1) unat_0)
qed

lemma elf_loop_value:
  assumes "chain_path img n is" and "list_all (\<lambda>i. i < length syms) is" and "list_all (elf_entry img syms) [0..<length syms]"
    and "Suc (length syms) < 2 ^ 32" and "fuel > length is"
  shows "elf_loop fuel img name n =
    Some (Inr (case find (\<lambda>i. fst (syms ! i) = name) is of None \<Rightarrow> 0 | Some i \<Rightarrow> snd (syms ! i)))"
  using assms(1,2,5)
proof (induction "is" arbitrary: n fuel)
  case Nil
  then show ?case by (cases fuel) simp_all
next
  case (Cons i "is")
  then obtain k where k: "fuel = Suc k" "k > length is" by (cases fuel) auto
  obtain m where m: "n = word_of_nat (Suc i)" "chain_at img n = Inr m" "chain_path img m is"
    using Cons.prems(1) by (auto split: sum.splits)
  have i: "i < length syms" "list_all (\<lambda>i. i < length syms) is" using Cons.prems(2) by simp_all
  have nz: "n \<noteq> 0" unfolding m(1) by (rule word_of_Suc_nz) (use i assms(4) in simp)
  have en: "dyn_name img n = Inr (fst (syms ! i))" "dyn_value img n = Inr (snd (syms ! i))"
    using assms(3) i(1) unfolding m(1) by (simp_all add: list_all_iff elf_entry_def)
  show ?case
  proof (cases "name = fst (syms ! i)")
    case True
    then show ?thesis using k nz en by simp
  next
    case False
    then show ?thesis using k nz en m Cons.IH [OF m(3) i(2) k(2)] by auto
  qed
qed

lemma sym_value_nth: "distinct (map fst syms) \<Longrightarrow> i < length syms \<Longrightarrow> sym_value syms (fst (syms ! i)) = snd (syms ! i)"
proof -
  assume "distinct (map fst syms)" and "i < length syms"
  then have "map_of syms (fst (syms ! i)) = Some (snd (syms ! i))" by (intro map_of_is_SomeI) simp_all
  then show ?thesis by (simp add: sym_value_def)
qed

lemma ElfLookup_value:
  assumes "elf_table img syms" and "fuel > length syms"
  shows "ElfLookup fuel img name (ElfHash name) = Some (Inr (sym_value syms name))"
proof -
  obtain chs where ch: "elf_chains img syms chs" using assms(1) by (auto simp: elf_table_def)
  let ?b = "unat (ElfHash name mod nbucket img)"
  have nb: "nbucket img \<noteq> 0" "length chs = unat (nbucket img)" and n: "Suc (length syms) < 2 ^ 32"
    and d: "distinct (map fst syms)" and en: "list_all (elf_entry img syms) [0..<length syms]"
    using ch by (simp_all add: elf_chains_def)
  have b: "?b < length chs" unfolding nb(2) by (rule mod_less_word [OF nb(1)])
  then obtain n0 where n0: "word_at img (bucket img + 4 * ?b) = Inr n0" "chain_path img n0 (chs ! ?b)"
      "list_all (\<lambda>i. i < length syms) (chs ! ?b)" "length (chs ! ?b) \<le> length syms"
  proof -
    have "(case word_at img (bucket img + 4 * ?b) of Inl _ \<Rightarrow> False | Inr n \<Rightarrow> chain_path img n (chs ! ?b)) \<and>
        list_all (\<lambda>i. i < length syms) (chs ! ?b) \<and> length (chs ! ?b) \<le> length syms"
      using ch b unfolding elf_chains_def list_all_iff [of _ "[0..<length chs]"] by simp
    then show thesis using that by (auto split: sum.splits)
  qed
  have "(case find (\<lambda>i. fst (syms ! i) = name) (chs ! ?b) of None \<Rightarrow> 0 | Some i \<Rightarrow> snd (syms ! i)) = sym_value syms name"
  proof (cases "find (\<lambda>i. fst (syms ! i) = name) (chs ! ?b)")
    case None
    have "name \<notin> fst ` set syms"
    proof
      assume "name \<in> fst ` set syms"
      from in_fst_nth [OF this] obtain i where i: "i < length syms" "fst (syms ! i) = name" by auto
      have "list_all (\<lambda>i. i \<in> set (chs ! unat (ElfHash (fst (syms ! i)) mod nbucket img))) [0..<length syms]"
        using ch by (simp only: elf_chains_def)
      then have "i \<in> set (chs ! unat (ElfHash (fst (syms ! i)) mod nbucket img))"
        using i(1) by (simp add: list_all_iff)
      then have "i \<in> set (chs ! ?b)" unfolding i(2) .
      with None i(2) show False unfolding find_None_iff by blast
    qed
    with None show ?thesis by (simp add: sym_value_absent)
  next
    case (Some i)
    then have "i \<in> set (chs ! ?b)" "fst (syms ! i) = name" by (auto simp: find_Some_iff)
    with n0(3) sym_value_nth [OF d, of i] Some show ?thesis by (auto simp: list_all_iff)
  qed
  with elf_loop_value [OF n0(2,3) en n, of fuel name] n0 nb assms(2) show ?thesis by (simp add: ElfLookup_def)
qed

interpretation sysv: symbol_lookup "\<lambda>fuel img name. ElfLookup fuel img name (ElfHash name)" elf_table
  by unfold_locales (rule ElfLookup_value)

section \<open>Addresses\<close>


text \<open>A library of one exported function, with both tables.\<close>

definition sample_file :: string where
  "sample_file =
     replicate 24 NUL @
     [CHR 0x01, NUL, NUL, NUL, NUL, NUL, NUL, NUL, CHR 0x34, CHR 0x12, NUL, NUL, NUL, NUL, NUL, NUL,
      CHR 0x08, NUL, NUL, NUL, NUL, NUL, NUL, NUL] @
     [NUL, CHR ''a'', CHR ''b'', NUL] @
     [NUL, NUL, NUL, NUL, NUL, CHR 0x01, NUL, NUL, CHR 0x01, NUL, NUL, NUL, CHR 0x29, CHR 0x77, CHR 0x59, NUL] @
     [CHR 0x01, NUL, NUL, NUL, NUL, NUL, NUL, NUL, NUL, NUL, NUL, NUL]"

definition sample_img :: elf_img where
  "sample_img =
     (new_img ''lib'')\<lparr>base := 0x10000, header := Some sample_file, bias := 0x1000, dynsym_start := Some 0,
       strtab_start := Some 48, gnu_nbucket := 1, gnu_symndx := 1, gnu_bloom_size := 1, gnu_shift2 := 0,
       gnu_bloom_filter := 52, nbucket := 1, bucket := 68\<rparr>"

lemma sample_img_sel:
  "header sample_img = Some sample_file" "dynsym_start sample_img = Some 0" "strtab_start sample_img = Some 48"
  "gnu_nbucket sample_img = 1" "gnu_symndx sample_img = 1" "gnu_bloom_size sample_img = 1" "gnu_shift2 sample_img = 0"
  "gnu_bloom_filter sample_img = 52" "nbucket sample_img = 1" "bucket sample_img = 68"
  by (simp_all add: sample_img_def)

lemma sample_slices:
  "length sample_file = 80" "take 4 (drop 24 sample_file) = [CHR 0x01, NUL, NUL, NUL]"
  "take 8 (drop 32 sample_file) = [CHR 0x34, CHR 0x12, NUL, NUL, NUL, NUL, NUL, NUL]"
  "take 8 (drop 52 sample_file) = [NUL, NUL, NUL, NUL, NUL, CHR 0x01, NUL, NUL]"
  "take 4 (drop 60 sample_file) = [CHR 0x01, NUL, NUL, NUL]"
  "take 4 (drop 64 sample_file) = [CHR 0x29, CHR 0x77, CHR 0x59, NUL]"
  "take 4 (drop 68 sample_file) = [CHR 0x01, NUL, NUL, NUL]"
  "take 4 (drop 76 sample_file) = [NUL, NUL, NUL, NUL]" "cstr_at sample_file 49 = Inr ''ab''"
  by code_simp+

lemmas sample_simps = sample_img_sel sample_slices rd_def dyn_sym_def dyn_name_def dyn_value_def word_at_def

lemma sample_hash: "GnuHash ''ab'' = 5863208"
  by (simp add: GnuHash_def)

lemma sample_symbol: "dyn_name sample_img 1 = Inr ''ab''" "dyn_value sample_img 1 = Inr 0x1234"
  by (simp_all add: sample_simps)

lemma sample_gnu: "gnu_table sample_img [(''ab'', 0x1234)]"
proof -
  have "gnu_chain_at sample_img 1 = Inr 5863209" "bloom_at sample_img 0 = Inr 0x10000000000"
    "gnu_bucket_at sample_img 0 = Inr 1"
    by (simp_all add: gnu_chain_at_def gnu_bucket_at_def bloom_at_def sample_simps)
  moreover have "bloom_mask sample_img (GnuHash ''ab'') = 0x10000000000"
    by (simp add: bloom_mask_def sample_hash sample_img_sel)
  ultimately show ?thesis
    by (simp add: gnu_table_def gnu_entry_def gnu_bucket_def gnu_idx_def in_bloom_def bucket_end_def bno_def sample_hash
        sample_symbol sample_img_sel)
qed

lemma sample_sysv: "elf_table sample_img [(''ab'', 0x1234)]"
  unfolding elf_table_def
  by (rule exI [of _ "[[0]]"])
    (simp add: elf_chains_def elf_entry_def chain_at_def sample_symbol sample_simps)


text \<open>The address of a symbol that the GNU hash table has, or the System V table of a file without the other, is its
  value moved from the file's layout to where the library is loaded.\<close>

lemma symbol_address:
  assumes "gnu_table img syms \<or> gnu_nbucket img = 0 \<and> elf_table img syms" and "distinct (map fst syms)"
    and "(name, v) \<in> set syms" and "v \<noteq> 0" and "base img \<noteq> 0" and "fuel > length syms"
  shows "getSymbAddress fuel img name = Some (Inr (base img + v - bias img, img))"
proof -
  have "v > 0" using assms(4) by (simp add: word_neq_0_conv)
  from assms(1) have "getSymbOffset fuel img name = Some (Inr (v, img))"
  proof
    assume "gnu_table img syms"
    from gnu.listed [OF this assms(2,3,6)] \<open>v > 0\<close> show ?thesis by (simp add: getSymbOffset_def)
  next
    assume e: "gnu_nbucket img = 0 \<and> elf_table img syms"
    then have "GnuLookup fuel img name (GnuHash name) = Some (Inr 0)" by (simp add: GnuLookup_def)
    with sysv.listed [OF conjunct2 [OF e] assms(2,3,6)] \<open>v > 0\<close> show ?thesis by (simp add: getSymbOffset_def)
  qed
  with \<open>v > 0\<close> assms(5) show ?thesis by (simp add: getSymbAddress_def)
qed

lemma symbol_address_witness:
  "getSymbAddress 2 sample_img ''ab'' = Some (Inr (0x10234, sample_img))"
proof -
  have "getSymbAddress 2 sample_img ''ab'' = Some (Inr (base sample_img + 0x1234 - bias sample_img, sample_img))"
    by (rule symbol_address [of _ "[(''ab'', 0x1234)]"]) (simp_all add: sample_gnu, simp add: sample_img_def)
  then show ?thesis by (simp add: sample_img_def)
qed

text \<open>The symbols that \<open>LinearLookup\<close> remembers give the answers that reading the table again would give.\<close>

lemma LinearLookup_cached:
  assumes "LinearLookup img name = Inr (v, img')"
  shows "map_option fst (case LinearLookup img' name' of Inl _ \<Rightarrow> None | Inr x \<Rightarrow> Some x) =
    map_option fst (case LinearLookup img name' of Inl _ \<Rightarrow> None | Inr x \<Rightarrow> Some x)"
proof (cases "symtabs img")
  case (Cons a l)
  then show ?thesis using assms by (auto simp: LinearLookup_def)
next
  case Nil
  obtain m where m: "(case (symtabs img, symtab_start img, header img) of
      ([], Some off, Some f) \<Rightarrow>
        if symstr_offset_for_symtab img \<noteq> 0
        then build_symtabs f (symstr_offset_for_symtab img) off (symtab_count img) []
        else Inr []
    | _ \<Rightarrow> Inr (symtabs img)) = Inr m" "img' = img\<lparr>symtabs := m\<rparr>"
    using assms unfolding LinearLookup_def bind_r_eq_Inr by blast
  have "LinearLookup img name' = Inr (case map_of m name' of None \<Rightarrow> 0 | Some v \<Rightarrow> v, img\<lparr>symtabs := m\<rparr>)"
    unfolding LinearLookup_def m(1) by simp
  moreover have "LinearLookup img' name' = Inr (case map_of m name' of None \<Rightarrow> 0 | Some v \<Rightarrow> v, img\<lparr>symtabs := m\<rparr>)"
  proof (cases m)
    case (Cons a l)
    then show ?thesis unfolding m(2) LinearLookup_def by simp
  next
    case Nil': Nil
    then show ?thesis using m(1) Nil unfolding m(2) by (auto simp: LinearLookup_def split: option.splits if_splits)
  qed
  ultimately show ?thesis by simp
qed

section \<open>The life of an image\<close>

text \<open>What a result keeps of an image, with rules for the shapes of a scan.\<close>

definition keeps_file :: "elf_img \<Rightarrow> elf_img res \<Rightarrow> bool" where
  "keeps_file img r \<longleftrightarrow> (\<forall>img'. r = Inr img' \<longrightarrow> header img' = header img \<and> base img' = base img)"

lemma keeps_bind: "(\<And>x. keeps_file img (k x)) \<Longrightarrow> keeps_file img (bind_r r k)"
  by (auto simp: keeps_file_def bind_r_eq_Inr)

lemma keeps_if: "keeps_file img r \<Longrightarrow> keeps_file img r' \<Longrightarrow> keeps_file img (if b then r else r')"
  by simp

lemma keeps_Inl: "keeps_file img (Inl e)"
  by (simp add: keeps_file_def)

lemma keeps_Inr: "header img' = header img \<Longrightarrow> base img' = base img \<Longrightarrow> keeps_file img (Inr img')"
  by (simp add: keeps_file_def)

lemma scan_section_keeps: "scan_section f ss sh img = Inr img' \<Longrightarrow> header img' = header img \<and> base img' = base img"
proof -
  have "keeps_file img (scan_section f ss sh img)"
    unfolding scan_section_def Let_def by (intro keeps_bind keeps_if keeps_Inl keeps_Inr) simp_all
  then show "scan_section f ss sh img = Inr img' \<Longrightarrow> header img' = header img \<and> base img' = base img"
    by (simp add: keeps_file_def)
qed

lemma scan_sections_keep: "scan_sections f ss es sh n img = Inr img' \<Longrightarrow> header img' = header img \<and> base img' = base img"
  by (induction n arbitrary: sh img) (auto simp: bind_r_eq_Inr dest: scan_section_keeps)

lemma findModuleBase_keeps: "findModuleBase os img = (ok, img') \<Longrightarrow> header img' = header img \<and> (ok \<longrightarrow> base img' \<noteq> 0)"
  by (induction os img rule: findModuleBase.induct) (auto split: if_splits)

text \<open>The destructor takes away exactly what the constructor mapped: the whole file of a library that is loaded and can be
  opened, and nothing for any other; an image is valid exactly when its library is loaded at a non-null address.\<close>

lemma ElfImg_life:
  assumes "ElfImg objects open_file mmap_ok name = Inr img" and "findModuleBase objects (new_img name) = (found, img0)"
  shows "destroy_ElfImg img = (if found then (case open_file (c_str (elf img0)) of None \<Rightarrow> [] | Some f \<Rightarrow> [length f]) else [])"
    and "isValid img \<longleftrightarrow> found"
proof -
  have h0: "header img0 = None" "found \<longrightarrow> base img0 \<noteq> 0"
    using findModuleBase_keeps [OF assms(2)] by (simp_all add: new_img_def)
  have "destroy_ElfImg img = (if found then (case open_file (c_str (elf img0)) of None \<Rightarrow> [] | Some f \<Rightarrow> [length f]) else []) \<and>
    (isValid img \<longleftrightarrow> found)"
  proof (cases "found \<and> open_file (c_str (elf img0)) \<noteq> None")
    case True
    then obtain f where f: "open_file (c_str (elf img0)) = Some f" by blast
    then have "scan_file f img0 = Inr img" using True assms by (auto simp: ElfImg_def split: if_splits)
    then have "header img = Some f \<and> base img = base img0"
      by (auto simp: scan_file_def bind_r_eq_Inr dest: scan_sections_keep)
    then show ?thesis using True f h0 by (simp add: destroy_ElfImg_def isValid_def)
  next
    case False
    then have "img = (if found then img0 else img0\<lparr>base := 0\<rparr>)" using assms by (auto simp: ElfImg_def)
    then show ?thesis using False h0 by (auto simp: destroy_ElfImg_def isValid_def)
  qed
  then show "destroy_ElfImg img = (if found then (case open_file (c_str (elf img0)) of None \<Rightarrow> [] | Some f \<Rightarrow> [length f]) else [])"
    and "isValid img \<longleftrightarrow> found" by simp_all
qed

end
