(* ===== verification/So_List.thy ===== *)
theory So_List
  imports Elf_Lookup
begin

text \<open>
  The list of the loaded libraries in the dynamic linker, \<open>loader/src/include/solist.hpp\<close>: finding it through the
  linker's own symbols, walking it, and clearing the path of an entry.

  Memory is one byte string with addresses as indices; address 0 is null.  The linker's member functions
  \<open>get_realpath\<close> and \<open>get_soname\<close> are the parameter \<open>lk\<close>, which takes the function's address and the entry.
  The walks take fuel; \<^term>\<open>None\<close> is a list without end.
\<close>

section \<open>Memory\<close>

definition ptr_at :: "string \<Rightarrow> u64 \<Rightarrow> u64 res" where
  "ptr_at m a = (if a = 0 then Inl Null_Deref else bind_r (rd 8 m (unat a)) (\<lambda>v. Inr (word_of_nat v)))"

definition put_ptr :: "string \<Rightarrow> u64 \<Rightarrow> u64 \<Rightarrow> string res" where
  "put_ptr m a v =
     (if a = 0 then Inl Null_Deref
      else if unat a + 8 \<le> length m then Inr (take (unat a) m @ enc_u64 v @ drop (unat a + 8) m)
      else Inl Out_Of_Bounds)"

definition str_at :: "string \<Rightarrow> u64 \<Rightarrow> string res" where
  "str_at m a = (if a = 0 then Inl Null_Deref else cstr_at m (unat a))"

section \<open>Entries\<close>

type_synonym linker_fns = "u64 \<Rightarrow> u64 \<Rightarrow> u64"

record so_list =
  solist :: u64
  somain :: u64
  solist_next_offset :: u64
  get_realpath_sym :: u64
  get_soname_sym :: u64

definition solist_realpath_offset :: u64 where "solist_realpath_offset = 0x1a8"

definition so_init :: so_list where
  "so_init = \<lparr>solist = 0, somain = 0, solist_next_offset = 0x30, get_realpath_sym = 0, get_soname_sym = 0\<rparr>"

definition get_next :: "so_list \<Rightarrow> string \<Rightarrow> u64 \<Rightarrow> u64 res" where
  "get_next s m this = ptr_at m (this + solist_next_offset s)"

text \<open>Without the linker's function the member is read as a \<open>std::string\<close>: a short one starts at its second byte, a long
  one has its pointer in the third word.\<close>

definition get_path :: "linker_fns \<Rightarrow> so_list \<Rightarrow> string \<Rightarrow> u64 \<Rightarrow> u64 res" where
  "get_path lk s m this =
     (if get_realpath_sym s \<noteq> 0 then Inr (lk (get_realpath_sym s) this)
      else
        (let str = this + solist_realpath_offset
         in bind_r (rd 1 m (unat str)) (\<lambda>b. if b mod 2 = 0 then Inr (str + 1) else ptr_at m (str + 16))))"

definition get_name :: "linker_fns \<Rightarrow> so_list \<Rightarrow> string \<Rightarrow> u64 \<Rightarrow> u64 res" where
  "get_name lk s m this =
     (if get_soname_sym s \<noteq> 0 then Inr (lk (get_soname_sym s) this)
      else ptr_at m (this + solist_realpath_offset - 8))"

text \<open>Both store the address of the variable \<open>empty_string\<close> where the linker's function points, which is the text
  itself.\<close>

definition nullify_name :: "linker_fns \<Rightarrow> so_list \<Rightarrow> u64 \<Rightarrow> string \<Rightarrow> u64 \<Rightarrow> string res" where
  "nullify_name lk s empty_string m this =
     (if get_soname_sym s = 0 then Inl Null_Deref else put_ptr m (lk (get_soname_sym s) this) empty_string)"

definition nullify_path :: "linker_fns \<Rightarrow> so_list \<Rightarrow> u64 \<Rightarrow> string \<Rightarrow> u64 \<Rightarrow> string res" where
  "nullify_path lk s empty_string m this =
     (if get_realpath_sym s = 0 then Inl Null_Deref else put_ptr m (lk (get_realpath_sym s) this) empty_string)"

section \<open>The walks\<close>

definition matches :: "linker_fns \<Rightarrow> so_list \<Rightarrow> string \<Rightarrow> string \<Rightarrow> u64 \<Rightarrow> bool res" where
  "matches lk s target m this =
     bind_r (get_name lk s m this) (\<lambda>n.
       if n = 0 then Inr False
       else
         bind_r (get_path lk s m this) (\<lambda>p.
           if p = 0 then Inr False
           else bind_r (str_at m p) (\<lambda>path. Inr (find_sub target path \<noteq> None))))"

text \<open>The two loops differ in that the second stops at the first match.\<close>

fun nullify_walk ::
  "bool \<Rightarrow> nat \<Rightarrow> linker_fns \<Rightarrow> so_list \<Rightarrow> u64 \<Rightarrow> string \<Rightarrow> string \<Rightarrow> u64 \<Rightarrow> string res option" where
  "nullify_walk once 0 lk s empty_string target m iter = None"
| "nullify_walk once (Suc k) lk s empty_string target m iter =
     (if iter = 0 then Some (Inr m)
      else
        (case matches lk s target m iter of
           Inl e \<Rightarrow> Some (Inl e)
         | Inr hit \<Rightarrow>
             (case (if hit then nullify_path lk s empty_string m iter else Inr m) of
                Inl e \<Rightarrow> Some (Inl e)
              | Inr m' \<Rightarrow>
                  if hit \<and> once then Some (Inr m')
                  else
                    (case get_next s m' iter of
                       Inl e \<Rightarrow> Some (Inl e)
                     | Inr n \<Rightarrow> nullify_walk once k lk s empty_string target m' n))))"

definition NullifySoName :: "nat \<Rightarrow> linker_fns \<Rightarrow> so_list \<Rightarrow> u64 \<Rightarrow> string \<Rightarrow> string \<Rightarrow> string res option" where
  "NullifySoName fuel lk s empty_string target_name m =
     (case nullify_walk False fuel lk s empty_string target_name m (solist s) of
        Some (Inr m') \<Rightarrow> nullify_walk True fuel lk s empty_string target_name m' (somain s)
      | r \<Rightarrow> r)"

section \<open>Finding the list\<close>

definition getStaticPointer :: "nat \<Rightarrow> elf_img \<Rightarrow> string \<Rightarrow> string \<Rightarrow> (u64 \<times> elf_img) res option" where
  "getStaticPointer fuel linker m name =
     map_option (\<lambda>r. bind_r r (\<lambda>(addr, linker').
       bind_r (if addr = 0 then Inr 0 else ptr_at m addr) (\<lambda>p. Inr (p, linker')))) (getSymbAddress fuel linker name)"

definition bind_o :: "'a res option \<Rightarrow> ('a \<Rightarrow> 'b res option) \<Rightarrow> 'b res option" where
  "bind_o r f = (case r of None \<Rightarrow> None | Some (Inl e) \<Rightarrow> Some (Inl e) | Some (Inr x) \<Rightarrow> f x)"

text \<open>The loop over the first 1024 bytes of the first entry.\<close>

fun find_next_offset :: "string \<Rightarrow> u64 \<Rightarrow> u64 \<Rightarrow> u64 \<Rightarrow> nat list \<Rightarrow> nat option res" where
  "find_next_offset m first main vdso [] = Inr None"
| "find_next_offset m first main vdso (i # is) =
     bind_r (ptr_at m (first + word_of_nat (8 * i))) (\<lambda>possible_next.
       if possible_next = main \<or> vdso \<noteq> 0 \<and> possible_next = vdso then Inr (Some (8 * i))
       else find_next_offset m first main vdso is)"

text \<open>\<open>objects\<close>, \<open>open_file\<close> and \<open>mmap_ok\<close> are what the constructor of \<open>ElfImg\<close> meets.\<close>

definition Initialize ::
  "nat \<Rightarrow> (string option \<times> u64) list \<Rightarrow> (string \<Rightarrow> string option) \<Rightarrow> bool \<Rightarrow> string \<Rightarrow> so_list \<Rightarrow>
   (bool \<times> so_list) res option" where
  "Initialize fuel objects open_file mmap_ok m s =
     bind_o (Some (ElfImg objects open_file mmap_ok ''/linker'')) (\<lambda>linker.
     bind_o (getStaticPointer fuel linker m ''__dl__ZL6solist'') (\<lambda>(l, img1).
     bind_o (getStaticPointer fuel img1 m ''__dl__ZL6somain'') (\<lambda>(mn, img2).
       let s1 = s\<lparr>solist := l, somain := mn\<rparr> in
       if l = 0 \<or> mn = 0 then Some (Inr (False, s1))
       else
         bind_o (getSymbAddress fuel img2 ''__dl__ZNK6soinfo12get_realpathEv'') (\<lambda>(rp, img3).
         bind_o (getSymbAddress fuel img3 ''__dl__ZNK6soinfo10get_sonameEv'') (\<lambda>(sn, img4).
         bind_o (getStaticPointer fuel img4 m ''__dl__ZL4vdso'') (\<lambda>(vdso, img5).
         bind_o (Some (find_next_offset m l mn vdso [0..<128])) (\<lambda>off.
           Some (Inr (rp \<noteq> 0 \<and> sn \<noteq> 0,
             s1\<lparr>get_realpath_sym := rp, get_soname_sym := sn,
                solist_next_offset := (case off of None \<Rightarrow> solist_next_offset s1 | Some i \<Rightarrow> word_of_nat i)\<rparr>)))))))))"

section \<open>What a walk leaves\<close>

definition disj :: "nat \<Rightarrow> nat \<Rightarrow> nat \<Rightarrow> nat \<Rightarrow> bool" where
  "disj a la b lb \<longleftrightarrow> a + la \<le> b \<or> b + lb \<le> a"

definition put :: "string \<Rightarrow> nat \<Rightarrow> u64 \<Rightarrow> string" where
  "put m a v = take a m @ enc_u64 v @ drop (a + 8) m"

lemma length_put [simp]: "a + 8 \<le> length m \<Longrightarrow> length (put m a v) = length m"
  by (simp add: put_def)

lemma put_ptr_put: "a \<noteq> 0 \<Longrightarrow> unat a + 8 \<le> length m \<Longrightarrow> put_ptr m a v = Inr (put m (unat a) v)"
  by (simp add: put_ptr_def put_def)

lemma nth_put: "a + 8 \<le> length m \<Longrightarrow> i < a \<or> a + 8 \<le> i \<Longrightarrow> put m a v ! i = m ! i"
  by (auto simp: put_def nth_append)

lemma slice_put:
  assumes "a + 8 \<le> length m" and "disj a 8 off k"
  shows "take k (drop off (put m a v)) = take k (drop off m)"
proof (rule nth_equalityI)
  fix i assume "i < length (take k (drop off (put m a v)))"
  then have i: "i < k" "off + i < length m" using assms(1) by auto
  then have "off + i < a \<or> a + 8 \<le> off + i" using assms(2) by (auto simp: disj_def)
  from nth_put [OF assms(1) this] i assms(1) show "take k (drop off (put m a v)) ! i = take k (drop off m) ! i" by simp
qed (use assms(1) in simp)

lemma rd_put: "a + 8 \<le> length m \<Longrightarrow> disj a 8 off k \<Longrightarrow> rd k (put m a v) off = rd k m off"
  by (simp add: rd_def slice_put)

lemma c_str_slice: "NUL \<in> set xs \<Longrightarrow> take (Suc (length (c_str xs))) xs = c_str xs @ [NUL]"
  by (induction xs) (auto simp: c_str_def)

lemma c_str_of_slice:
  assumes "take (Suc n) xs = ys @ [NUL]" and "NUL \<notin> set ys"
  shows "c_str xs = ys \<and> NUL \<in> set xs"
proof -
  have "xs = (ys @ [NUL]) @ drop (Suc n) xs" using append_take_drop_id [of "Suc n" xs] unfolding assms(1) by simp
  then obtain zs where "xs = ys @ NUL # zs" by simp
  then show ?thesis using assms(2) by (simp add: c_str_no_nul)
qed

lemma cstr_put:
  assumes "a + 8 \<le> length m" and "cstr_at m off = Inr t" and "disj a 8 off (Suc (length t))"
  shows "cstr_at (put m a v) off = Inr t"
proof -
  have t: "NUL \<in> set (drop off m)" "t = c_str (drop off m)" using assms(2) by (auto simp: cstr_at_def split: if_splits)
  have "take (Suc (length t)) (drop off (put m a v)) = t @ [NUL]"
    unfolding slice_put [OF assms(1,3)] using c_str_slice [OF t(1)] t(2) by simp
  from c_str_of_slice [OF this] t(2) show ?thesis by (simp add: cstr_at_def)
qed

lemma nth_le_enc: "i < k \<Longrightarrow> le_enc k n ! i = char_of (n div 256 ^ i)"
proof (induction k arbitrary: n i)
  case (Suc k)
  then show ?case by (cases i) (simp_all add: div_mult2_eq)
qed simp

lemma nul_enc:
  assumes "v < 2 ^ 56"
  shows "NUL \<in> set (enc_u64 v)"
proof -
  have "unat v < 2 ^ 56" using assms by (simp add: word_less_nat_alt)
  then have "enc_u64 v ! 7 = NUL" by (simp add: enc_u64_def nth_le_enc char_of_def)
  moreover have "enc_u64 v ! 7 \<in> set (enc_u64 v)" by (rule nth_mem) simp
  ultimately show ?thesis by simp
qed

lemma c_str_append: "NUL \<in> set xs \<Longrightarrow> c_str (xs @ ys) = c_str xs \<and> length (c_str xs) < length xs"
  by (induction xs) (auto simp: c_str_def)

lemma cstr_at_put:
  assumes "a + 8 \<le> length m" and "v < 2 ^ 56"
  shows "\<exists>t. cstr_at (put m a v) a = Inr t \<and> length t < 8"
proof -
  have "drop a (put m a v) = enc_u64 v @ drop (a + 8) m" using assms(1) by (simp add: put_def)
  with nul_enc [OF assms(2)] c_str_append [OF nul_enc [OF assms(2)], of "drop (a + 8) m"] show ?thesis
    by (simp add: cstr_at_def)
qed

lemma find_sub_short: "length s < length d \<Longrightarrow> find_sub d s = None"
  using find_sub_Some [of d s] by (cases "find_sub d s") fastforce+

text \<open>Entries whose link fields and paths lie apart from each other.\<close>

abbreviation path_ptr :: "linker_fns \<Rightarrow> so_list \<Rightarrow> u64 \<Rightarrow> u64" where
  "path_ptr lk s n \<equiv> lk (get_realpath_sym s) n"

definition apart :: "linker_fns \<Rightarrow> so_list \<Rightarrow> u64 set \<Rightarrow> string \<Rightarrow> bool" where
  "apart lk s ns m \<longleftrightarrow>
     get_realpath_sym s \<noteq> 0 \<and> get_soname_sym s \<noteq> 0 \<and>
     (\<forall>n \<in> ns. n \<noteq> 0 \<and> lk (get_soname_sym s) n \<noteq> 0 \<and> path_ptr lk s n \<noteq> 0 \<and> unat (path_ptr lk s n) + 8 \<le> length m \<and>
        (\<exists>t. str_at m (path_ptr lk s n) = Inr t) \<and>
        (\<forall>n' \<in> ns. disj (unat (path_ptr lk s n)) 8 (unat (n' + solist_next_offset s)) 8 \<and>
           (\<forall>t. n' \<noteq> n \<longrightarrow> str_at m (path_ptr lk s n') = Inr t \<longrightarrow>
              disj (unat (path_ptr lk s n)) 8 (unat (path_ptr lk s n')) (Suc (length t)))))"

definition shows_target :: "linker_fns \<Rightarrow> so_list \<Rightarrow> string \<Rightarrow> string \<Rightarrow> u64 \<Rightarrow> bool" where
  "shows_target lk s target m n = (case str_at m (path_ptr lk s n) of Inl _ \<Rightarrow> False | Inr t \<Rightarrow> find_sub target t \<noteq> None)"

lemma matches_apart: "apart lk s ns m \<Longrightarrow> n \<in> ns \<Longrightarrow> matches lk s target m n = Inr (shows_target lk s target m n)"
  by (auto simp: matches_def apart_def get_name_def get_path_def shows_target_def split: sum.splits)

lemma disj_shorter: "disj a la b lb \<Longrightarrow> lb' \<le> lb \<Longrightarrow> disj a la b lb'"
  by (auto simp: disj_def)

lemma apart_shorter:
  assumes a: "apart lk s ns m" and l: "length m' = length m"
    and h: "\<forall>n' \<in> ns. \<exists>t. str_at m' (path_ptr lk s n') = Inr t \<and>
      (\<forall>t0. str_at m (path_ptr lk s n') = Inr t0 \<longrightarrow> length t \<le> length t0)"
  shows "apart lk s ns m'"
proof -
  have d: "disj (unat (path_ptr lk s n)) 8 (unat (path_ptr lk s n')) (Suc (length t))"
    if n: "n \<in> ns" "n' \<in> ns" "n' \<noteq> n" "str_at m' (path_ptr lk s n') = Inr t" for n n' t
  proof -
    obtain t0 where t0: "str_at m (path_ptr lk s n') = Inr t0" using a n(2) unfolding apart_def by blast
    then have "disj (unat (path_ptr lk s n)) 8 (unat (path_ptr lk s n')) (Suc (length t0))"
      using a n(1-3) unfolding apart_def by blast
    moreover have "length t \<le> length t0" using h n(2,4) t0 by fastforce
    ultimately show ?thesis using disj_shorter by simp
  qed
  have "\<exists>t. str_at m' (path_ptr lk s n) = Inr t" if "n \<in> ns" for n using h that by blast
  with a l d show ?thesis unfolding apart_def by simp
qed

lemma nullify_apart:
  assumes "apart lk s ns m" and "n \<in> ns" and "shows_target lk s target m n" and "length target \<ge> 8" and "v < 2 ^ 56"
  defines "m' \<equiv> put m (unat (path_ptr lk s n)) v"
  shows "nullify_path lk s v m n = Inr m'" and "apart lk s ns m'" and "\<not> shows_target lk s target m' n"
    and "\<forall>n' \<in> ns. get_next s m' n' = get_next s m n'"
    and "\<forall>n' \<in> ns - {n}. str_at m' (path_ptr lk s n') = str_at m (path_ptr lk s n')"
proof -
  let ?p = "unat (path_ptr lk s n)"
  have p: "path_ptr lk s n \<noteq> 0" "?p + 8 \<le> length m" "get_realpath_sym s \<noteq> 0"
    using assms(1,2) by (auto simp: apart_def)
  show "nullify_path lk s v m n = Inr m'" using p by (simp add: nullify_path_def put_ptr_put m'_def)
  obtain t where t: "str_at m' (path_ptr lk s n) = Inr t" "length t < 8"
    using cstr_at_put [OF p(2) assms(5)] p(1) by (auto simp: str_at_def m'_def)
  then show "\<not> shows_target lk s target m' n" using assms(4) find_sub_short [of t target] by (simp add: shows_target_def)
  show "\<forall>n' \<in> ns. get_next s m' n' = get_next s m n'"
    using assms(1,2) p(2) by (auto simp: get_next_def ptr_at_def apart_def m'_def intro!: arg_cong [where f = "\<lambda>x. bind_r x _"] rd_put)
  show other: "\<forall>n' \<in> ns - {n}. str_at m' (path_ptr lk s n') = str_at m (path_ptr lk s n')"
  proof
    fix n' assume n': "n' \<in> ns - {n}"
    then obtain u where u: "str_at m (path_ptr lk s n') = Inr u" "path_ptr lk s n' \<noteq> 0"
      using assms(1) by (auto simp: apart_def)
    then have "disj ?p 8 (unat (path_ptr lk s n')) (Suc (length u))" using assms(1,2) n' by (auto simp: apart_def)
    with cstr_put [OF p(2)] u show "str_at m' (path_ptr lk s n') = str_at m (path_ptr lk s n')"
      by (simp add: str_at_def m'_def)
  qed
  obtain u where u: "str_at m (path_ptr lk s n) = Inr u" "length u \<ge> length target"
    using assms(3) find_sub_Some [of target] by (fastforce simp: shows_target_def split: sum.splits)
  have "apart lk s ns m'" if h: "\<forall>n' \<in> ns. \<exists>t. str_at m' (path_ptr lk s n') = Inr t \<and>
      (\<forall>t0. str_at m (path_ptr lk s n') = Inr t0 \<longrightarrow> length t \<le> length t0)"
    by (rule apart_shorter [OF assms(1) _ h]) (use p(2) in \<open>simp add: m'_def\<close>)
  moreover have "\<exists>t. str_at m' (path_ptr lk s n') = Inr t \<and>
      (\<forall>t0. str_at m (path_ptr lk s n') = Inr t0 \<longrightarrow> length t \<le> length t0)" if "n' \<in> ns" for n'
  proof (cases "n' = n")
    case True
    then show ?thesis using t u assms(4) by auto
  next
    case False
    then show ?thesis using other that assms(1) by (auto simp: apart_def)
  qed
  ultimately show "apart lk s ns m'" by blast
qed

fun so_chain :: "so_list \<Rightarrow> string \<Rightarrow> u64 \<Rightarrow> u64 list \<Rightarrow> bool" where
  "so_chain s m a [] \<longleftrightarrow> a = 0"
| "so_chain s m a (n # ns) \<longleftrightarrow> a = n \<and> n \<noteq> 0 \<and> (case get_next s m n of Inl _ \<Rightarrow> False | Inr b \<Rightarrow> so_chain s m b ns)"

lemma so_chain_cong: "\<forall>n \<in> set ns. get_next s m' n = get_next s m n \<Longrightarrow> so_chain s m' a ns = so_chain s m a ns"
  by (induction ns arbitrary: a) (auto split: sum.splits)

lemma walk_hides:
  assumes "apart lk s all m" and "so_chain s m a ns" and "set ns \<subseteq> all" and "fuel > length ns"
    and "length target \<ge> 8" and "v < 2 ^ 56" and "distinct ns"
  shows "\<exists>m'. nullify_walk False fuel lk s v target m a = Some (Inr m') \<and> apart lk s all m' \<and>
    (\<forall>n \<in> all. get_next s m' n = get_next s m n) \<and> (\<forall>n \<in> set ns. \<not> shows_target lk s target m' n) \<and>
    (\<forall>n \<in> all - set ns. str_at m' (path_ptr lk s n) = str_at m (path_ptr lk s n))"
  using assms(1-4,7)
proof (induction ns arbitrary: m a fuel)
  case Nil
  then show ?case by (cases fuel) auto
next
  case (Cons n ns)
  obtain k where k: "fuel = Suc k" "k > length ns" using Cons.prems(4) by (cases fuel) auto
  obtain b where b: "a = n" "n \<noteq> 0" "get_next s m n = Inr b" "so_chain s m b ns"
    using Cons.prems(2) by (auto split: sum.splits)
  have n: "n \<in> all" "n \<notin> set ns" "set ns \<subseteq> all" "distinct ns" using Cons.prems(3,5) by auto
  define m1 where "m1 = (if shows_target lk s target m n then put m (unat (path_ptr lk s n)) v else m)"
  note nul = nullify_apart [OF Cons.prems(1) n(1) _ assms(5,6)]
  have m1: "apart lk s all m1" "\<not> shows_target lk s target m1 n" "\<forall>n' \<in> all. get_next s m1 n' = get_next s m n'"
    "\<forall>n' \<in> all - {n}. str_at m1 (path_ptr lk s n') = str_at m (path_ptr lk s n')"
    using nul(2-5) Cons.prems(1) by (auto simp: m1_def)
  have "so_chain s m1 b ns" using b(4) so_chain_cong [of ns s m1 m b] m1(3) n(3) by blast
  from Cons.IH [OF m1(1) this n(3) k(2) n(4)] obtain m' where
    m': "nullify_walk False k lk s v target m1 b = Some (Inr m')" "apart lk s all m'"
      "\<forall>n \<in> all. get_next s m' n = get_next s m1 n" "\<forall>n \<in> set ns. \<not> shows_target lk s target m' n"
      "\<forall>n \<in> all - set ns. str_at m' (path_ptr lk s n) = str_at m1 (path_ptr lk s n)" by blast
  have "nullify_walk False fuel lk s v target m a = nullify_walk False k lk s v target m1 b"
    using k b matches_apart [OF Cons.prems(1) n(1), of target] nul(1) m1(3) n(1) by (auto simp: m1_def)
  moreover have "\<not> shows_target lk s target m' n"
    using m1(2) m'(5) n(1,2) by (simp add: shows_target_def)
  ultimately show ?case using m' m1(3,4) n(2) by (intro exI [of _ m']) auto
qed

lemma walk_no_hit:
  assumes "apart lk s all m" and "so_chain s m a ns" and "set ns \<subseteq> all" and "fuel > length ns"
    and "\<forall>n \<in> set ns. \<not> shows_target lk s target m n"
  shows "nullify_walk once fuel lk s v target m a = Some (Inr m)"
  using assms(2-5)
proof (induction ns arbitrary: a fuel)
  case Nil
  then show ?case by (cases fuel) auto
next
  case (Cons n ns)
  obtain k where k: "fuel = Suc k" "k > length ns" using Cons.prems(3) by (cases fuel) auto
  obtain b where b: "a = n" "n \<noteq> 0" "get_next s m n = Inr b" "so_chain s m b ns"
    using Cons.prems(1) by (auto split: sum.splits)
  have "matches lk s target m n = Inr False"
    using matches_apart [OF assms(1), of n target] Cons.prems(2,4) by simp
  with k b Cons.IH [OF b(4) _ k(2)] Cons.prems(2,4) show ?case by simp
qed

text \<open>Clearing a name in the linker's list goes through every entry and ends, and afterwards no entry's path shows
  the name any more: the address that is stored over the start of the text has a NUL among its bytes.  The links of
  the list are as before.\<close>

lemma NullifySoName_hides:
  assumes "apart lk s (set ns) m" and "so_chain s m (solist s) ns" and "distinct ns" and "so_chain s m (somain s) ms"
    and "set ms \<subseteq> set ns" and "fuel > length ns" and "fuel > length ms" and "length target \<ge> 8" and "v < 2 ^ 56"
  shows "\<exists>m'. NullifySoName fuel lk s v target m = Some (Inr m') \<and> so_chain s m' (solist s) ns \<and>
    list_all (\<lambda>n. \<not> shows_target lk s target m' n) ns"
proof -
  obtain m' where m': "nullify_walk False fuel lk s v target m (solist s) = Some (Inr m')" "apart lk s (set ns) m'"
      "\<forall>n \<in> set ns. get_next s m' n = get_next s m n" "\<forall>n \<in> set ns. \<not> shows_target lk s target m' n"
    using walk_hides [OF assms(1,2) _ assms(6,8,9,3)] by blast
  have "so_chain s m' (somain s) ms" using assms(4,5) so_chain_cong [of ms s m' m] m'(3) by blast
  with m'(4) assms(5) have "nullify_walk True fuel lk s v target m' (somain s) = Some (Inr m')"
    by (intro walk_no_hit [OF m'(2) _ assms(5,7)]) auto
  moreover have "so_chain s m' (solist s) ns" using assms(2) so_chain_cong [of ns s m' m] m'(3) by blast
  ultimately show ?thesis using m'(1,4) by (simp add: NullifySoName_def list_all_iff)
qed

definition sample_mem :: string where
  "sample_mem = replicate 16 NUL @ ''/jit-cache-zygisk'' @ [NUL]"

definition sample_so :: so_list where
  "sample_so = \<lparr>solist = 8, somain = 8, solist_next_offset = 0, get_realpath_sym = 1, get_soname_sym = 2\<rparr>"

lemma NullifySoName_hides_witness:
  "shows_target (\<lambda>_ _. 16) sample_so ''jit-cache'' sample_mem 8 \<and>
   (\<exists>m'. NullifySoName 2 (\<lambda>_ _. 16) sample_so 0x7000 ''jit-cache'' sample_mem = Some (Inr m') \<and>
      \<not> shows_target (\<lambda>_ _. 16) sample_so ''jit-cache'' m' 8)"
proof -
  have t: "str_at sample_mem 16 = Inr ''/jit-cache-zygisk''" "length sample_mem = 34" "get_next sample_so sample_mem 8 = Inr 0"
    "find_sub ''jit-cache'' ''/jit-cache-zygisk'' \<noteq> None"
    by code_simp+
  have "apart (\<lambda>_ _. 16) sample_so (set [8]) sample_mem"
    using t(1,2) by (simp add: apart_def sample_so_def disj_def)
  moreover have "so_chain sample_so sample_mem 8 [8]" using t(3) by simp
  moreover have "shows_target (\<lambda>_ _. 16) sample_so ''jit-cache'' sample_mem 8" using t by (simp add: shows_target_def)
  ultimately show ?thesis
    using NullifySoName_hides [of "\<lambda>_ _. 16" sample_so "[8]" sample_mem "[8]" "2" "''jit-cache''" "0x7000"]
    by (auto simp: sample_so_def)
qed

end
