(* ===== verification/Jni_Helper.thy ===== *)
theory Jni_Helper
  imports Zygisk_Prelude "HOL-Library.Multiset"
begin

text \<open>
  The helpers around \<open>JNIEnv\<close> of \<open>loader/src/injector/jni_helper.hpp\<close>: the owners of references and buffers, the
  call that clears and reports a Java exception, and one wrapper per function of \<open>JNIEnv\<close>.

  The virtual machine is a parameter: what a call answers, and whether it throws, is a function of the calls made
  before it.  The state is the history of these calls and log messages; which references are live and whether an
  exception is pending is read off the history.  All code of one run works on one \<open>JNIEnv\<close>, so the field
  \<open>env_\<close> of the owners is left out, except where it may be null.
\<close>

section \<open>The environment\<close>

datatype jtype = T_Object | T_Boolean | T_Byte | T_Char | T_Short | T_Int | T_Long | T_Float | T_Double

text \<open>The functions of \<open>JNIEnv\<close> in use; a \<open>Call\<close> function without a type is the \<open>void\<close> one.\<close>

datatype env_fn =
    Env_FindClass | Env_GetObjectClass
  | Env_GetFieldID | Env_GetField jtype | Env_SetField jtype
  | Env_GetStaticFieldID | Env_GetStaticField jtype | Env_SetStaticField jtype
  | Env_ToReflectedMethod | Env_FromReflectedMethod | Env_GetMethodID | Env_CallMethod "jtype option"
  | Env_GetStaticMethodID | Env_CallStaticMethod "jtype option" | Env_CallNonvirtualMethod "jtype option"
  | Env_NewObject | Env_NewDirectByteBuffer | Env_RegisterNatives | Env_IsInstanceOf
  | Env_NewGlobalRef | Env_DeleteLocalRef | Env_PushLocalFrame | Env_PopLocalFrame
  | Env_MonitorEnter | Env_MonitorExit | Env_ExceptionOccurred | Env_ExceptionClear
  | Env_NewStringUTF | Env_GetStringUTFChars | Env_ReleaseStringUTFChars
  | Env_GetArrayLength | Env_GetObjectArrayElement | Env_SetObjectArrayElement
  | Env_GetArrayElements jtype | Env_ReleaseArrayElements jtype | Env_NewArray jtype

text \<open>Values: references, method and field ids (0 is null), numbers, C strings, and buffers with their address
  (0 is null) and contents.\<close>

datatype jval =
    J_void | J_ref nat | J_id nat | J_num int | J_text string | J_chars nat string | J_buf nat "jval list"

datatype jevent = Call env_fn "jval list" jval bool | Log string

type_synonym vm = "jevent list \<Rightarrow> env_fn \<Rightarrow> jval list \<Rightarrow> jval \<times> bool"

text \<open>The state of a run, with the two static variables of \<open>ClearException\<close>.\<close>

record jstate =
  j_hist :: "jevent list"
  j_static :: "(nat \<times> nat) option"

definition jcall :: "vm \<Rightarrow> env_fn \<Rightarrow> jval list \<Rightarrow> jstate \<Rightarrow> jval \<times> jstate" where
  "jcall vm f args st =
     (case vm (j_hist st) f args of (v, thrown) \<Rightarrow> (v, st\<lparr>j_hist := j_hist st @ [Call f args v thrown]\<rparr>))"

definition jdo :: "vm \<Rightarrow> env_fn \<Rightarrow> jval list \<Rightarrow> jstate \<Rightarrow> jstate" where
  "jdo vm f args st = snd (jcall vm f args st)"

definition jlog :: "string \<Rightarrow> jstate \<Rightarrow> jstate" where
  "jlog s st = st\<lparr>j_hist := j_hist st @ [Log s]\<rparr>"

fun as_ref :: "jval \<Rightarrow> nat" where
  "as_ref (J_ref r) = r"
| "as_ref _ = 0"

fun as_id :: "jval \<Rightarrow> nat" where
  "as_id (J_id i) = i"
| "as_id _ = 0"

fun as_num :: "jval \<Rightarrow> int" where
  "as_num (J_num n) = n"
| "as_num _ = 0"

section \<open>Owners of a reference\<close>

record scoped_ref =
  local_ref :: nat

definition reset :: "vm \<Rightarrow> nat \<Rightarrow> scoped_ref \<Rightarrow> jstate \<Rightarrow> scoped_ref \<times> jstate" where
  "reset vm ptr s st =
     (if ptr \<noteq> local_ref s
      then (s\<lparr>local_ref := ptr\<rparr>,
            if local_ref s \<noteq> 0 then jdo vm Env_DeleteLocalRef [J_ref (local_ref s)] st else st)
      else (s, st))"

definition release :: "scoped_ref \<Rightarrow> nat \<times> scoped_ref" where
  "release s = (local_ref s, s\<lparr>local_ref := 0\<rparr>)"

definition ScopedLocalRef :: "vm \<Rightarrow> nat \<Rightarrow> jstate \<Rightarrow> scoped_ref \<times> jstate" where
  "ScopedLocalRef vm r st = reset vm r \<lparr>local_ref = 0\<rparr> st"

text \<open>The new object, and the one it was moved from.\<close>

definition move_ScopedLocalRef :: "vm \<Rightarrow> scoped_ref \<Rightarrow> jstate \<Rightarrow> scoped_ref \<times> scoped_ref \<times> jstate" where
  "move_ScopedLocalRef vm s st =
     (case release s of (r, s') \<Rightarrow> case ScopedLocalRef vm r st of (n, st1) \<Rightarrow> (n, s', st1))"

definition destroy_ScopedLocalRef :: "vm \<Rightarrow> scoped_ref \<Rightarrow> jstate \<Rightarrow> scoped_ref \<times> jstate" where
  "destroy_ScopedLocalRef vm s st = reset vm 0 s st"

text \<open>\<open>ref = std::move(s)\<close> for two different objects, and for one assigned to itself.\<close>

definition assign_ScopedLocalRef ::
  "vm \<Rightarrow> scoped_ref \<Rightarrow> scoped_ref \<Rightarrow> jstate \<Rightarrow> scoped_ref \<times> scoped_ref \<times> jstate" where
  "assign_ScopedLocalRef vm d s st =
     (case release s of (r, s') \<Rightarrow> case reset vm r d st of (d', st1) \<Rightarrow> (d', s', st1))"

definition self_assign_ScopedLocalRef :: "vm \<Rightarrow> scoped_ref \<Rightarrow> jstate \<Rightarrow> scoped_ref \<times> jstate" where
  "self_assign_ScopedLocalRef vm s st = (case release s of (r, s') \<Rightarrow> reset vm r s' st)"

definition JNIScopeFrame :: "vm \<Rightarrow> int \<Rightarrow> (jstate \<Rightarrow> jstate) \<Rightarrow> jstate \<Rightarrow> jstate" where
  "JNIScopeFrame vm n body st =
     jdo vm Env_PopLocalFrame [J_ref 0] (body (jdo vm Env_PushLocalFrame [J_num n] st))"

definition JNIMonitor :: "vm \<Rightarrow> nat \<Rightarrow> (jstate \<Rightarrow> jstate) \<Rightarrow> jstate \<Rightarrow> jstate" where
  "JNIMonitor vm obj body st =
     jdo vm Env_MonitorExit [J_ref obj] (body (jdo vm Env_MonitorEnter [J_ref obj] st))"

section \<open>Exceptions and texts\<close>

definition log_class :: string where "log_class = ''android/util/Log''"

text \<open>The static variables are set when control first passes them.\<close>

definition log_statics :: "vm \<Rightarrow> jstate \<Rightarrow> (nat \<times> nat) \<times> jstate" where
  "log_statics vm st =
     (case j_static st of
        Some p \<Rightarrow> (p, st)
      | None \<Rightarrow>
          (case jcall vm Env_FindClass [J_text log_class] st of (c, st1) \<Rightarrow>
           case jcall vm Env_NewGlobalRef [c] st1 of (g, st2) \<Rightarrow>
           case jcall vm Env_GetStaticMethodID
               [J_ref (as_ref g), J_text ''getStackTraceString'', J_text ''(Ljava/lang/Throwable;)Ljava/lang/String;''] st2 of
             (m, st3) \<Rightarrow> ((as_ref g, as_id m), st3\<lparr>j_static := Some (as_ref g, as_id m)\<rparr>)))"

definition ClearException :: "vm \<Rightarrow> jstate \<Rightarrow> scoped_ref \<times> jstate" where
  "ClearException vm st =
     (case jcall vm Env_ExceptionOccurred [] st of (e, st1) \<Rightarrow>
        if as_ref e \<noteq> 0
        then (case log_statics vm (jdo vm Env_ExceptionClear [] st1) of ((log, toString), st2) \<Rightarrow>
              case jcall vm (Env_CallStaticMethod (Some T_Object)) [J_ref log, J_id toString, e] st2 of (str, st3) \<Rightarrow>
                ScopedLocalRef vm (as_ref str) (jdo vm Env_DeleteLocalRef [e] st3))
        else ScopedLocalRef vm 0 st1)"

record jutf_string =
  u_env :: bool                  \<comment> \<open>\<open>env_\<close> is not null\<close>
  u_jstr :: nat
  u_cstr :: "nat \<times> string"      \<comment> \<open>address, 0 for null, and text\<close>

fun as_chars :: "jval \<Rightarrow> nat \<times> string" where
  "as_chars (J_chars p s) = (p, s)"
| "as_chars _ = (0, [])"

definition JUTFString :: "vm \<Rightarrow> bool \<Rightarrow> nat \<Rightarrow> nat \<times> string \<Rightarrow> jstate \<Rightarrow> jutf_string \<times> jstate" where
  "JUTFString vm env jstr dflt st =
     (if env \<and> jstr \<noteq> 0
      then (case jcall vm Env_GetStringUTFChars [J_ref jstr] st of (c, st1) \<Rightarrow>
              (\<lparr>u_env = env, u_jstr = jstr, u_cstr = as_chars c\<rparr>, st1))
      else (\<lparr>u_env = env, u_jstr = jstr, u_cstr = dflt\<rparr>, st))"

definition destroy_JUTFString :: "vm \<Rightarrow> jutf_string \<Rightarrow> jstate \<Rightarrow> jstate" where
  "destroy_JUTFString vm u st =
     (if u_env u \<and> u_jstr u \<noteq> 0
      then jdo vm Env_ReleaseStringUTFChars [J_ref (u_jstr u), J_chars (fst (u_cstr u)) (snd (u_cstr u))] st
      else st)"

text \<open>Moving copies the first two members (\<open>std::move\<close> of a pointer) and clears only the last one of the source.\<close>

definition move_JUTFString :: "jutf_string \<Rightarrow> jutf_string \<times> jutf_string" where
  "move_JUTFString x = (x, x\<lparr>u_cstr := (0, [])\<rparr>)"

definition assign_JUTFString :: "jutf_string \<Rightarrow> jutf_string \<Rightarrow> jutf_string \<times> jutf_string" where
  "assign_JUTFString d x = (x, x\<lparr>u_cstr := (0, [])\<rparr>)"

definition JUTFString_string :: "jutf_string \<Rightarrow> string res" where
  "JUTFString_string u = (if fst (u_cstr u) = 0 then Inl Null_Deref else Inr (snd (u_cstr u)))"

definition printed :: "nat \<times> string \<Rightarrow> string" where
  "printed p = (if fst p = 0 then ''(null)'' else snd p)"

text \<open>The destructor of \<open>finally\<close> in \<open>JNI_SafeInvoke\<close>.\<close>

definition finally_clear :: "vm \<Rightarrow> jstate \<Rightarrow> jstate" where
  "finally_clear vm st =
     (case ClearException vm st of (exc, st1) \<Rightarrow>
        if local_ref exc \<noteq> 0
        then (case JUTFString vm True (local_ref exc) (0, []) st1 of (u, st2) \<Rightarrow>
                snd (destroy_ScopedLocalRef vm exc (destroy_JUTFString vm u (jlog (printed (u_cstr u)) st2))))
        else snd (destroy_ScopedLocalRef vm exc st1))"

section \<open>Arrays\<close>

text \<open>The elements of an array as the helper holds them: owners of references, or a buffer of the environment.\<close>

datatype elements = E_null | E_objs "scoped_ref list" | E_prim nat "jval list"

text \<open>\<open>ar_size\<close> is \<open>None\<close> while \<open>size_\<close> has not been initialised.\<close>

record array_ref =
  ar_type :: jtype
  ar_ref :: nat
  ar_size :: "nat option"
  ar_elems :: elements
  ar_modified :: bool

datatype jarg = A_scoped scoped_ref | A_array array_ref | A_view string string | A_raw jval

text \<open>A \<open>string_view\<close> is its text and the bytes behind it in memory; the callee reads up to the first NUL.\<close>

fun UnwrapScope :: "jarg \<Rightarrow> jval" where
  "UnwrapScope (A_view sv rest) = J_text (c_str (sv @ rest))"
| "UnwrapScope (A_scoped s) = J_ref (local_ref s)"
| "UnwrapScope (A_array a) = J_ref (ar_ref a)"
| "UnwrapScope (A_raw v) = v"

text \<open>\<open>JNI_SafeInvoke\<close> where the result is not an array.\<close>

definition invoke_value :: "vm \<Rightarrow> env_fn \<Rightarrow> jarg list \<Rightarrow> jstate \<Rightarrow> jval \<times> jstate" where
  "invoke_value vm f args st =
     (case jcall vm f (map UnwrapScope args) st of (v, st1) \<Rightarrow> (v, finally_clear vm st1))"

definition JNI_OK_mode :: int where "JNI_OK_mode = 0"
definition JNI_COMMIT :: int where "JNI_COMMIT = 1"
definition JNI_ABORT :: int where "JNI_ABORT = 2"

definition n_elems :: "array_ref \<Rightarrow> nat" where
  "n_elems a = (case ar_size a of None \<Rightarrow> 0 | Some n \<Rightarrow> n)"

fun set_elements :: "vm \<Rightarrow> nat \<Rightarrow> nat \<Rightarrow> scoped_ref list \<Rightarrow> jstate \<Rightarrow> jstate" where
  "set_elements vm arr i [] st = st"
| "set_elements vm arr i (e # es) st =
     set_elements vm arr (i + 1) es
       (snd (invoke_value vm Env_SetObjectArrayElement [A_raw (J_ref arr), A_raw (J_num (int i)), A_scoped e] st))"

definition ReleaseElements :: "vm \<Rightarrow> int \<Rightarrow> array_ref \<Rightarrow> jstate \<Rightarrow> jstate" where
  "ReleaseElements vm mode a st =
     (if ar_ref a = 0 then st
      else case ar_elems a of
             E_null \<Rightarrow> st
           | E_objs es \<Rightarrow> set_elements vm (ar_ref a) 0 (take (n_elems a) es) st
           | E_prim p vs \<Rightarrow> jdo vm (Env_ReleaseArrayElements (ar_type a)) [J_ref (ar_ref a), J_buf p vs, J_num mode] st)"

definition release_mode :: "array_ref \<Rightarrow> int" where
  "release_mode a = (if ar_modified a then JNI_OK_mode else JNI_ABORT)"

fun destroy_elements :: "vm \<Rightarrow> scoped_ref list \<Rightarrow> jstate \<Rightarrow> jstate" where
  "destroy_elements vm [] st = st"
| "destroy_elements vm (e # es) st = destroy_elements vm es (snd (destroy_ScopedLocalRef vm e st))"

definition drop_elements :: "vm \<Rightarrow> array_ref \<Rightarrow> jstate \<Rightarrow> jstate" where
  "drop_elements vm a st =
     (case ar_elems a of E_objs es \<Rightarrow> destroy_elements vm (take (n_elems a) es) st | _ \<Rightarrow> st)"

fun get_elements :: "vm \<Rightarrow> nat \<Rightarrow> nat \<Rightarrow> nat \<Rightarrow> jstate \<Rightarrow> scoped_ref list \<times> jstate" where
  "get_elements vm arr i 0 st = ([], st)"
| "get_elements vm arr i (Suc n) st =
     (case invoke_value vm Env_GetObjectArrayElement [A_raw (J_ref arr), A_raw (J_num (int i))] st of (v, st1) \<Rightarrow>
      case ScopedLocalRef vm (as_ref v) st1 of (e, st2) \<Rightarrow>
      case get_elements vm arr (i + 1) n st2 of (es, st3) \<Rightarrow> (e # es, st3))"

fun as_buf :: "jval \<Rightarrow> elements" where
  "as_buf (J_buf p vs) = (if p = 0 then E_null else E_prim p vs)"
| "as_buf _ = E_null"

definition reset_array :: "vm \<Rightarrow> nat \<Rightarrow> array_ref \<Rightarrow> jstate \<Rightarrow> array_ref \<times> jstate" where
  "reset_array vm ptr a st =
     (if ptr = ar_ref a then (a, st)
      else
        (let st1 = (if ar_ref a \<noteq> 0
                    then drop_elements vm a
                      (jdo vm Env_DeleteLocalRef [J_ref (ar_ref a)] (ReleaseElements vm (release_mode a) a st))
                    else st);
             a1 = (if ar_ref a \<noteq> 0 then a\<lparr>ar_elems := E_null, ar_ref := ptr\<rparr> else a\<lparr>ar_ref := ptr\<rparr>)
         in if ptr = 0 then (a1\<lparr>ar_size := Some 0\<rparr>, st1)
            else
              (case jcall vm Env_GetArrayLength [J_ref ptr] st1 of (len, st2) \<Rightarrow>
                 let a2 = a1\<lparr>ar_size := Some (nat (as_num len))\<rparr>
                 in if ar_type a = T_Object
                    then (case get_elements vm ptr 0 (nat (as_num len)) st2 of (es, st3) \<Rightarrow>
                            (a2\<lparr>ar_elems := E_objs es\<rparr>, st3))
                    else (case jcall vm (Env_GetArrayElements (ar_type a)) [J_ref ptr] st2 of (b, st3) \<Rightarrow>
                            (a2\<lparr>ar_elems := as_buf b\<rparr>, st3)))))"

definition blank_array :: "jtype \<Rightarrow> array_ref" where
  "blank_array t = \<lparr>ar_type = t, ar_ref = 0, ar_size = None, ar_elems = E_null, ar_modified = False\<rparr>"

definition ScopedLocalRef_array :: "vm \<Rightarrow> jtype \<Rightarrow> nat \<Rightarrow> jstate \<Rightarrow> array_ref \<times> jstate" where
  "ScopedLocalRef_array vm t r st = reset_array vm r (blank_array t) st"

text \<open>\<open>release\<close>: the members are cleared before the elements are given back.\<close>

definition release_array :: "vm \<Rightarrow> array_ref \<Rightarrow> jstate \<Rightarrow> nat \<times> array_ref \<times> jstate" where
  "release_array vm a st =
     (let localRef = ar_ref a;
          a1 = a\<lparr>ar_size := Some 0, ar_ref := 0\<rparr>;
          st1 = ReleaseElements vm (release_mode a1) a1 st;
          st2 = drop_elements vm a1 st1
      in (localRef, a1\<lparr>ar_elems := E_null\<rparr>, st2))"

definition destroy_array :: "vm \<Rightarrow> array_ref \<Rightarrow> jstate \<Rightarrow> jstate" where
  "destroy_array vm a st = (case release_array vm a st of (r, _, st1) \<Rightarrow> jdo vm Env_DeleteLocalRef [J_ref r] st1)"

definition cleared :: "array_ref \<Rightarrow> array_ref" where
  "cleared a = a\<lparr>ar_ref := 0, ar_size := Some 0, ar_elems := E_null, ar_modified := False\<rparr>"

definition move_array :: "array_ref \<Rightarrow> array_ref \<times> array_ref" where
  "move_array s = (s, cleared s)"

definition array_of_scoped :: "vm \<Rightarrow> jtype \<Rightarrow> scoped_ref \<Rightarrow> jstate \<Rightarrow> array_ref \<times> scoped_ref \<times> jstate" where
  "array_of_scoped vm t s st =
     (case release s of (r, s') \<Rightarrow> case ScopedLocalRef_array vm t r st of (a, st1) \<Rightarrow> (a, s', st1))"

text \<open>The assignment overwrites the members of its target, whatever they held.\<close>

definition assign_array :: "array_ref \<Rightarrow> array_ref \<Rightarrow> array_ref \<times> array_ref" where
  "assign_array d s = (s, cleared s)"

definition commit :: "vm \<Rightarrow> array_ref \<Rightarrow> jstate \<Rightarrow> array_ref \<times> jstate" where
  "commit vm a st = (a\<lparr>ar_modified := False\<rparr>, ReleaseElements vm JNI_COMMIT a st)"

definition array_size :: "array_ref \<Rightarrow> nat res" where
  "array_size a = (case ar_size a of None \<Rightarrow> Inl Uninit_Read | Some n \<Rightarrow> Inr n)"

text \<open>An element is an owner or a value.\<close>

definition elem_at :: "elements \<Rightarrow> nat \<Rightarrow> jval res" where
  "elem_at es i =
     (case es of
        E_null \<Rightarrow> Inl Null_Deref
      | E_objs rs \<Rightarrow> if i < length rs then Inr (J_ref (local_ref (rs ! i))) else Inl Out_Of_Bounds
      | E_prim _ vs \<Rightarrow> if i < length vs then Inr (vs ! i) else Inl Out_Of_Bounds)"

definition array_at :: "nat \<Rightarrow> array_ref \<Rightarrow> jval res \<times> array_ref" where
  "array_at i a = (elem_at (ar_elems a) i, a\<lparr>ar_modified := True\<rparr>)"

definition array_at_const :: "nat \<Rightarrow> array_ref \<Rightarrow> jval res" where
  "array_at_const i a = elem_at (ar_elems a) i"

text \<open>Writing through the reference that \<open>operator[]\<close> of an array of numbers returns.\<close>

definition array_put :: "nat \<Rightarrow> jval \<Rightarrow> array_ref \<Rightarrow> array_ref res" where
  "array_put i v a =
     (case array_at i a of
        (Inl e, _) \<Rightarrow> Inl e
      | (Inr _, a1) \<Rightarrow>
          Inr (case ar_elems a1 of E_prim p vs \<Rightarrow> a1\<lparr>ar_elems := E_prim p (vs[i := v])\<rparr> | _ \<Rightarrow> a1))"

subsection \<open>Iterators\<close>

text \<open>An iterator is a pointer to an element, here the offset from \<open>elements_\<close>.\<close>

definition it_begin :: "array_ref \<Rightarrow> int \<times> array_ref" where
  "it_begin a = (0, a\<lparr>ar_modified := True\<rparr>)"

definition it_end :: "array_ref \<Rightarrow> int res \<times> array_ref" where
  "it_end a = (bind_r (array_size a) (\<lambda>n. Inr (int n)), a\<lparr>ar_modified := True\<rparr>)"

definition it_cbegin :: "array_ref \<Rightarrow> int" where "it_cbegin a = 0"

definition it_cend :: "array_ref \<Rightarrow> int res" where
  "it_cend a = bind_r (array_size a) (\<lambda>n. Inr (int n))"

definition it_next :: "int \<Rightarrow> int" where "it_next e = e + 1"
definition it_prev :: "int \<Rightarrow> int" where "it_prev e = e - 1"

definition it_deref :: "array_ref \<Rightarrow> int \<Rightarrow> jval res" where
  "it_deref a e = (if e < 0 then Inl Out_Of_Bounds else elem_at (ar_elems a) (nat e))"

text \<open>\<open>for (auto &x : array)\<close> with at most \<open>fuel\<close> turns: the elements it visits.\<close>

fun it_visit :: "nat \<Rightarrow> array_ref \<Rightarrow> int \<Rightarrow> int \<Rightarrow> jval list res option" where
  "it_visit 0 a e fin = (if e = fin then Some (Inr []) else None)"
| "it_visit (Suc k) a e fin =
     (if e = fin then Some (Inr [])
      else case it_deref a e of
             Inl x \<Rightarrow> Some (Inl x)
           | Inr v \<Rightarrow> map_option (\<lambda>r. bind_r r (\<lambda>vs. Inr (v # vs))) (it_visit k a (it_next e) fin))"

end
