(* ===== verification/Jni_Calls.thy ===== *)
theory Jni_Calls
  imports Jni_Helper
begin

text \<open>
  The calls of \<open>loader/src/injector/jni_helper.hpp\<close>: \<open>JNI_SafeInvoke\<close> and the wrappers over it, one definition
  per family of wrappers that differ in a type only.
\<close>

section \<open>Invoking\<close>

datatype wrapped = W_scoped scoped_ref | W_array array_ref | W_raw jval

datatype result_kind = K_object | K_array jtype | K_value

text \<open>The type of the result of a function of \<open>JNIEnv\<close>.\<close>

fun result_of :: "env_fn \<Rightarrow> result_kind" where
  "result_of (Env_NewArray t) = K_array t"
| "result_of (Env_GetField t) = (if t = T_Object then K_object else K_value)"
| "result_of (Env_GetStaticField t) = (if t = T_Object then K_object else K_value)"
| "result_of (Env_CallMethod t) = (if t = Some T_Object then K_object else K_value)"
| "result_of (Env_CallStaticMethod t) = (if t = Some T_Object then K_object else K_value)"
| "result_of (Env_CallNonvirtualMethod t) = (if t = Some T_Object then K_object else K_value)"
| "result_of f =
     (if f \<in> {Env_FindClass, Env_GetObjectClass, Env_ToReflectedMethod, Env_NewObject, Env_NewDirectByteBuffer,
              Env_NewGlobalRef, Env_ExceptionOccurred, Env_NewStringUTF, Env_GetObjectArrayElement,
              Env_PopLocalFrame}
      then K_object else K_value)"

definition WrapScope :: "vm \<Rightarrow> result_kind \<Rightarrow> jval \<Rightarrow> jstate \<Rightarrow> wrapped \<times> jstate" where
  "WrapScope vm k v st =
     (case k of
        K_object \<Rightarrow> (case ScopedLocalRef vm (as_ref v) st of (s, st1) \<Rightarrow> (W_scoped s, st1))
      | K_array t \<Rightarrow> (case ScopedLocalRef_array vm t (as_ref v) st of (a, st1) \<Rightarrow> (W_array a, st1))
      | K_value \<Rightarrow> (W_raw v, st))"

text \<open>The form for a tuple wraps each component.\<close>

fun WrapScope_tuple :: "vm \<Rightarrow> (result_kind \<times> jval) list \<Rightarrow> jstate \<Rightarrow> wrapped list \<times> jstate" where
  "WrapScope_tuple vm [] st = ([], st)"
| "WrapScope_tuple vm ((k, v) # kvs) st =
     (case WrapScope vm k v st of (w, st1) \<Rightarrow> case WrapScope_tuple vm kvs st1 of (ws, st2) \<Rightarrow> (w # ws, st2))"

definition JNI_SafeInvoke :: "vm \<Rightarrow> env_fn \<Rightarrow> jarg list \<Rightarrow> jstate \<Rightarrow> wrapped \<times> jstate" where
  "JNI_SafeInvoke vm f args st =
     (case jcall vm f (map UnwrapScope args) st of (v, st1) \<Rightarrow>
      case WrapScope vm (result_of f) v st1 of (w, st2) \<Rightarrow> (w, finally_clear vm st2))"

fun scoped :: "wrapped \<Rightarrow> scoped_ref" where
  "scoped (W_scoped s) = s"
| "scoped _ = \<lparr>local_ref = 0\<rparr>"

fun raw :: "wrapped \<Rightarrow> jval" where
  "raw (W_raw v) = v"
| "raw _ = J_void"

text \<open>A call whose result is an owner, and one whose result is a value.\<close>

definition invoke_scoped :: "vm \<Rightarrow> env_fn \<Rightarrow> jarg list \<Rightarrow> jstate \<Rightarrow> scoped_ref \<times> jstate" where
  "invoke_scoped vm f args st = (case JNI_SafeInvoke vm f args st of (w, st1) \<Rightarrow> (scoped w, st1))"

definition invoke_raw :: "vm \<Rightarrow> env_fn \<Rightarrow> jarg list \<Rightarrow> jstate \<Rightarrow> jval \<times> jstate" where
  "invoke_raw vm f args st = (case JNI_SafeInvoke vm f args st of (w, st1) \<Rightarrow> (raw w, st1))"

text \<open>A string literal, and an id.\<close>

definition lit :: "string \<Rightarrow> jarg" where "lit s = A_view s [NUL]"
definition idn :: "nat \<Rightarrow> jarg" where "idn i = A_raw (J_id i)"
definition num :: "int \<Rightarrow> jarg" where "num n = A_raw (J_num n)"

section \<open>Classes and fields\<close>

definition JNI_NewStringUTF :: "vm \<Rightarrow> string \<Rightarrow> string \<Rightarrow> jstate \<Rightarrow> scoped_ref \<times> jstate" where
  "JNI_NewStringUTF vm sv rest st =
     (case jcall vm Env_NewStringUTF [J_text (c_str (sv @ rest))] st of (v, st1) \<Rightarrow> ScopedLocalRef vm (as_ref v) st1)"

definition JNI_FindClass :: "vm \<Rightarrow> jarg \<Rightarrow> jstate \<Rightarrow> scoped_ref \<times> jstate" where
  "JNI_FindClass vm name st = invoke_scoped vm Env_FindClass [name] st"

definition JNI_GetObjectClass :: "vm \<Rightarrow> jarg \<Rightarrow> jstate \<Rightarrow> scoped_ref \<times> jstate" where
  "JNI_GetObjectClass vm obj st = invoke_scoped vm Env_GetObjectClass [obj] st"

definition JNI_GetFieldID :: "vm \<Rightarrow> jarg \<Rightarrow> jarg \<Rightarrow> jarg \<Rightarrow> jstate \<Rightarrow> jval \<times> jstate" where
  "JNI_GetFieldID vm clazz name sig st = invoke_raw vm Env_GetFieldID [clazz, name, sig] st"

definition JNI_GetField :: "vm \<Rightarrow> jtype \<Rightarrow> jarg \<Rightarrow> nat \<Rightarrow> jstate \<Rightarrow> wrapped \<times> jstate" where
  "JNI_GetField vm t obj fieldId st = JNI_SafeInvoke vm (Env_GetField t) [obj, idn fieldId] st"

definition JNI_SetField :: "vm \<Rightarrow> jtype \<Rightarrow> jarg \<Rightarrow> nat \<Rightarrow> jarg \<Rightarrow> jstate \<Rightarrow> wrapped \<times> jstate" where
  "JNI_SetField vm t obj fieldId val st = JNI_SafeInvoke vm (Env_SetField t) [obj, idn fieldId, val] st"

definition JNI_GetStaticFieldID :: "vm \<Rightarrow> jarg \<Rightarrow> jarg \<Rightarrow> jarg \<Rightarrow> jstate \<Rightarrow> jval \<times> jstate" where
  "JNI_GetStaticFieldID vm clazz name sig st = invoke_raw vm Env_GetStaticFieldID [clazz, name, sig] st"

definition JNI_GetStaticField :: "vm \<Rightarrow> jtype \<Rightarrow> jarg \<Rightarrow> nat \<Rightarrow> jstate \<Rightarrow> wrapped \<times> jstate" where
  "JNI_GetStaticField vm t clazz fieldId st = JNI_SafeInvoke vm (Env_GetStaticField t) [clazz, idn fieldId] st"

definition JNI_SetStaticField :: "vm \<Rightarrow> jtype \<Rightarrow> jarg \<Rightarrow> nat \<Rightarrow> jarg \<Rightarrow> jstate \<Rightarrow> wrapped \<times> jstate" where
  "JNI_SetStaticField vm t clazz fieldId val st =
     JNI_SafeInvoke vm (Env_SetStaticField t) [clazz, idn fieldId, val] st"

section \<open>Methods\<close>

definition JNI_ToReflectedMethod :: "vm \<Rightarrow> jarg \<Rightarrow> nat \<Rightarrow> bool \<Rightarrow> jstate \<Rightarrow> scoped_ref \<times> jstate" where
  "JNI_ToReflectedMethod vm clazz method isStatic st =
     invoke_scoped vm Env_ToReflectedMethod [clazz, idn method, num (if isStatic then 1 else 0)] st"

definition JNI_GetMethodID :: "vm \<Rightarrow> jarg \<Rightarrow> jarg \<Rightarrow> jarg \<Rightarrow> jstate \<Rightarrow> jval \<times> jstate" where
  "JNI_GetMethodID vm clazz name sig st = invoke_raw vm Env_GetMethodID [clazz, name, sig] st"

definition JNI_CallMethod :: "vm \<Rightarrow> jtype option \<Rightarrow> jarg \<Rightarrow> nat \<Rightarrow> jarg list \<Rightarrow> jstate \<Rightarrow> wrapped \<times> jstate" where
  "JNI_CallMethod vm t obj method args st = JNI_SafeInvoke vm (Env_CallMethod t) (obj # idn method # args) st"

definition JNI_GetStaticMethodID :: "vm \<Rightarrow> jarg \<Rightarrow> jarg \<Rightarrow> jarg \<Rightarrow> jstate \<Rightarrow> jval \<times> jstate" where
  "JNI_GetStaticMethodID vm clazz name sig st = invoke_raw vm Env_GetStaticMethodID [clazz, name, sig] st"

definition JNI_CallStaticMethod ::
  "vm \<Rightarrow> jtype option \<Rightarrow> jarg \<Rightarrow> nat \<Rightarrow> jarg list \<Rightarrow> jstate \<Rightarrow> wrapped \<times> jstate" where
  "JNI_CallStaticMethod vm t clazz method args st =
     JNI_SafeInvoke vm (Env_CallStaticMethod t) (clazz # idn method # args) st"

definition JNI_CallCallNonvirtualMethod ::
  "vm \<Rightarrow> jtype option \<Rightarrow> jarg \<Rightarrow> jarg \<Rightarrow> nat \<Rightarrow> jarg list \<Rightarrow> jstate \<Rightarrow> wrapped \<times> jstate" where
  "JNI_CallCallNonvirtualMethod vm t obj clazz method args st =
     JNI_SafeInvoke vm (Env_CallNonvirtualMethod t) (obj # clazz # idn method # args) st"

section \<open>Objects and arrays\<close>

definition JNI_NewObject :: "vm \<Rightarrow> jarg \<Rightarrow> nat \<Rightarrow> jarg list \<Rightarrow> jstate \<Rightarrow> scoped_ref \<times> jstate" where
  "JNI_NewObject vm clazz method args st = invoke_scoped vm Env_NewObject (clazz # idn method # args) st"

definition JNI_NewDirectByteBuffer :: "vm \<Rightarrow> jarg list \<Rightarrow> jstate \<Rightarrow> scoped_ref \<times> jstate" where
  "JNI_NewDirectByteBuffer vm args st = invoke_scoped vm Env_NewDirectByteBuffer args st"

definition JNI_RegisterNatives :: "vm \<Rightarrow> jarg \<Rightarrow> jval list \<Rightarrow> int \<Rightarrow> jstate \<Rightarrow> jval \<times> jstate" where
  "JNI_RegisterNatives vm clazz methods n st =
     invoke_raw vm Env_RegisterNatives [clazz, A_raw (J_buf 1 methods), num n] st"

definition JNI_IsInstanceOf :: "vm \<Rightarrow> jarg \<Rightarrow> jarg \<Rightarrow> jstate \<Rightarrow> jval \<times> jstate" where
  "JNI_IsInstanceOf vm obj clazz st = invoke_raw vm Env_IsInstanceOf [obj, clazz] st"

definition JNI_NewGlobalRef :: "vm \<Rightarrow> jarg \<Rightarrow> jstate \<Rightarrow> jval \<times> jstate" where
  "JNI_NewGlobalRef vm x st = jcall vm Env_NewGlobalRef [UnwrapScope x] st"

definition JNI_Cast :: "vm \<Rightarrow> scoped_ref \<Rightarrow> jstate \<Rightarrow> scoped_ref \<times> scoped_ref \<times> jstate" where
  "JNI_Cast vm x st = move_ScopedLocalRef vm x st"

definition JNI_Cast_array :: "vm \<Rightarrow> jtype \<Rightarrow> scoped_ref \<Rightarrow> jstate \<Rightarrow> array_ref \<times> scoped_ref \<times> jstate" where
  "JNI_Cast_array vm t x st = array_of_scoped vm t x st"

definition JNI_GetArrayLength :: "vm \<Rightarrow> jarg \<Rightarrow> jstate \<Rightarrow> jval \<times> jstate" where
  "JNI_GetArrayLength vm arr st = invoke_raw vm Env_GetArrayLength [arr] st"

definition JNI_NewObjectArray :: "vm \<Rightarrow> int \<Rightarrow> jarg \<Rightarrow> jarg \<Rightarrow> jstate \<Rightarrow> wrapped \<times> jstate" where
  "JNI_NewObjectArray vm len clazz init st =
     JNI_SafeInvoke vm (Env_NewArray T_Object) [num len, clazz, init] st"

definition JNI_NewArray :: "vm \<Rightarrow> jtype \<Rightarrow> int \<Rightarrow> jstate \<Rightarrow> wrapped \<times> jstate" where
  "JNI_NewArray vm t len st = JNI_SafeInvoke vm (Env_NewArray t) [num len] st"

text \<open>The owner of the class is a temporary: it goes when the whole expression has been evaluated.\<close>

definition JNI_GetObjectFieldOf :: "vm \<Rightarrow> jarg \<Rightarrow> jarg \<Rightarrow> jarg \<Rightarrow> jstate \<Rightarrow> wrapped \<times> jstate" where
  "JNI_GetObjectFieldOf vm obj fname fsig st =
     (case JNI_GetObjectClass vm obj st of (cls, st1) \<Rightarrow>
      case JNI_GetFieldID vm (A_scoped cls) fname fsig st1 of (fid, st2) \<Rightarrow>
      case JNI_GetField vm T_Object obj (as_id fid) st2 of (w, st3) \<Rightarrow>
        (w, snd (destroy_ScopedLocalRef vm cls st3)))"

end
