(* ===== verification/Jni_Balance.thy ===== *)
theory Jni_Balance
  imports Jni_Calls
begin

text \<open>
  What the helpers of \<open>jni_helper.hpp\<close> promise: which local references a run of them creates and deletes, who owns
  them, and that no exception stays pending.
\<close>

section \<open>Reading a history\<close>

definition gives_local :: "env_fn \<Rightarrow> bool" where
  "gives_local f \<longleftrightarrow> f \<noteq> Env_NewGlobalRef \<and> result_of f \<noteq> K_value"

definition ref_set :: "nat \<Rightarrow> nat multiset" where
  "ref_set r = (if r = 0 then {#} else {#r#})"

fun ev_created :: "jevent \<Rightarrow> nat multiset" where
  "ev_created (Call f args v t) = (if gives_local f then ref_set (as_ref v) else {#})"
| "ev_created (Log s) = {#}"

fun ev_deleted :: "jevent \<Rightarrow> nat multiset" where
  "ev_deleted (Call f args v t) =
     (case args of [a] \<Rightarrow> if f = Env_DeleteLocalRef then ref_set (as_ref a) else {#} | _ \<Rightarrow> {#})"
| "ev_deleted (Log s) = {#}"

definition created :: "jevent list \<Rightarrow> nat multiset" where
  "created h = sum_list (map ev_created h)"

definition deleted :: "jevent list \<Rightarrow> nat multiset" where
  "deleted h = sum_list (map ev_deleted h)"

text \<open>From \<open>st\<close> to \<open>st'\<close> the references \<open>M\<close> are given up and \<open>N\<close> are gained.\<close>

definition moves :: "nat multiset \<Rightarrow> jstate \<Rightarrow> jstate \<Rightarrow> nat multiset \<Rightarrow> bool" where
  "moves M st st' N \<longleftrightarrow>
     created (j_hist st') + deleted (j_hist st) + M = created (j_hist st) + deleted (j_hist st') + N"

fun pend :: "bool \<Rightarrow> jevent list \<Rightarrow> bool" where
  "pend b [] = b"
| "pend b (Call f args v t # h) = pend (f \<noteq> Env_ExceptionClear \<and> (b \<or> t)) h"
| "pend b (Log s # h) = pend b h"

definition pending :: "jevent list \<Rightarrow> bool" where
  "pending h = pend False h"

fun owned_elems :: "elements \<Rightarrow> nat multiset" where
  "owned_elems (E_objs es) = sum_list (map (\<lambda>e. ref_set (local_ref e)) es)"
| "owned_elems _ = {#}"

definition owned_array :: "array_ref \<Rightarrow> nat multiset" where
  "owned_array a = ref_set (ar_ref a) + owned_elems (ar_elems a)"

fun owned :: "wrapped \<Rightarrow> nat multiset" where
  "owned (W_scoped s) = ref_set (local_ref s)"
| "owned (W_array a) = owned_array a"
| "owned (W_raw v) = {#}"

lemma ref_set_simps [simp]: "ref_set 0 = {#}" "r \<noteq> 0 \<Longrightarrow> ref_set r = {#r#}"
  by (simp_all add: ref_set_def)

lemma pend_append: "pend b (h @ h') = pend (pend b h) h'"
  by (induction b h rule: pend.induct) simp_all

lemma moves_refl [simp, intro]: "moves M st st M"
  by (simp add: moves_def)

lemma moves_trans [trans]:
  assumes "moves M st st' N" and "moves N st' st'' K"
  shows "moves M st st'' K"
proof -
  have "count (created (j_hist st'')) x + count (deleted (j_hist st)) x + count M x =
      count (created (j_hist st)) x + count (deleted (j_hist st'')) x + count K x" for x
    using arg_cong [OF assms(1) [unfolded moves_def], of "\<lambda>m. count m x"]
      arg_cong [OF assms(2) [unfolded moves_def], of "\<lambda>m. count m x"] by simp
  then show ?thesis unfolding moves_def by (intro multiset_eqI) simp
qed

lemma moves_frame: "moves M st st' N \<Longrightarrow> moves (M + K) st st' (N + K)"
  unfolding moves_def by (metis add.assoc)

lemma moves_frame2: "moves M st st' N \<Longrightarrow> moves (K + M) st st' (K + N)"
  using moves_frame by (metis add.commute)

lemma moves_jcall:
  assumes "jcall vm f args st = (v, st')"
  shows "moves (ev_deleted (Call f args v False)) st st' (ev_created (Call f args v False))" and "j_static st' = j_static st"
  using assms by (auto simp: jcall_def moves_def created_def deleted_def split: prod.splits list.splits)


text \<open>The calls of the helpers, one after the other.\<close>

lemma moves_jcall_plain:
  assumes "jcall vm f args st = (v, st')" and "f \<noteq> Env_DeleteLocalRef"
  shows "moves M st st' (M + (if gives_local f then ref_set (as_ref v) else {#}))" and "j_static st' = j_static st"
proof -
  have "ev_deleted (Call f args v False) = {#}" using assms(2) by (simp split: list.split)
  then show "moves M st st' (M + (if gives_local f then ref_set (as_ref v) else {#}))"
    using moves_frame2 [OF moves_jcall(1) [OF assms(1)], of M] by simp
  show "j_static st' = j_static st" by (rule moves_jcall(2) [OF assms(1)])
qed

lemma gives_local_simps [simp]:
  "gives_local Env_FindClass" "gives_local Env_ExceptionOccurred" "gives_local Env_GetObjectArrayElement"
  "gives_local (Env_CallStaticMethod (Some T_Object))" "\<not> gives_local Env_NewGlobalRef"
  "\<not> gives_local Env_GetStaticMethodID" "\<not> gives_local Env_DeleteLocalRef" "\<not> gives_local Env_ExceptionClear"
  "\<not> gives_local Env_GetStringUTFChars" "\<not> gives_local Env_ReleaseStringUTFChars"
  "\<not> gives_local Env_SetObjectArrayElement" "\<not> gives_local Env_GetArrayLength"
  "\<not> gives_local (Env_GetArrayElements t)" "\<not> gives_local (Env_ReleaseArrayElements t)"
  "\<not> gives_local Env_GetFieldID" "\<not> gives_local Env_GetMethodID" "\<not> gives_local (Env_GetField T_Long)"
  "\<not> gives_local Env_FromReflectedMethod" "gives_local (Env_CallMethod (Some T_Object))"
  by (simp_all add: gives_local_def)

lemma moves_delete: "moves (M + ref_set r) st (jdo vm Env_DeleteLocalRef [J_ref r] st) M"
  and static_jdo [simp]: "j_static (jdo vm f args st) = j_static st"
proof -
  obtain v st' where c: "jcall vm Env_DeleteLocalRef [J_ref r] st = (v, st')" by fastforce
  show "moves (M + ref_set r) st (jdo vm Env_DeleteLocalRef [J_ref r] st) M"
    using moves_frame2 [OF moves_jcall(1) [OF c], of M] by (simp add: jdo_def c)
  show "j_static (jdo vm f args st) = j_static st"
    by (simp add: jdo_def jcall_def split: prod.split)
qed

lemma moves_jdo:
  assumes "f \<noteq> Env_DeleteLocalRef" and "\<not> gives_local f"
  shows "moves M st (jdo vm f args st) M"
proof -
  obtain v st' where c: "jcall vm f args st = (v, st')" by fastforce
  show ?thesis using moves_jcall_plain(1) [OF c assms(1), of M] assms(2) by (simp add: jdo_def c)
qed

lemma moves_jlog: "moves M st (jlog s st) M" and static_jlog [simp]: "j_static (jlog s st) = j_static st"
  by (simp_all add: jlog_def moves_def created_def deleted_def)

lemma moves_reset:
  assumes "reset vm ptr s st = (s', st')"
  shows "moves (M + ref_set (local_ref s) + (if ptr = local_ref s then {#} else ref_set ptr)) st st'
      (M + ref_set (local_ref s'))"
    and "local_ref s' = ptr" and "j_static st' = j_static st"
proof -
  show "local_ref s' = ptr" and st: "j_static st' = j_static st"
    using assms by (auto simp: reset_def split: if_splits)
  show "moves (M + ref_set (local_ref s) + (if ptr = local_ref s then {#} else ref_set ptr)) st st'
      (M + ref_set (local_ref s'))"
    using assms moves_delete [of "M + ref_set ptr" "local_ref s" st vm]
    by (auto simp: reset_def add_ac split: if_splits)
qed

lemma ScopedLocalRef_eq [simp]: "ScopedLocalRef vm r st = (\<lparr>local_ref = r\<rparr>, st)"
  by (simp add: ScopedLocalRef_def reset_def)

lemma moves_destroy:
  "moves (M + ref_set (local_ref s)) st (snd (destroy_ScopedLocalRef vm s st)) M"
  and static_destroy [simp]: "j_static (snd (destroy_ScopedLocalRef vm s st)) = j_static st"
  using moves_delete [of M "local_ref s" st vm] by (auto simp: destroy_ScopedLocalRef_def reset_def)

section \<open>Reporting an exception\<close>

lemma log_statics_set: "j_static st = Some p \<Longrightarrow> log_statics vm st = (p, st)"
  by (simp add: log_statics_def)

lemma moves_ClearException:
  assumes "j_static st = Some (g, m)" and "ClearException vm st = (s, st')"
  shows "moves M st st' (M + ref_set (local_ref s))" and "j_static st' = j_static st"
proof -
  obtain e st1 where e: "jcall vm Env_ExceptionOccurred [] st = (e, st1)" by fastforce
  note e' = moves_jcall_plain [OF e]
  define st2 where "st2 = jdo vm Env_ExceptionClear [] st1"
  obtain str st3 where c: "jcall vm (Env_CallStaticMethod (Some T_Object)) [J_ref g, J_id m, e] st2 = (str, st3)"
    by fastforce
  note c' = moves_jcall_plain [OF c]
  have s2: "j_static st2 = Some (g, m)" using e'(2) assms(1) by (simp add: st2_def)
  have e_ref: "as_ref e \<noteq> 0 \<Longrightarrow> e = J_ref (as_ref e)" by (cases e) auto
  show "moves M st st' (M + ref_set (local_ref s))"
  proof (cases "as_ref e = 0")
    case True
    then show ?thesis using assms(2) e'(1) [of M] by (auto simp: ClearException_def e)
  next
    case False
    with assms(2) have st': "st' = jdo vm Env_DeleteLocalRef [e] st3" and s: "s = \<lparr>local_ref = as_ref str\<rparr>"
      by (auto simp: ClearException_def e c log_statics_set s2 simp flip: st2_def)
    have "moves M st st1 (M + ref_set (as_ref e))" using e'(1) [of M] by simp
    also have "moves (M + ref_set (as_ref e)) st1 st2 (M + ref_set (as_ref e))"
      unfolding st2_def by (rule moves_jdo) simp_all
    also have "moves (M + ref_set (as_ref e)) st2 st3 (M + ref_set (as_ref str) + ref_set (as_ref e))"
      using c'(1) [of "M + ref_set (as_ref e)"] by (simp add: add_ac)
    also have "moves (M + ref_set (as_ref str) + ref_set (as_ref e)) st3 st' (M + ref_set (as_ref str))"
      unfolding st' using moves_delete [of _ "as_ref e"] e_ref [OF False] by simp
    finally show ?thesis by (simp add: s)
  qed
  show "j_static st' = j_static st"
    using assms e'(2) c'(2) s2
    by (auto simp: ClearException_def e c log_statics_set simp flip: st2_def split: if_splits)
qed

lemma JUTFString_pair:
  assumes "JUTFString vm env jstr dflt st = (u, st')"
  shows "moves M st st' M" and "j_static st' = j_static st" and "u_env u = env" and "u_jstr u = jstr"
proof -
  obtain c st1 where c: "jcall vm Env_GetStringUTFChars [J_ref jstr] st = (c, st1)" by fastforce
  show "moves M st st' M" and "j_static st' = j_static st" and "u_env u = env" and "u_jstr u = jstr"
    using assms moves_jcall_plain(1) [OF c, of M] moves_jcall_plain(2) [OF c]
    by (auto simp: JUTFString_def c split: if_splits)
qed

lemma moves_destroy_JUTFString: "moves M st (destroy_JUTFString vm u st) M"
  and static_destroy_JUTFString [simp]: "j_static (destroy_JUTFString vm u st) = j_static st"
  by (simp_all add: destroy_JUTFString_def moves_jdo)

lemma finally_clear_moves:
  assumes "j_static st = Some p"
  shows "moves M st (finally_clear vm st) M" and "j_static (finally_clear vm st) = j_static st"
proof -
  obtain g m where p: "j_static st = Some (g, m)" using assms by (cases p) simp
  obtain exc st1 where e: "ClearException vm st = (exc, st1)" by fastforce
  note e' = moves_ClearException [OF p e]
  obtain u st2 where u: "JUTFString vm True (local_ref exc) (0, []) st1 = (u, st2)" by fastforce
  note u' = JUTFString_pair [OF u]
  have "moves M st st1 (M + ref_set (local_ref exc))" by (rule e'(1))
  also have "moves (M + ref_set (local_ref exc)) st1 (finally_clear vm st) M"
  proof (cases "local_ref exc = 0")
    case True
    then show ?thesis using moves_destroy [of M exc st1 vm] by (simp add: finally_clear_def e)
  next
    case False
    have "moves (M + ref_set (local_ref exc)) st1 st2 (M + ref_set (local_ref exc))" by (rule u'(1))
    also have "moves (M + ref_set (local_ref exc)) st2 (jlog (printed (u_cstr u)) st2) (M + ref_set (local_ref exc))"
      by (rule moves_jlog)
    also have "moves (M + ref_set (local_ref exc)) (jlog (printed (u_cstr u)) st2)
        (destroy_JUTFString vm u (jlog (printed (u_cstr u)) st2)) (M + ref_set (local_ref exc))"
      by (rule moves_destroy_JUTFString)
    also have "moves (M + ref_set (local_ref exc)) (destroy_JUTFString vm u (jlog (printed (u_cstr u)) st2))
        (finally_clear vm st) M"
      using False moves_destroy [of M exc _ vm] by (simp add: finally_clear_def e u)
    finally show ?thesis .
  qed
  finally show "moves M st (finally_clear vm st) M" .
  show "j_static (finally_clear vm st) = j_static st"
    using e'(2) u'(2) by (simp add: finally_clear_def e u)
qed

lemma invoke_value_moves:
  assumes "j_static st = Some p" and "invoke_value vm f args st = (v, st')" and "f \<noteq> Env_DeleteLocalRef"
  shows "moves M st st' (M + (if gives_local f then ref_set (as_ref v) else {#}))" and "j_static st' = j_static st"
proof -
  obtain v1 st1 where c: "jcall vm f (map UnwrapScope args) st = (v1, st1)" by fastforce
  note c' = moves_jcall_plain [OF c assms(3)]
  have st1: "j_static st1 = Some p" using c'(2) assms(1) by simp
  have r: "v = v1" "st' = finally_clear vm st1" using assms(2) by (simp_all add: invoke_value_def c)
  show "moves M st st' (M + (if gives_local f then ref_set (as_ref v) else {#}))"
    unfolding r by (rule moves_trans [OF c'(1) finally_clear_moves(1) [OF st1]])
  show "j_static st' = j_static st" using finally_clear_moves(2) [OF st1] c'(2) by (simp add: r)
qed

section \<open>Arrays\<close>

lemma get_elements_moves:
  assumes "j_static st = Some p" and "get_elements vm arr i n st = (es, st')"
  shows "moves M st st' (M + owned_elems (E_objs es)) \<and> j_static st' = Some p \<and> length es = n"
  using assms
proof (induction vm arr i n st arbitrary: M es st' rule: get_elements.induct)
  case (2 vm arr i n st)
  obtain v st1 where v: "invoke_value vm Env_GetObjectArrayElement [A_raw (J_ref arr), A_raw (J_num (int i))] st = (v, st1)"
    by fastforce
  note v' = invoke_value_moves [OF 2(2) v]
  obtain es1 st2 where g: "get_elements vm arr (i + 1) n st1 = (es1, st2)" by fastforce
  have s1: "j_static st1 = Some p" using v'(2) 2(2) by simp
  from 2(1) [OF v [symmetric] _ s1, of "\<lparr>local_ref = as_ref v\<rparr>"] g
  have IH: "moves N st1 st2 (N + owned_elems (E_objs es1)) \<and> j_static st2 = Some p \<and> length es1 = n" for N by simp
  have r: "es = \<lparr>local_ref = as_ref v\<rparr> # es1" "st' = st2" using 2(3) g by (simp_all add: v)
  show ?case using moves_trans [OF v'(1) IH [THEN conjunct1], of M] IH by (simp add: r add_ac)
qed simp

lemma destroy_elements_moves:
  "moves (M + owned_elems (E_objs es)) st (destroy_elements vm es st) M \<and> j_static (destroy_elements vm es st) = j_static st"
proof (induction es arbitrary: st M)
  case (Cons e es)
  have "moves (M + owned_elems (E_objs es) + ref_set (local_ref e)) st (snd (destroy_ScopedLocalRef vm e st))
      (M + owned_elems (E_objs es))" by (rule moves_destroy)
  from moves_trans [OF this Cons.IH [THEN conjunct1]] Cons.IH [THEN conjunct2] show ?case by (simp add: add_ac)
qed simp

lemma set_elements_moves:
  "j_static st = Some p \<Longrightarrow>
   moves M st (set_elements vm arr i es st) M \<and> j_static (set_elements vm arr i es st) = Some p"
proof (induction es arbitrary: st i)
  case (Cons e es)
  obtain v st1 where v: "invoke_value vm Env_SetObjectArrayElement
      [A_raw (J_ref arr), A_raw (J_num (int i)), A_scoped e] st = (v, st1)" by fastforce
  note v' = invoke_value_moves [OF Cons.prems v]
  have "j_static st1 = Some p" using v'(2) Cons.prems by simp
  from Cons.IH [OF this] v'(1) [of M] show ?case by (auto simp: v intro: moves_trans)
qed simp

text \<open>A null array has no elements; one that holds a reference has read its length and, if it is an array of
  objects, that many elements.\<close>

definition array_ok :: "array_ref \<Rightarrow> bool" where
  "array_ok a \<longleftrightarrow>
     (if ar_ref a = 0 then ar_elems a = E_null
      else ar_size a \<noteq> None \<and> (case ar_elems a of E_objs es \<Rightarrow> length es = n_elems a | _ \<Rightarrow> True))"

lemma ReleaseElements_moves:
  assumes "j_static st = Some p"
  shows "moves M st (ReleaseElements vm mode a st) M" and "j_static (ReleaseElements vm mode a st) = Some p"
  using assms set_elements_moves [OF assms, of M vm "ar_ref a" 0]
  by (auto simp: ReleaseElements_def moves_jdo split: elements.split)

lemma drop_elements_moves:
  assumes "case ar_elems a of E_objs es \<Rightarrow> length es = n_elems a | _ \<Rightarrow> True"
  shows "moves (M + owned_elems (ar_elems a)) st (drop_elements vm a st) M" and "j_static (drop_elements vm a st) = j_static st"
  using assms destroy_elements_moves [of M _ st vm] destroy_elements_moves [THEN conjunct2]
  by (auto simp: drop_elements_def split: elements.splits)

text \<open>The first half of \<open>reset\<close>: what is held is given back.\<close>

lemma give_back_moves:
  assumes "j_static st = Some p" and "array_ok a" and "ar_ref a \<noteq> 0"
  shows "moves (M + owned_array a) st
      (drop_elements vm a (jdo vm Env_DeleteLocalRef [J_ref (ar_ref a)] (ReleaseElements vm mode a st))) M"
    and "j_static (drop_elements vm a (jdo vm Env_DeleteLocalRef [J_ref (ar_ref a)] (ReleaseElements vm mode a st))) = Some p"
proof -
  have ok: "case ar_elems a of E_objs es \<Rightarrow> length es = n_elems a | _ \<Rightarrow> True"
    using assms(2,3) by (simp add: array_ok_def)
  define N where "N = M + owned_elems (ar_elems a) + ref_set (ar_ref a)"
  have "moves N st (ReleaseElements vm mode a st) N" by (rule ReleaseElements_moves(1) [OF assms(1)])
  also have "moves N (ReleaseElements vm mode a st)
      (jdo vm Env_DeleteLocalRef [J_ref (ar_ref a)] (ReleaseElements vm mode a st)) (M + owned_elems (ar_elems a))"
    unfolding N_def by (rule moves_delete)
  also have "moves (M + owned_elems (ar_elems a)) (jdo vm Env_DeleteLocalRef [J_ref (ar_ref a)] (ReleaseElements vm mode a st))
      (drop_elements vm a (jdo vm Env_DeleteLocalRef [J_ref (ar_ref a)] (ReleaseElements vm mode a st))) M"
    by (rule drop_elements_moves(1) [OF ok])
  finally show "moves (M + owned_array a) st
      (drop_elements vm a (jdo vm Env_DeleteLocalRef [J_ref (ar_ref a)] (ReleaseElements vm mode a st))) M"
    by (simp add: N_def owned_array_def add_ac)
  show "j_static (drop_elements vm a (jdo vm Env_DeleteLocalRef [J_ref (ar_ref a)] (ReleaseElements vm mode a st))) = Some p"
    using drop_elements_moves(2) [OF ok] ReleaseElements_moves(2) [OF assms(1)] by simp
qed

text \<open>The second half of \<open>reset\<close>: a new reference is taken and its elements are read.\<close>

definition take_array :: "vm \<Rightarrow> nat \<Rightarrow> array_ref \<Rightarrow> jstate \<Rightarrow> array_ref \<times> jstate" where
  "take_array vm ptr a st =
     (case jcall vm Env_GetArrayLength [J_ref ptr] st of (len, st2) \<Rightarrow>
        let a2 = a\<lparr>ar_ref := ptr, ar_size := Some (nat (as_num len))\<rparr>
        in if ar_type a = T_Object
           then (case get_elements vm ptr 0 (nat (as_num len)) st2 of (es, st3) \<Rightarrow> (a2\<lparr>ar_elems := E_objs es\<rparr>, st3))
           else (case jcall vm (Env_GetArrayElements (ar_type a)) [J_ref ptr] st2 of (b, st3) \<Rightarrow>
                   (a2\<lparr>ar_elems := as_buf b\<rparr>, st3)))"

lemma owned_as_buf [simp]: "owned_elems (as_buf b) = {#}"
  by (cases b) simp_all

lemma as_buf_ok [simp]: "(case as_buf b of E_objs es \<Rightarrow> P es | _ \<Rightarrow> True)"
  by (cases b) simp_all

lemma take_array_moves:
  assumes "j_static st = Some p" and "take_array vm ptr a st = (a', st')" and "ptr \<noteq> 0"
  shows "moves (M + ref_set ptr) st st' (M + owned_array a')" and "array_ok a'" and "j_static st' = Some p"
proof -
  obtain len st2 where l: "jcall vm Env_GetArrayLength [J_ref ptr] st = (len, st2)" by fastforce
  obtain es st3 where g: "get_elements vm ptr 0 (nat (as_num len)) st2 = (es, st3)" by fastforce
  obtain b st4 where b: "jcall vm (Env_GetArrayElements (ar_type a)) [J_ref ptr] st2 = (b, st4)" by fastforce
  note l' = moves_jcall_plain [OF l]
  have s2: "j_static st2 = Some p" using l'(2) assms(1) by simp
  note g' = get_elements_moves [OF s2 g]
  note b' = moves_jcall_plain [OF b]
  have "moves (M + ref_set ptr) st st2 (M + ref_set ptr)" using l'(1) by simp
  also have "moves (M + ref_set ptr) st2 st' (M + owned_array a')"
    using assms(2,3) g' [of "M + ref_set ptr"] b'(1) [of "M + ref_set ptr"]
    by (auto simp: take_array_def l g b Let_def owned_array_def add_ac split: if_splits)
  finally show "moves (M + ref_set ptr) st st' (M + owned_array a')" .
  show "j_static st' = Some p"
    using assms(2) g' b'(2) s2 by (auto simp: take_array_def l g b Let_def split: if_splits)
  show "array_ok a'"
    using assms(2,3) g' by (auto simp: take_array_def l g b Let_def array_ok_def n_elems_def split: if_splits)
qed

lemma reset_array_take:
  "ptr \<noteq> ar_ref a \<Longrightarrow>
   reset_array vm ptr a st =
     (let st1 = (if ar_ref a \<noteq> 0
                 then drop_elements vm a
                   (jdo vm Env_DeleteLocalRef [J_ref (ar_ref a)] (ReleaseElements vm (release_mode a) a st))
                 else st);
          a1 = (if ar_ref a \<noteq> 0 then a\<lparr>ar_elems := E_null\<rparr> else a)
      in if ptr = 0 then (a1\<lparr>ar_ref := 0, ar_size := Some 0\<rparr>, st1) else take_array vm ptr a1 st1)"
  by (cases "ar_ref a = 0") (simp_all add: reset_array_def take_array_def Let_def split: prod.split)

lemma reset_array_moves:
  assumes "j_static st = Some p" and "array_ok a" and "reset_array vm ptr a st = (a', st')"
  shows "moves (M + owned_array a + (if ptr = ar_ref a then {#} else ref_set ptr)) st st' (M + owned_array a')"
    and "array_ok a'" and "j_static st' = Some p"
proof -
  define st1 where "st1 = (if ar_ref a \<noteq> 0
      then drop_elements vm a (jdo vm Env_DeleteLocalRef [J_ref (ar_ref a)] (ReleaseElements vm (release_mode a) a st))
      else st)"
  define a1 where "a1 = (if ar_ref a \<noteq> 0 then a\<lparr>ar_elems := E_null\<rparr> else a)"
  have s1: "moves (N + owned_array a) st st1 N" "j_static st1 = Some p" for N
    using give_back_moves(1) [OF assms(1,2), of N vm "release_mode a"] give_back_moves(2) [OF assms(1,2)] assms(1,2)
    by (auto simp: st1_def owned_array_def array_ok_def)
  have "moves (M + owned_array a + (if ptr = ar_ref a then {#} else ref_set ptr)) st st' (M + owned_array a') \<and>
      array_ok a' \<and> j_static st' = Some p"
  proof (cases "ptr = ar_ref a")
    case True
    then show ?thesis using assms by (auto simp: reset_array_def)
  next
    case False
    have r: "(if ptr = 0 then (a1\<lparr>ar_ref := 0, ar_size := Some 0\<rparr>, st1) else take_array vm ptr a1 st1) = (a', st')"
      using assms(3) by (simp only: reset_array_take [OF False] Let_def st1_def a1_def)
    have m: "moves (M + owned_array a + ref_set ptr) st st1 (M + ref_set ptr)"
      using s1(1) [of "M + ref_set ptr"] by (simp add: add_ac)
    show ?thesis
    proof (cases "ptr = 0")
      case True
      with r m s1(2) False show ?thesis
        by (auto simp: a1_def owned_array_def array_ok_def split: if_splits)
    next
      case nz: False
      with r have "take_array vm ptr a1 st1 = (a', st')" by simp
      from moves_trans [OF m take_array_moves(1) [OF s1(2) this nz]] take_array_moves(2,3) [OF s1(2) this nz] False
      show ?thesis by simp
    qed
  qed
  then show "moves (M + owned_array a + (if ptr = ar_ref a then {#} else ref_set ptr)) st st' (M + owned_array a')"
    and "array_ok a'" and "j_static st' = Some p" by simp_all
qed

section \<open>Properties\<close>

lemma WrapScope_moves:
  assumes "j_static st = Some p" and "WrapScope vm k v st = (w, st')"
  shows "moves (M + (if k = K_value then {#} else ref_set (as_ref v))) st st' (M + owned w)" and "j_static st' = Some p"
proof -
  have ok: "array_ok (blank_array t)" "owned_array (blank_array t) = {#}" "ar_ref (blank_array t) = 0" for t
    by (simp_all add: array_ok_def blank_array_def owned_array_def)
  show "moves (M + (if k = K_value then {#} else ref_set (as_ref v))) st st' (M + owned w)" and "j_static st' = Some p"
    using assms reset_array_moves(1) [OF assms(1) ok(1), of vm "as_ref v" _ _ _ M]
      reset_array_moves(3) [OF assms(1) ok(1)]
    by (cases "as_ref v = 0"; auto simp: WrapScope_def ScopedLocalRef_array_def ok split: result_kind.splits prod.splits)+
qed

lemma JNI_SafeInvoke_moves:
  assumes "j_static st = Some p" and "JNI_SafeInvoke vm f args st = (w, st')"
    and "f \<noteq> Env_DeleteLocalRef" and "f \<noteq> Env_NewGlobalRef"
  shows "moves M st st' (M + owned w)" and "j_static st' = Some p"
proof -
  obtain v st1 where c: "jcall vm f (map UnwrapScope args) st = (v, st1)" by fastforce
  note c' = moves_jcall_plain [OF c assms(3)]
  have s1: "j_static st1 = Some p" using c'(2) assms(1) by simp
  obtain w1 st2 where w: "WrapScope vm (result_of f) v st1 = (w1, st2)" by fastforce
  note w' = WrapScope_moves [OF s1 w]
  have r: "w = w1" "st' = finally_clear vm st2" using assms(2) by (simp_all add: JNI_SafeInvoke_def c w)
  have "moves M st st1 (M + (if result_of f = K_value then {#} else ref_set (as_ref v)))"
    using c'(1) [of M] assms(4) by (simp add: gives_local_def split: if_splits)
  also have "moves (M + (if result_of f = K_value then {#} else ref_set (as_ref v))) st1 st2 (M + owned w1)"
    by (rule w'(1))
  also have "moves (M + owned w1) st2 st' (M + owned w1)"
    unfolding r by (rule finally_clear_moves(1) [OF w'(2)])
  finally show "moves M st st' (M + owned w)" by (simp add: r)
  show "j_static st' = Some p" unfolding r using finally_clear_moves(2) [OF w'(2)] w'(2) by simp
qed

end
