(* ===== verification/Jni_Refs.thy ===== *)
theory Jni_Refs
  imports Jni_Balance
begin

text \<open>
  The properties of the owners and calls of \<open>jni_helper.hpp\<close>: references have one owner and are deleted once, a call
  leaves no exception pending, and what the owner of an array does with its elements.
\<close>

section \<open>Owners in a scope\<close>

text \<open>A run of the operations on the owners in a scope; an owner is named by its place in the order of construction.\<close>

datatype scope_op =
    Construct nat | Move_Construct nat | Reset nat nat | Release nat | Move_Assign nat nat | Destroy nat

record owners =
  ow_vars :: "scoped_ref list"
  ow_state :: jstate
  ow_given :: "nat multiset"      \<comment> \<open>references handed to an owner\<close>
  ow_out :: "nat multiset"        \<comment> \<open>references released to the caller\<close>

definition at_var :: "nat \<Rightarrow> owners \<Rightarrow> scoped_ref" where
  "at_var i ow = (if i < length (ow_vars ow) then ow_vars ow ! i else \<lparr>local_ref = 0\<rparr>)"

fun run_scope :: "vm \<Rightarrow> scope_op \<Rightarrow> owners \<Rightarrow> owners" where
  "run_scope vm (Construct r) ow =
     (case ScopedLocalRef vm r (ow_state ow) of (s, st) \<Rightarrow>
        ow\<lparr>ow_vars := ow_vars ow @ [s], ow_state := st, ow_given := ow_given ow + ref_set r\<rparr>)"
| "run_scope vm (Move_Construct i) ow =
     (case move_ScopedLocalRef vm (at_var i ow) (ow_state ow) of (n, s, st) \<Rightarrow>
        ow\<lparr>ow_vars := (ow_vars ow)[i := s] @ [n], ow_state := st\<rparr>)"
| "run_scope vm (Reset i p) ow =
     (if i < length (ow_vars ow)
      then (case reset vm p (at_var i ow) (ow_state ow) of (s, st) \<Rightarrow>
              ow\<lparr>ow_vars := (ow_vars ow)[i := s], ow_state := st,
                ow_given := ow_given ow + (if p = local_ref (at_var i ow) then {#} else ref_set p)\<rparr>)
      else ow)"
| "run_scope vm (Release i) ow =
     (case release (at_var i ow) of (r, s) \<Rightarrow>
        ow\<lparr>ow_vars := (ow_vars ow)[i := s], ow_out := ow_out ow + ref_set r\<rparr>)"
| "run_scope vm (Move_Assign i j) ow =
     (if i < length (ow_vars ow) \<and> j < length (ow_vars ow)
      then if i = j
           then (case self_assign_ScopedLocalRef vm (at_var i ow) (ow_state ow) of (s, st) \<Rightarrow>
                   ow\<lparr>ow_vars := (ow_vars ow)[i := s], ow_state := st\<rparr>)
           else (case assign_ScopedLocalRef vm (at_var i ow) (at_var j ow) (ow_state ow) of (d, s, st) \<Rightarrow>
                   ow\<lparr>ow_vars := (ow_vars ow)[i := d, j := s], ow_state := st\<rparr>)
      else ow)"
| "run_scope vm (Destroy i) ow =
     (case destroy_ScopedLocalRef vm (at_var i ow) (ow_state ow) of (s, st) \<Rightarrow>
        ow\<lparr>ow_vars := (ow_vars ow)[i := s], ow_state := st\<rparr>)"

definition owned_vars :: "scoped_ref list \<Rightarrow> nat multiset" where
  "owned_vars vs = sum_list (map (\<lambda>s. ref_set (local_ref s)) vs)"

text \<open>A reference is handed to an owner only while no other owner of the scope holds it.\<close>

fun fresh_op :: "scope_op \<Rightarrow> owners \<Rightarrow> bool" where
  "fresh_op (Construct r) ow = (r \<notin># owned_vars (ow_vars ow))"
| "fresh_op (Reset i p) ow = (p = local_ref (at_var i ow) \<or> p \<notin># owned_vars (ow_vars ow))"
| "fresh_op _ ow = True"

fun run_ops :: "vm \<Rightarrow> scope_op list \<Rightarrow> owners \<Rightarrow> owners" where
  "run_ops vm [] ow = ow"
| "run_ops vm (c # cs) ow = run_ops vm cs (run_scope vm c ow)"

fun fresh_ops :: "vm \<Rightarrow> scope_op list \<Rightarrow> owners \<Rightarrow> bool" where
  "fresh_ops vm [] ow = True"
| "fresh_ops vm (c # cs) ow = (fresh_op c ow \<and> fresh_ops vm cs (run_scope vm c ow))"

definition new_scope :: "jstate \<Rightarrow> owners" where
  "new_scope st = \<lparr>ow_vars = [], ow_state = st, ow_given = {#}, ow_out = {#}\<rparr>"

lemma deleted_jdo [simp]:
  "deleted (j_hist (jdo vm Env_DeleteLocalRef [J_ref r] st)) = deleted (j_hist st) + ref_set r"
  by (simp add: jdo_def jcall_def deleted_def split: prod.split)

lemma deleted_reset:
  assumes "reset vm p s st = (s', st')"
  shows "deleted (j_hist st') = deleted (j_hist st) + (if p = local_ref s then {#} else ref_set (local_ref s))"
    and "local_ref s' = p"
  using assms by (auto simp: reset_def split: if_splits)

lemma owned_vars_append [simp]: "owned_vars (vs @ ws) = owned_vars vs + owned_vars ws"
  by (simp add: owned_vars_def)

lemma owned_vars_simps [simp]:
  "owned_vars [] = {#}" "owned_vars (s # vs) = ref_set (local_ref s) + owned_vars vs"
  by (simp_all add: owned_vars_def)

lemma owned_vars_update:
  assumes "i < length vs"
  shows "owned_vars (vs[i := s]) + ref_set (local_ref (vs ! i)) = owned_vars vs + ref_set (local_ref s)"
  using assms by (induction vs arbitrary: i) (auto simp: add_ac less_Suc_eq_0_disj)

lemma owned_vars_other:
  assumes "i < length vs" and "j < length vs" and "i \<noteq> j"
  shows "ref_set (local_ref (vs ! i)) + ref_set (local_ref (vs ! j)) \<subseteq># owned_vars vs"
proof -
  have "owned_vars (vs[i := \<lparr>local_ref = 0\<rparr>]) + ref_set (local_ref (vs ! i)) = owned_vars vs"
    using owned_vars_update [OF assms(1), of "\<lparr>local_ref = 0\<rparr>"] by simp
  moreover have "owned_vars (vs[i := \<lparr>local_ref = 0\<rparr>, j := \<lparr>local_ref = 0\<rparr>]) + ref_set (local_ref (vs ! j)) =
      owned_vars (vs[i := \<lparr>local_ref = 0\<rparr>])"
    using owned_vars_update [of j "vs[i := \<lparr>local_ref = 0\<rparr>]" "\<lparr>local_ref = 0\<rparr>"] assms by simp
  ultimately have "owned_vars vs = owned_vars (vs[i := \<lparr>local_ref = 0\<rparr>, j := \<lparr>local_ref = 0\<rparr>]) +
      (ref_set (local_ref (vs ! i)) + ref_set (local_ref (vs ! j)))"
    by (simp add: add_ac)
  then show ?thesis by (simp only: mset_subset_eq_add_right)
qed

definition conserved :: "jevent list \<Rightarrow> owners \<Rightarrow> bool" where
  "conserved h0 ow \<longleftrightarrow>
     ow_given ow + deleted h0 = owned_vars (ow_vars ow) + deleted (j_hist (ow_state ow)) + ow_out ow \<and>
     (\<forall>r. count (owned_vars (ow_vars ow)) r \<le> 1)"

lemma at_var_in: "i < length (ow_vars ow) \<Longrightarrow> at_var i ow = ow_vars ow ! i"
  and at_var_out: "\<not> i < length (ow_vars ow) \<Longrightarrow> local_ref (at_var i ow) = 0"
  by (simp_all add: at_var_def)

text \<open>Two different owners never hold the same reference.\<close>

lemma owners_differ:
  assumes "conserved h0 ow" and "i < length (ow_vars ow)" and "j < length (ow_vars ow)" and "i \<noteq> j"
    and "local_ref (ow_vars ow ! i) = local_ref (ow_vars ow ! j)"
  shows "local_ref (ow_vars ow ! i) = 0"
proof (rule ccontr)
  assume nz: "\<not> ?thesis"
  let ?r = "local_ref (ow_vars ow ! i)"
  from owned_vars_other [OF assms(2,3,4)] have "count ({#?r#} + {#?r#}) ?r \<le> count (owned_vars (ow_vars ow)) ?r"
    using nz assms(5) by (intro mset_subset_eq_count) simp
  with assms(1) show False by (auto simp: conserved_def dest: spec [of _ ?r])
qed

lemma conserved_step:
  assumes "conserved h0 ow"
    and "owned_vars (ow_vars ow') + A = owned_vars (ow_vars ow) + B"
    and "ow_given ow' = ow_given ow + G"
    and "deleted (j_hist (ow_state ow')) = deleted (j_hist (ow_state ow)) + D"
    and "ow_out ow' = ow_out ow + K"
    and "G + A = B + D + K"
    and "\<And>r. count (owned_vars (ow_vars ow')) r \<le> 1"
  shows "conserved h0 ow'"
proof -
  have "count (ow_given ow' + deleted h0) r =
      count (owned_vars (ow_vars ow') + deleted (j_hist (ow_state ow')) + ow_out ow') r" for r
  proof -
    note c = arg_cong [of _ _ "\<lambda>m. count m r"]
    have "ow_given ow + deleted h0 = owned_vars (ow_vars ow) + deleted (j_hist (ow_state ow)) + ow_out ow"
      using assms(1) by (simp add: conserved_def)
    from c [OF this] c [OF assms(2)] c [OF assms(6)] show ?thesis by (simp add: assms(3-5))
  qed
  then show ?thesis using assms(7) unfolding conserved_def by (blast intro: multiset_eqI)
qed

lemma count_le_swap:
  assumes "X + A = Y + B" and "\<And>r. count Y r \<le> (1 :: nat)" and "\<And>r. r \<in># B \<Longrightarrow> r \<in># A \<or> r \<notin># Y" and "\<And>r. count B r \<le> 1"
  shows "count X r \<le> 1"
proof -
  have e: "count X r + count A r = count Y r + count B r" using arg_cong [OF assms(1), of "\<lambda>m. count m r"] by simp
  show ?thesis
  proof (cases "r \<in># B")
    case True
    then consider "count A r \<ge> 1" | "count Y r = 0" using assms(3) [of r] by (auto simp: not_in_iff Suc_le_eq)
    then show ?thesis using e assms(2) [of r] assms(4) [of r] by cases linarith+
  next
    case False
    then show ?thesis using e assms(2) [of r] by (simp add: not_in_iff)
  qed
qed

lemma count_ref_set: "count (ref_set r) x \<le> Suc 0" "x \<in># ref_set r \<longleftrightarrow> x = r \<and> r \<noteq> 0"
  by (auto simp: ref_set_def)

lemma reset_conserved:
  assumes "conserved h0 ow" and "i < length (ow_vars ow)" and "reset vm p (at_var i ow) (ow_state ow) = (s, st)"
    and "p = local_ref (at_var i ow) \<or> p = 0 \<or> p \<notin># owned_vars (ow_vars ow)"
  shows "conserved h0 (ow\<lparr>ow_vars := (ow_vars ow)[i := s], ow_state := st,
      ow_given := ow_given ow + (if p = local_ref (at_var i ow) then {#} else ref_set p)\<rparr>)"
proof -
  note d = deleted_reset [OF assms(3)]
  have u: "owned_vars ((ow_vars ow)[i := s]) + ref_set (local_ref (at_var i ow)) = owned_vars (ow_vars ow) + ref_set p"
    using owned_vars_update [OF assms(2), of s] d(2) by (simp add: at_var_in assms(2))
  show ?thesis
  proof (rule conserved_step [OF assms(1), where K = "{#}" and
        D = "if p = local_ref (at_var i ow) then {#} else ref_set (local_ref (at_var i ow))"])
    show "owned_vars (ow_vars (ow\<lparr>ow_vars := (ow_vars ow)[i := s], ow_state := st,
        ow_given := ow_given ow + (if p = local_ref (at_var i ow) then {#} else ref_set p)\<rparr>)) +
        ref_set (local_ref (at_var i ow)) = owned_vars (ow_vars ow) + ref_set p"
      using u by simp
    show "count (owned_vars (ow_vars (ow\<lparr>ow_vars := (ow_vars ow)[i := s], ow_state := st,
        ow_given := ow_given ow + (if p = local_ref (at_var i ow) then {#} else ref_set p)\<rparr>))) r \<le> 1" for r
      using count_le_swap [OF u, of r] assms(1,4) by (auto simp: conserved_def count_ref_set)
  qed (use d in auto)
qed

lemma move_simps:
  "move_ScopedLocalRef vm s st = (\<lparr>local_ref = local_ref s\<rparr>, s\<lparr>local_ref := 0\<rparr>, st)"
  "self_assign_ScopedLocalRef vm s st = (s, st)"
  by (simp_all add: move_ScopedLocalRef_def self_assign_ScopedLocalRef_def release_def reset_def)

lemma owned_vars_clear:
  "owned_vars ((ow_vars ow)[i := (at_var i ow)\<lparr>local_ref := 0\<rparr>]) + ref_set (local_ref (at_var i ow)) =
   owned_vars (ow_vars ow)"
  using owned_vars_update [of i "ow_vars ow" "(at_var i ow)\<lparr>local_ref := 0\<rparr>"]
  by (cases "i < length (ow_vars ow)") (simp_all add: at_var_in at_var_out list_update_beyond)

lemma cancel_swap: "X + A = Y \<Longrightarrow> Y + B = Z + A \<Longrightarrow> X + B = (Z :: 'a multiset)"
proof -
  assume "X + A = Y" and "Y + B = Z + A"
  then have "(X + A) + B = Z + A" by simp
  then have "(X + B) + A = Z + A" by (simp only: add.assoc add.commute [of A B])
  then show "X + B = Z" by (simp only: add_right_cancel)
qed

lemma count_sub: "X + A = Y \<Longrightarrow> (\<And>r. count Y r \<le> (1 :: nat)) \<Longrightarrow> count X r \<le> 1"
  by (rule count_le_swap [of X A Y "{#}"]) auto

lemma assign_conserved:
  assumes "conserved h0 ow" and "i < length (ow_vars ow)" and "j < length (ow_vars ow)" and "i \<noteq> j"
    and "assign_ScopedLocalRef vm (at_var i ow) (at_var j ow) (ow_state ow) = (d, s, st)"
  shows "conserved h0 (ow\<lparr>ow_vars := (ow_vars ow)[i := d, j := s], ow_state := st\<rparr>)"
proof -
  let ?vs = "ow_vars ow"
  have v: "at_var i ow = ?vs ! i" "at_var j ow = ?vs ! j" using assms(2,3) by (simp_all add: at_var_in)
  obtain d' where r: "reset vm (local_ref (?vs ! j)) (?vs ! i) (ow_state ow) = (d', st)" and d: "d = d'"
    and s: "s = (?vs ! j)\<lparr>local_ref := 0\<rparr>"
    using assms(5) by (auto simp: assign_ScopedLocalRef_def release_def v split: prod.splits)
  note dr = deleted_reset [OF r]
  have "owned_vars (?vs[i := d, j := s]) + ref_set (local_ref (?vs ! j)) = owned_vars (?vs[i := d])"
    using owned_vars_update [of j "?vs[i := d]" s] assms(3,4) by (simp add: s)
  then have u: "owned_vars (?vs[i := d, j := s]) + ref_set (local_ref (?vs ! i)) = owned_vars ?vs"
    by (rule cancel_swap) (use owned_vars_update [OF assms(2), of d] dr(2) d in simp)
  have eq: "local_ref (?vs ! j) = local_ref (?vs ! i) \<Longrightarrow> local_ref (?vs ! i) = 0"
    using owners_differ [OF assms(1-4)] by simp
  show ?thesis
  proof (rule conserved_step [OF assms(1), where K = "{#}" and G = "{#}" and D = "ref_set (local_ref (?vs ! i))"])
    show "owned_vars (ow_vars (ow\<lparr>ow_vars := ?vs[i := d, j := s], ow_state := st\<rparr>)) +
        ref_set (local_ref (?vs ! i)) = owned_vars ?vs + {#}" using u by simp
    show "count (owned_vars (ow_vars (ow\<lparr>ow_vars := ?vs[i := d, j := s], ow_state := st\<rparr>))) r \<le> 1" for r
      using count_sub [OF u] assms(1) by (simp add: conserved_def)
  qed (use dr(1) eq in auto)
qed

lemma run_scope_conserved:
  assumes "conserved h0 ow" and "fresh_op c ow"
  shows "conserved h0 (run_scope vm c ow)"
proof (cases c)
  case (Construct r)
  have "owned_vars (ow_vars ow) + ref_set r + {#} = owned_vars (ow_vars ow) + ref_set r" by simp
  from count_le_swap [OF this] show ?thesis
    using assms by (intro conserved_step [OF assms(1), of _ "{#}" "ref_set r" "ref_set r" "{#}" "{#}"])
      (auto simp: Construct conserved_def count_ref_set)
next
  case (Move_Construct i)
  have "ow_vars (run_scope vm c ow) = (ow_vars ow)[i := (at_var i ow)\<lparr>local_ref := 0\<rparr>] @ [\<lparr>local_ref = local_ref (at_var i ow)\<rparr>]"
    by (simp add: Move_Construct move_simps)
  then have "owned_vars (ow_vars (run_scope vm c ow)) = owned_vars (ow_vars ow)"
    using owned_vars_clear [of ow i] by (simp add: add_ac)
  then show ?thesis
    using assms by (intro conserved_step [OF assms(1), of _ "{#}" "{#}" "{#}" "{#}" "{#}"])
      (auto simp: Move_Construct move_simps conserved_def)
next
  case (Reset i p)
  show ?thesis
  proof (cases "i < length (ow_vars ow)")
    case True
    obtain s st where r: "reset vm p (at_var i ow) (ow_state ow) = (s, st)" by fastforce
    from reset_conserved [OF assms(1) True r] assms(2) True show ?thesis by (auto simp: Reset r)
  qed (use assms in \<open>simp add: Reset\<close>)
next
  case (Release i)
  from owned_vars_clear [of ow i] count_sub [OF owned_vars_clear] show ?thesis
    using assms by (intro conserved_step [OF assms(1), of _ "ref_set (local_ref (at_var i ow))" "{#}" "{#}" "{#}"
          "ref_set (local_ref (at_var i ow))"]) (auto simp: Release release_def conserved_def)
next
  case (Move_Assign i j)
  have "(ow_vars ow)[i := at_var i ow] = ow_vars ow" by (cases "i < length (ow_vars ow)") (simp_all add: at_var_in list_update_beyond)
  then show ?thesis
    using assms(1) assign_conserved [OF assms(1)] by (auto simp: Move_Assign move_simps split: prod.split)
next
  case (Destroy i)
  obtain s st where r: "reset vm 0 (at_var i ow) (ow_state ow) = (s, st)" by fastforce
  show ?thesis
  proof (cases "i < length (ow_vars ow)")
    case True
    from reset_conserved [OF assms(1) True r] show ?thesis
      by (auto simp: Destroy destroy_ScopedLocalRef_def r split: if_splits)
  next
    case False
    with r have "st = ow_state ow" by (simp add: reset_def at_var_out)
    with assms(1) False show ?thesis by (simp add: Destroy destroy_ScopedLocalRef_def r list_update_beyond)
  qed
qed

lemma run_ops_conserved:
  "conserved h0 ow \<Longrightarrow> fresh_ops vm cs ow \<Longrightarrow> conserved h0 (run_ops vm cs ow)"
  by (induction cs arbitrary: ow) (auto intro: run_scope_conserved)

lemma new_scope_conserved: "conserved (j_hist st) (new_scope st)"
  by (simp add: conserved_def new_scope_def)

text \<open>C16: In any run of constructions, moves, resets, releases and destructions of \<open>ScopedLocalRef\<close> objects, every
  reference handed to one of them is at each moment either still held by exactly one object, or was released to the
  caller, or has been deleted, once.\<close>

theorem references_conserved:
  assumes "fresh_ops vm cs (new_scope st)" and "run_ops vm cs (new_scope st) = ow"
  shows "ow_given ow + deleted (j_hist st) =
      owned_vars (ow_vars ow) + deleted (j_hist (ow_state ow)) + ow_out ow \<and>
    (\<forall>r. count (owned_vars (ow_vars ow)) r \<le> 1)"
  using run_ops_conserved [OF new_scope_conserved assms(1)] assms(2) by (simp add: conserved_def)

theorem references_conserved_witness:
  "\<exists>ow. run_ops (\<lambda>h f args. (J_void, False))
       [Construct 5, Construct 6, Move_Assign 0 1, Move_Construct 0, Reset 2 7, Release 2, Destroy 0, Destroy 1]
       (new_scope \<lparr>j_hist = [], j_static = None\<rparr>) = ow \<and>
     deleted (j_hist (ow_state ow)) = {#5, 6#} \<and> ow_out ow = {#7#} \<and> ow_given ow = {#5, 6, 7#}"
proof -
  let ?vm = "\<lambda>h f args. (J_void, False)" and ?st = "\<lparr>j_hist = [], j_static = None\<rparr>"
  let ?cs = "[Construct 5, Construct 6, Move_Assign 0 1, Move_Construct 0, Reset 2 7, Release 2, Destroy 0, Destroy 1]"
  note run = assign_ScopedLocalRef_def move_ScopedLocalRef_def destroy_ScopedLocalRef_def release_def reset_def
    new_scope_def at_var_def jdo_def jcall_def
  have f: "fresh_ops ?vm ?cs (new_scope ?st)" by (simp add: run)
  obtain ow where ow: "run_ops ?vm ?cs (new_scope ?st) = ow" by simp
  have e: "owned_vars (ow_vars ow) = {#}" "ow_out ow = {#7#}" "ow_given ow = {#5, 6, 7#}"
    using ow [symmetric] by (simp_all add: run)
  have "{#5, 6, 7#} = deleted (j_hist (ow_state ow)) + {#7#}"
    using references_conserved [OF f ow] by (simp add: e deleted_def)
  then have "deleted (j_hist (ow_state ow)) = {#5, 6, 7#} - {#7#}" by (simp only: add_diff_cancel_right')
  also have "\<dots> = {#5, 6#}" by simp
  finally show ?thesis using ow e(2,3) by blast
qed

end
