(* ===== verification/Jni_Safe.thy ===== *)
theory Jni_Safe
  imports Jni_Refs
begin

text \<open>
  Exceptions and elements: a call through \<open>JNI_SafeInvoke\<close> leaves no exception pending, and what becomes of the
  elements of an array when its owner is committed, reset or destroyed.
\<close>

section \<open>Exceptions\<close>

text \<open>The behaviour of the environment these proofs rest on: \<open>ExceptionOccurred\<close> tells whether an exception is
  pending, the functions that may be called with one pending throw none, and printing a stack trace works.\<close>

definition tells_pending :: "vm \<Rightarrow> bool" where
  "tells_pending vm \<longleftrightarrow> (\<forall>h. as_ref (fst (vm h Env_ExceptionOccurred [])) \<noteq> 0 \<longleftrightarrow> pending h)"

definition never_throws :: "vm \<Rightarrow> bool" where
  "never_throws vm \<longleftrightarrow>
     (\<forall>h f args. f \<in> {Env_ExceptionOccurred, Env_ExceptionClear, Env_DeleteLocalRef, Env_ReleaseStringUTFChars} \<longrightarrow>
        \<not> snd (vm h f args))"

definition trace_printed :: "vm \<Rightarrow> nat \<Rightarrow> nat \<Rightarrow> bool" where
  "trace_printed vm g m \<longleftrightarrow>
     (\<forall>h e s. \<not> snd (vm h (Env_CallStaticMethod (Some T_Object)) [J_ref g, J_id m, e]) \<and>
        \<not> snd (vm h Env_GetStringUTFChars [s]))"

lemma pending_jcall:
  assumes "jcall vm f args st = (v, st')"
  shows "pending (j_hist st') \<longleftrightarrow> f \<noteq> Env_ExceptionClear \<and> (pending (j_hist st) \<or> snd (vm (j_hist st) f args))"
  using assms by (auto simp: jcall_def pending_def pend_append split: prod.splits)

lemma pending_jdo:
  "pending (j_hist (jdo vm f args st)) \<longleftrightarrow>
     f \<noteq> Env_ExceptionClear \<and> (pending (j_hist st) \<or> snd (vm (j_hist st) f args))"
  unfolding jdo_def by (metis pending_jcall prod.collapse)

lemma pending_jlog [simp]: "pending (j_hist (jlog s st)) = pending (j_hist st)"
  by (simp add: jlog_def pending_def pend_append)

lemma pending_destroy:
  "never_throws vm \<Longrightarrow> pending (j_hist (snd (destroy_ScopedLocalRef vm s st))) = pending (j_hist st)"
  by (auto simp: destroy_ScopedLocalRef_def reset_def pending_jdo never_throws_def)

lemma ClearException_pending:
  assumes "tells_pending vm" and "never_throws vm" and "trace_printed vm g m" and "j_static st = Some (g, m)"
    and "ClearException vm st = (s, st')"
  shows "\<not> pending (j_hist st')"
proof -
  obtain e st1 where e: "jcall vm Env_ExceptionOccurred [] st = (e, st1)" by fastforce
  have p1: "pending (j_hist st1) = pending (j_hist st)" and "j_static st1 = Some (g, m)"
    using pending_jcall [OF e] moves_jcall_plain(2) [OF e] assms(2,4) by (auto simp: never_throws_def)
  then have st: "log_statics vm (jdo vm Env_ExceptionClear [] st1) = ((g, m), jdo vm Env_ExceptionClear [] st1)"
    by (simp add: log_statics_set)
  obtain c st2 where c: "jcall vm (Env_CallStaticMethod (Some T_Object)) [J_ref g, J_id m, e]
      (jdo vm Env_ExceptionClear [] st1) = (c, st2)" by fastforce
  have p2: "\<not> pending (j_hist st2)"
    using pending_jcall [OF c] assms(3) by (simp add: pending_jdo trace_printed_def)
  have e0: "as_ref e \<noteq> 0 \<longleftrightarrow> pending (j_hist st)"
    using e spec [OF assms(1) [unfolded tells_pending_def], of "j_hist st"]
    by (auto simp: jcall_def split: prod.splits)
  show ?thesis
  proof (cases "as_ref e = 0")
    case True
    with assms(5) p1 e0 show ?thesis by (simp add: ClearException_def e)
  next
    case False
    with assms(5) have "st' = jdo vm Env_DeleteLocalRef [e] st2" by (simp add: ClearException_def e st c)
    with p2 assms(2) show ?thesis by (simp add: pending_jdo never_throws_def)
  qed
qed

lemma finally_clear_pending:
  assumes "tells_pending vm" and "never_throws vm" and "trace_printed vm g m" and "j_static st = Some (g, m)"
  shows "\<not> pending (j_hist (finally_clear vm st))"
proof -
  obtain exc st1 where e: "ClearException vm st = (exc, st1)" by fastforce
  note p1 = ClearException_pending [OF assms e]
  obtain u st2 where u: "JUTFString vm True (local_ref exc) (0, []) st1 = (u, st2)" by fastforce
  obtain c st3 where c: "jcall vm Env_GetStringUTFChars [J_ref (local_ref exc)] st1 = (c, st3)" by fastforce
  have "\<not> pending (j_hist st2)"
    using u p1 pending_jcall [OF c] assms(3) by (auto simp: JUTFString_def c trace_printed_def split: if_splits)
  then have "\<not> pending (j_hist (destroy_JUTFString vm u (jlog x st2)))" for x
    using assms(2) by (simp add: destroy_JUTFString_def pending_jdo never_throws_def)
  with p1 show ?thesis using pending_destroy [OF assms(2)] by (simp add: finally_clear_def e u)
qed

lemma JNI_SafeInvoke_pending:
  assumes "tells_pending vm" and "never_throws vm" and "trace_printed vm g m" and "j_static st = Some (g, m)"
    and "JNI_SafeInvoke vm f args st = (w, st')"
  shows "\<not> pending (j_hist st')"
proof -
  obtain v st1 where c: "jcall vm f (map UnwrapScope args) st = (v, st1)" by fastforce
  have s1: "j_static st1 = Some (g, m)" using moves_jcall(2) [OF c] assms(4) by simp
  obtain w1 st2 where w: "WrapScope vm (result_of f) v st1 = (w1, st2)" by fastforce
  have "st' = finally_clear vm st2" using assms(5) by (simp add: JNI_SafeInvoke_def c w)
  with finally_clear_pending [OF assms(1-3) WrapScope_moves(2) [OF s1 w]] show ?thesis by simp
qed


text \<open>An environment in which a class is not found.\<close>

definition lost_class_vm :: vm where
  "lost_class_vm h f args =
     (case f of
        Env_FindClass \<Rightarrow> (J_ref 0, True)
      | Env_ExceptionOccurred \<Rightarrow> (J_ref (if pending h then 4 else 0), False)
      | Env_CallStaticMethod _ \<Rightarrow> (J_ref 5, False)
      | Env_GetStringUTFChars \<Rightarrow> (J_chars 9 ''not found'', False)
      | _ \<Rightarrow> (J_void, False))"


text \<open>The first exception of a process also costs the local reference to the class that prints it: only the global
  one made from it is kept.\<close>

lemma log_statics_leak:
  assumes "j_static st = None" and "log_statics vm st = (p, st')"
  shows "moves M st st' (M + ref_set (as_ref (fst (vm (j_hist st) Env_FindClass [J_text log_class]))))"
    and "j_static st' = Some p"
proof -
  obtain c st1 where c: "jcall vm Env_FindClass [J_text log_class] st = (c, st1)" by fastforce
  obtain g st2 where g: "jcall vm Env_NewGlobalRef [c] st1 = (g, st2)" by fastforce
  obtain i st3 where i: "jcall vm Env_GetStaticMethodID [J_ref (as_ref g), J_text ''getStackTraceString'',
      J_text ''(Ljava/lang/Throwable;)Ljava/lang/String;''] st2 = (i, st3)" by fastforce
  have st': "st' = st3\<lparr>j_static := Some p\<rparr>" and "p = (as_ref g, as_id i)"
    using assms by (auto simp: log_statics_def c g i)
  have cv: "c = fst (vm (j_hist st) Env_FindClass [J_text log_class])"
    using c by (auto simp: jcall_def split: prod.splits)
  have "moves M st st1 (M + ref_set (as_ref c))" using moves_jcall_plain(1) [OF c, of M] by simp
  also have "moves (M + ref_set (as_ref c)) st1 st2 (M + ref_set (as_ref c))"
    using moves_jcall_plain(1) [OF g, of "M + ref_set (as_ref c)"] by simp
  also have "moves (M + ref_set (as_ref c)) st2 st3 (M + ref_set (as_ref c))"
    using moves_jcall_plain(1) [OF i, of "M + ref_set (as_ref c)"] by simp
  also have "moves (M + ref_set (as_ref c)) st3 st' (M + ref_set (as_ref c))"
    by (simp add: st' moves_def)
  finally show "moves M st st' (M + ref_set (as_ref (fst (vm (j_hist st) Env_FindClass [J_text log_class]))))"
    by (simp add: cv)
  show "j_static st' = Some p" by (simp add: st')
qed

section \<open>Elements of an array\<close>

lemma destroy_array_calls:
  "destroy_array vm a st = jdo vm Env_DeleteLocalRef [J_ref (ar_ref a)] st"
  by (simp add: destroy_array_def release_array_def Let_def ReleaseElements_def drop_elements_def n_elems_def
      split: elements.split)

lemma created_jdo_delete: "created (j_hist (jdo vm Env_DeleteLocalRef args st)) = created (j_hist st)"
  by (simp add: jdo_def jcall_def created_def split: prod.split)

text \<open>The destructor of the owner of an array clears the reference and the size before it gives the elements back,
  so that \<open>DeleteLocalRef\<close> for the array is all it does: elements that were changed are not written back, their
  buffer is not released, and the references to the elements of an array of objects stay.\<close>

lemma array_destructor_loses_elements:
  "(\<exists>v t. j_hist (destroy_array vm a st) = j_hist st @ [Call Env_DeleteLocalRef [J_ref (ar_ref a)] v t]) \<and>
   created (j_hist (destroy_array vm a st)) = created (j_hist st) \<and>
   deleted (j_hist (destroy_array vm a st)) + owned_elems (ar_elems a) = deleted (j_hist st) + owned_array a"
  unfolding destroy_array_calls created_jdo_delete deleted_jdo owned_array_def
  by (auto simp: jdo_def jcall_def split: prod.split)

text \<open>\<open>reset\<close> has the intended order: it releases the elements with their present contents, then deletes the
  reference and those of the elements.  \<open>commit\<close> writes the contents back and keeps them.\<close>

lemma array_put_written_back:
  assumes "ar_ref a \<noteq> 0" and "ar_elems a = E_prim p vs" and "i < length vs" and "array_put i v a = Inr a2"
  shows "snd (commit vm a2 st) =
      jdo vm (Env_ReleaseArrayElements (ar_type a)) [J_ref (ar_ref a), J_buf p (vs[i := v]), J_num JNI_COMMIT] st"
    and "snd (reset_array vm 0 a2 st) =
      jdo vm Env_DeleteLocalRef [J_ref (ar_ref a)]
        (jdo vm (Env_ReleaseArrayElements (ar_type a)) [J_ref (ar_ref a), J_buf p (vs[i := v]), J_num JNI_OK_mode] st)"
  using assms
  by (auto simp: array_put_def array_at_def elem_at_def commit_def ReleaseElements_def reset_array_def Let_def
      release_mode_def drop_elements_def)

lemma array_unmodified_aborted:
  assumes "ar_ref a \<noteq> 0" and "ar_elems a = E_prim p vs" and "\<not> ar_modified a"
  shows "snd (reset_array vm 0 a st) =
      jdo vm Env_DeleteLocalRef [J_ref (ar_ref a)]
        (jdo vm (Env_ReleaseArrayElements (ar_type a)) [J_ref (ar_ref a), J_buf p vs, J_num JNI_ABORT] st)"
  using assms by (simp add: ReleaseElements_def reset_array_def Let_def release_mode_def drop_elements_def)

text \<open>The owner made from a null reference never learns its size.\<close>

lemma null_array_uninitialised:
  "ScopedLocalRef_array vm t 0 st = (blank_array t, st)" "array_size (blank_array t) = Inl Uninit_Read"
  by (simp_all add: ScopedLocalRef_array_def reset_array_def array_size_def blank_array_def)

text \<open>A loop from \<open>begin\<close> to \<open>end\<close> visits each element once and in order.\<close>

definition elem_list :: "elements \<Rightarrow> jval list" where
  "elem_list es = (case es of E_null \<Rightarrow> [] | E_objs rs \<Rightarrow> map (\<lambda>s. J_ref (local_ref s)) rs | E_prim _ vs \<Rightarrow> vs)"

lemma elem_at_list: "es \<noteq> E_null \<Longrightarrow> elem_at es i = (if i < length (elem_list es) then Inr (elem_list es ! i) else Inl Out_Of_Bounds)"
  by (cases es) (simp_all add: elem_at_def elem_list_def)

lemma it_visit_drop:
  assumes "ar_elems a \<noteq> E_null" and "k + e = length (elem_list (ar_elems a))"
  shows "it_visit k a (int e) (int (length (elem_list (ar_elems a)))) = Some (Inr (drop e (elem_list (ar_elems a))))"
  using assms(2)
proof (induction k arbitrary: e)
  case (Suc k)
  let ?l = "elem_list (ar_elems a)"
  have lt: "e < length ?l" using Suc.prems by simp
  have "it_visit k a (int (Suc e)) (int (length ?l)) = Some (Inr (drop (Suc e) ?l))"
    using Suc.prems by (intro Suc.IH) simp
  then show ?case
    using lt by (simp add: it_deref_def elem_at_list [OF assms(1)] it_next_def Cons_nth_drop_Suc algebra_simps)
qed simp

lemma it_visit_all:
  assumes "ar_elems a \<noteq> E_null" and "array_size a = Inr (length (elem_list (ar_elems a)))"
  shows "\<exists>fin. it_cend a = Inr fin \<and>
    it_visit (length (elem_list (ar_elems a))) a (it_cbegin a) fin = Some (Inr (elem_list (ar_elems a)))"
  using it_visit_drop [OF assms(1), of "length (elem_list (ar_elems a))" 0] assms(2)
  by (simp add: it_cend_def it_cbegin_def)

section \<open>Texts\<close>

text \<open>A moved \<open>JUTFString\<close> keeps its string: when both objects are destroyed the characters are released once, and
  \<open>ReleaseStringUTFChars\<close> is called a second time with a null pointer.\<close>

lemma moved_text_released_twice:
  assumes "u_env u" and "u_jstr u \<noteq> 0" and "move_JUTFString u = (n, x)"
  shows "destroy_JUTFString vm x (destroy_JUTFString vm n st) =
    jdo vm Env_ReleaseStringUTFChars [J_ref (u_jstr u), J_chars 0 []]
      (jdo vm Env_ReleaseStringUTFChars [J_ref (u_jstr u), J_chars (fst (u_cstr u)) (snd (u_cstr u))] st)"
  using assms by (auto simp: move_JUTFString_def destroy_JUTFString_def)

end
