(* ===== verification/Art_Method.thy ===== *)
theory Art_Method
  imports Jni_Safe
begin

text \<open>
  \<open>loader/src/injector/art_method.hpp\<close>: how the library finds the layout of the runtime's method objects, from the
  distance of the objects behind the first two constructors of \<open>Throwable\<close>, and reads the native pointer of one.
\<close>

section \<open>Definitions\<close>

record art_statics =
  art_method_field :: nat
  art_method_size :: u64
  entry_point_offset :: u64
  data_offset :: u64

definition kPointerSize :: u64 where "kPointerSize = 8"

text \<open>A pointer is read from the memory of the process; \<open>mem\<close> has the words at mapped addresses.\<close>

definition GetData :: "(u64 \<Rightarrow> u64 option) \<Rightarrow> art_statics \<Rightarrow> u64 \<Rightarrow> u64 res" where
  "GetData mem a this = (case mem (this + data_offset a) of None \<Rightarrow> Inl Null_Deref | Some p \<Rightarrow> Inr p)"

definition FromReflectedMethod :: "vm \<Rightarrow> art_statics \<Rightarrow> jval \<Rightarrow> jstate \<Rightarrow> u64 \<times> jstate" where
  "FromReflectedMethod vm a method st =
     (if art_method_field a \<noteq> 0
      then (case JNI_GetField vm T_Long (A_raw method) (art_method_field a) st of (w, st1) \<Rightarrow>
              (word_of_int (as_num (raw w)), st1))
      else (case jcall vm Env_FromReflectedMethod [method] st of (v, st1) \<Rightarrow> (word_of_nat (as_id v), st1)))"

text \<open>The objects of the function in the reverse order of their construction.\<close>

definition init_end :: "vm \<Rightarrow> array_ref \<Rightarrow> scoped_ref \<Rightarrow> scoped_ref \<Rightarrow> scoped_ref \<Rightarrow> jstate \<Rightarrow> jstate" where
  "init_end vm constructors clazz throwable executable st =
     snd (destroy_ScopedLocalRef vm executable
       (snd (destroy_ScopedLocalRef vm throwable
         (snd (destroy_ScopedLocalRef vm clazz (destroy_array vm constructors st))))))"

text \<open>From the two method objects to the offsets.\<close>

definition set_sizes :: "u64 \<Rightarrow> u64 \<Rightarrow> art_statics \<Rightarrow> art_statics" where
  "set_sizes first second a =
     (let size = second - first; entry = size - kPointerSize
      in a\<lparr>art_method_size := size, entry_point_offset := entry, data_offset := entry - kPointerSize\<rparr>)"

definition measure_methods :: "vm \<Rightarrow> array_ref \<Rightarrow> art_statics \<Rightarrow> jstate \<Rightarrow> (art_statics \<times> jstate) res" where
  "measure_methods vm constructors a st =
     bind_r (array_at_const 0 constructors) (\<lambda>first_ctor.
     bind_r (array_at_const 1 constructors) (\<lambda>second_ctor.
       case FromReflectedMethod vm a first_ctor st of (first, st1) \<Rightarrow>
       case FromReflectedMethod vm a second_ctor st1 of (second, st2) \<Rightarrow> Inr (set_sizes first second a, st2)))"

text \<open>The part of \<open>Init\<close> from the call of \<open>getDeclaredConstructors\<close> on.\<close>

definition init_measure ::
  "vm \<Rightarrow> art_statics \<Rightarrow> scoped_ref \<Rightarrow> scoped_ref \<Rightarrow> scoped_ref \<Rightarrow> nat \<Rightarrow> jstate \<Rightarrow> (bool \<times> art_statics \<times> jstate) res" where
  "init_measure vm a executable throwable clazz mid st =
     (case JNI_CallMethod vm (Some T_Object) (A_scoped throwable) mid [] st of (res, st1) \<Rightarrow>
      case JNI_Cast_array vm T_Object (scoped res) st1 of (constructors, _, st2) \<Rightarrow>
        bind_r (array_size constructors) (\<lambda>n.
          if n < 2 then Inr (False, a, init_end vm constructors clazz throwable executable st2)
          else
            bind_r (measure_methods vm constructors a st2) (\<lambda>(a', st3).
              Inr (True, a', init_end vm constructors clazz throwable executable st3))))"

definition art_Init :: "vm \<Rightarrow> art_statics \<Rightarrow> jstate \<Rightarrow> (bool \<times> art_statics \<times> jstate) res" where
  "art_Init vm a st =
     (case ScopedLocalRef vm 0 st of (executable0, st0) \<Rightarrow>
      case JNI_FindClass vm (lit ''java/lang/reflect/Executable'') st0 of (found, st1) \<Rightarrow>
      case assign_ScopedLocalRef vm executable0 found st1 of (executable, _, st2) \<Rightarrow>
      if local_ref executable = 0 then Inr (False, a, snd (destroy_ScopedLocalRef vm executable st2))
      else
        (case JNI_GetFieldID vm (A_scoped executable) (lit ''artMethod'') (lit ''J'') st2 of (fid, st3) \<Rightarrow>
         let a1 = a\<lparr>art_method_field := as_id fid\<rparr> in
         if as_id fid = 0 then Inr (False, a1, snd (destroy_ScopedLocalRef vm executable st3))
         else
           (case JNI_FindClass vm (lit ''java/lang/Throwable'') st3 of (throwable, st4) \<Rightarrow>
            if local_ref throwable = 0
            then Inr (False, a1, snd (destroy_ScopedLocalRef vm executable (snd (destroy_ScopedLocalRef vm throwable st4))))
            else
              (case JNI_FindClass vm (lit ''java/lang/Class'') st4 of (clazz, st5) \<Rightarrow>
               case JNI_GetMethodID vm (A_scoped clazz) (lit ''getDeclaredConstructors'')
                   (lit ''()[Ljava/lang/reflect/Constructor;'') st5 of (mid, st6) \<Rightarrow>
                 init_measure vm a1 executable throwable clazz (as_id mid) st6))))"

section \<open>Calls that are answered\<close>

definition answers :: "vm \<Rightarrow> env_fn \<Rightarrow> jval list \<Rightarrow> jval \<Rightarrow> bool" where
  "answers vm f args v \<longleftrightarrow> (\<forall>h. vm h f args = (v, False))"

definition calm :: "jstate \<Rightarrow> bool" where "calm st \<longleftrightarrow> \<not> pending (j_hist st)"

lemma finally_calm:
  assumes "tells_pending vm" and "never_throws vm" and "calm st"
  shows "calm (finally_clear vm st)"
proof -
  obtain e st1 where e: "jcall vm Env_ExceptionOccurred [] st = (e, st1)" by fastforce
  have "as_ref e = 0"
    using e spec [OF assms(1) [unfolded tells_pending_def], of "j_hist st"] assms(3)
    by (auto simp: jcall_def calm_def split: prod.splits)
  then have "finally_clear vm st = st1"
    by (simp add: finally_clear_def ClearException_def e destroy_ScopedLocalRef_def reset_def)
  then show ?thesis
    using pending_jcall [OF e] assms(2,3) by (auto simp: calm_def never_throws_def)
qed

lemma invoke_answered:
  assumes "tells_pending vm" and "never_throws vm" and "answers vm f (map UnwrapScope args) v" and "calm st"
    and "f \<noteq> Env_ExceptionClear"
  shows "\<exists>st'. calm st' \<and> invoke_value vm f args st = (v, st')"
    and "result_of f = K_object \<Longrightarrow> \<exists>st'. calm st' \<and> invoke_scoped vm f args st = (\<lparr>local_ref = as_ref v\<rparr>, st')"
    and "result_of f = K_object \<Longrightarrow> \<exists>st'. calm st' \<and> JNI_SafeInvoke vm f args st = (W_scoped \<lparr>local_ref = as_ref v\<rparr>, st')"
    and "result_of f = K_value \<Longrightarrow> \<exists>st'. calm st' \<and> invoke_raw vm f args st = (v, st')"
    and "result_of f = K_value \<Longrightarrow> \<exists>st'. calm st' \<and> JNI_SafeInvoke vm f args st = (W_raw v, st')"
proof -
  obtain st1 where c: "jcall vm f (map UnwrapScope args) st = (v, st1)"
    using assms(3) by (simp add: jcall_def answers_def)
  have "calm st1" using pending_jcall [OF c] assms(3,4) by (simp add: calm_def answers_def)
  from finally_calm [OF assms(1,2) this] have "calm (finally_clear vm st1)" .
  then show "\<exists>st'. calm st' \<and> invoke_value vm f args st = (v, st')"
    and "result_of f = K_object \<Longrightarrow> \<exists>st'. calm st' \<and> invoke_scoped vm f args st = (\<lparr>local_ref = as_ref v\<rparr>, st')"
    and "result_of f = K_object \<Longrightarrow> \<exists>st'. calm st' \<and> JNI_SafeInvoke vm f args st = (W_scoped \<lparr>local_ref = as_ref v\<rparr>, st')"
    and "result_of f = K_value \<Longrightarrow> \<exists>st'. calm st' \<and> invoke_raw vm f args st = (v, st')"
    and "result_of f = K_value \<Longrightarrow> \<exists>st'. calm st' \<and> JNI_SafeInvoke vm f args st = (W_raw v, st')"
    by (simp_all add: invoke_value_def invoke_scoped_def invoke_raw_def JNI_SafeInvoke_def WrapScope_def c)
qed

lemma lit_simps [simp]:
  "UnwrapScope (lit s) = J_text (c_str s)" "UnwrapScope (idn i) = J_id i" "UnwrapScope (num n) = J_num n"
  by (simp_all add: lit_def idn_def num_def)

lemma jcall_answered:
  assumes "answers vm f args v" and "calm st" and "f \<noteq> Env_ExceptionClear"
  shows "\<exists>st'. calm st' \<and> jcall vm f args st = (v, st')"
proof -
  obtain st' where c: "jcall vm f args st = (v, st')" using assms(1) by (simp add: jcall_def answers_def)
  with pending_jcall [OF c] assms show ?thesis by (auto simp: calm_def answers_def)
qed

lemma get_elements_answered:
  assumes "tells_pending vm" and "never_throws vm" and "calm st"
    and "\<And>j. i \<le> j \<Longrightarrow> j < i + n \<Longrightarrow> answers vm Env_GetObjectArrayElement [J_ref arr, J_num (int j)] (J_ref (r j))"
  shows "\<exists>st'. calm st' \<and> get_elements vm arr i n st = (map (\<lambda>j. \<lparr>local_ref = r j\<rparr>) [i..<i + n], st')"
  using assms(3,4)
proof (induction n arbitrary: i st)
  case (Suc n)
  have "answers vm Env_GetObjectArrayElement (map UnwrapScope [A_raw (J_ref arr), A_raw (J_num (int i))]) (J_ref (r i))"
    using Suc.prems(2) [of i] by simp
  from invoke_answered(1) [OF assms(1,2) this Suc.prems(1)]
  obtain st1 where s1: "calm st1"
    "invoke_value vm Env_GetObjectArrayElement [A_raw (J_ref arr), A_raw (J_num (int i))] st = (J_ref (r i), st1)" by auto
  from Suc.IH [OF s1(1), of "Suc i"] Suc.prems(2)
  obtain st2 where "calm st2" "get_elements vm arr (Suc i) n st1 = (map (\<lambda>j. \<lparr>local_ref = r j\<rparr>) [Suc i..<Suc i + n], st2)"
    by fastforce
  then show ?case using s1(2) by (simp add: upt_conv_Cons del: upt_Suc)
qed simp

lemma calm_destroy: "never_throws vm \<Longrightarrow> calm st \<Longrightarrow> calm (snd (destroy_ScopedLocalRef vm s st))"
  by (simp add: calm_def pending_destroy)

lemma calm_destroy_array: "never_throws vm \<Longrightarrow> calm st \<Longrightarrow> calm (destroy_array vm a st)"
  by (simp add: calm_def destroy_array_calls pending_jdo never_throws_def)

lemma calm_init_end: "never_throws vm \<Longrightarrow> calm st \<Longrightarrow> calm (init_end vm k c t e st)"
  by (simp add: init_end_def calm_destroy calm_destroy_array)

section \<open>The runtime's reflection\<close>

text \<open>What \<open>Init\<close> asks the runtime for: the classes (references \<open>e\<close>, \<open>t\<close>, \<open>c\<close>), the field, the method, the array
  of constructors with its elements, and the addresses in the first two of them.\<close>

record reflection =
  rf_executable :: nat
  rf_field :: nat
  rf_throwable :: nat
  rf_class :: nat
  rf_method :: nat
  rf_array :: nat
  rf_count :: nat
  rf_ctor :: "nat \<Rightarrow> nat"
  rf_first :: u64
  rf_second :: u64

definition reflects_classes :: "vm \<Rightarrow> reflection \<Rightarrow> bool" where
  "reflects_classes vm R \<longleftrightarrow>
     answers vm Env_FindClass [J_text ''java/lang/reflect/Executable''] (J_ref (rf_executable R)) \<and> rf_executable R \<noteq> 0 \<and>
     answers vm Env_GetFieldID [J_ref (rf_executable R), J_text ''artMethod'', J_text ''J''] (J_id (rf_field R)) \<and>
     rf_field R \<noteq> 0 \<and>
     answers vm Env_FindClass [J_text ''java/lang/Throwable''] (J_ref (rf_throwable R)) \<and> rf_throwable R \<noteq> 0 \<and>
     answers vm Env_FindClass [J_text ''java/lang/Class''] (J_ref (rf_class R)) \<and>
     answers vm Env_GetMethodID
       [J_ref (rf_class R), J_text ''getDeclaredConstructors'', J_text ''()[Ljava/lang/reflect/Constructor;'']
       (J_id (rf_method R))"

definition reflects :: "vm \<Rightarrow> reflection \<Rightarrow> bool" where
  "reflects vm R \<longleftrightarrow>
     reflects_classes vm R \<and> rf_array R \<noteq> 0 \<and> rf_count R \<ge> 2 \<and>
     answers vm (Env_CallMethod (Some T_Object)) [J_ref (rf_throwable R), J_id (rf_method R)] (J_ref (rf_array R)) \<and>
     answers vm Env_GetArrayLength [J_ref (rf_array R)] (J_num (int (rf_count R))) \<and>
     (\<forall>j < rf_count R. answers vm Env_GetObjectArrayElement [J_ref (rf_array R), J_num (int j)] (J_ref (rf_ctor R j))) \<and>
     answers vm (Env_GetField T_Long) [J_ref (rf_ctor R 0), J_id (rf_field R)] (J_num (uint (rf_first R))) \<and>
     answers vm (Env_GetField T_Long) [J_ref (rf_ctor R 1), J_id (rf_field R)] (J_num (uint (rf_second R)))"

text \<open>The steps up to the array of constructors.\<close>

lemma Init_prefix:
  assumes "tells_pending vm" and "never_throws vm" and "reflects_classes vm R" and "calm st"
  shows "\<exists>st6. calm st6 \<and> art_Init vm a st =
    init_measure vm (a\<lparr>art_method_field := rf_field R\<rparr>) \<lparr>local_ref = rf_executable R\<rparr> \<lparr>local_ref = rf_throwable R\<rparr>
      \<lparr>local_ref = rf_class R\<rparr> (rf_method R) st6"
proof -
  note R = assms(3) [unfolded reflects_classes_def]
  note inv = invoke_answered [OF assms(1,2)]
  have lits: "c_str ''java/lang/reflect/Executable'' = ''java/lang/reflect/Executable''" "c_str ''artMethod'' = ''artMethod''"
    "c_str ''J'' = ''J''" "c_str ''java/lang/Throwable'' = ''java/lang/Throwable''" "c_str ''java/lang/Class'' = ''java/lang/Class''"
    "c_str ''getDeclaredConstructors'' = ''getDeclaredConstructors''"
    "c_str ''()[Ljava/lang/reflect/Constructor;'' = ''()[Ljava/lang/reflect/Constructor;''"
    by (simp_all add: c_str_def)
  obtain st1 where s1: "calm st1" "JNI_FindClass vm (lit ''java/lang/reflect/Executable'') st = (\<lparr>local_ref = rf_executable R\<rparr>, st1)"
    using inv(2) [of Env_FindClass "[lit ''java/lang/reflect/Executable'']" "J_ref (rf_executable R)" st] R assms(4)
    by (auto simp: JNI_FindClass_def lits)
  obtain st2 where s2: "calm st2" "JNI_GetFieldID vm (A_scoped \<lparr>local_ref = rf_executable R\<rparr>) (lit ''artMethod'') (lit ''J'') st1 =
      (J_id (rf_field R), st2)"
    using inv(4) [of Env_GetFieldID "[A_scoped \<lparr>local_ref = rf_executable R\<rparr>, lit ''artMethod'', lit ''J'']"
        "J_id (rf_field R)" st1] R s1(1) by (auto simp: JNI_GetFieldID_def lits)
  obtain st3 where s3: "calm st3" "JNI_FindClass vm (lit ''java/lang/Throwable'') st2 = (\<lparr>local_ref = rf_throwable R\<rparr>, st3)"
    using inv(2) [of Env_FindClass "[lit ''java/lang/Throwable'']" "J_ref (rf_throwable R)" st2] R s2(1)
    by (auto simp: JNI_FindClass_def lits)
  obtain st4 where s4: "calm st4" "JNI_FindClass vm (lit ''java/lang/Class'') st3 = (\<lparr>local_ref = rf_class R\<rparr>, st4)"
    using inv(2) [of Env_FindClass "[lit ''java/lang/Class'']" "J_ref (rf_class R)" st3] R s3(1)
    by (auto simp: JNI_FindClass_def lits)
  obtain st5 where s5: "calm st5" "JNI_GetMethodID vm (A_scoped \<lparr>local_ref = rf_class R\<rparr>) (lit ''getDeclaredConstructors'')
      (lit ''()[Ljava/lang/reflect/Constructor;'') st4 = (J_id (rf_method R), st5)"
    using inv(4) [of Env_GetMethodID "[A_scoped \<lparr>local_ref = rf_class R\<rparr>, lit ''getDeclaredConstructors'',
        lit ''()[Ljava/lang/reflect/Constructor;'']" "J_id (rf_method R)" st4] R s4(1) by (auto simp: JNI_GetMethodID_def lits)
  have "assign_ScopedLocalRef vm \<lparr>local_ref = 0\<rparr> \<lparr>local_ref = rf_executable R\<rparr> st1 = (\<lparr>local_ref = rf_executable R\<rparr>, \<lparr>local_ref = 0\<rparr>, st1)"
    by (simp add: assign_ScopedLocalRef_def release_def reset_def)
  then show ?thesis using R s5(1)
    by (intro exI [of _ st5]) (simp add: art_Init_def s1(2) s2(2) s3(2) s4(2) s5(2) Let_def)
qed

lemma array_answered:
  assumes "tells_pending vm" and "never_throws vm" and "reflects vm R" and "calm st"
  shows "\<exists>k st'. calm st' \<and> JNI_Cast_array vm T_Object \<lparr>local_ref = rf_array R\<rparr> st = (k, \<lparr>local_ref = 0\<rparr>, st') \<and>
    array_size k = Inr (rf_count R) \<and> ar_elems k = E_objs (map (\<lambda>j. \<lparr>local_ref = rf_ctor R j\<rparr>) [0..<rf_count R])"
proof -
  note R = assms(3) [unfolded reflects_def]
  obtain st1 where l: "calm st1" "jcall vm Env_GetArrayLength [J_ref (rf_array R)] st = (J_num (int (rf_count R)), st1)"
    using jcall_answered [of vm Env_GetArrayLength] R assms(4) by fastforce
  obtain st2 where g: "calm st2" "get_elements vm (rf_array R) 0 (rf_count R) st1 =
      (map (\<lambda>j. \<lparr>local_ref = rf_ctor R j\<rparr>) [0..<rf_count R], st2)"
    using get_elements_answered [OF assms(1,2) l(1), of 0 "rf_count R" "rf_array R" "rf_ctor R"] R by auto
  show ?thesis using R g(1)
    by (simp add: JNI_Cast_array_def array_of_scoped_def release_def ScopedLocalRef_array_def reset_array_def
        blank_array_def l(2) g(2) array_size_def)
qed

lemma measure_answered:
  assumes "tells_pending vm" and "never_throws vm" and "reflects vm R" and "calm st"
    and "ar_elems k = E_objs (map (\<lambda>j. \<lparr>local_ref = rf_ctor R j\<rparr>) [0..<rf_count R])" and "art_method_field a = rf_field R"
  shows "\<exists>st'. calm st' \<and> measure_methods vm k a st = Inr (set_sizes (rf_first R) (rf_second R) a, st')"
proof -
  note R = assms(3) [unfolded reflects_def reflects_classes_def]
  note inv = invoke_answered(5) [OF assms(1,2)]
  obtain st1 where s1: "calm st1" "FromReflectedMethod vm a (J_ref (rf_ctor R 0)) st = (rf_first R, st1)"
    using inv [of "Env_GetField T_Long" "[A_raw (J_ref (rf_ctor R 0)), idn (rf_field R)]" "J_num (uint (rf_first R))" st]
      R assms(4,6) by (auto simp: FromReflectedMethod_def JNI_GetField_def)
  obtain st2 where s2: "calm st2" "FromReflectedMethod vm a (J_ref (rf_ctor R 1)) st1 = (rf_second R, st2)"
    using inv [of "Env_GetField T_Long" "[A_raw (J_ref (rf_ctor R 1)), idn (rf_field R)]" "J_num (uint (rf_second R))" st1]
      R s1(1) assms(6) by (auto simp: FromReflectedMethod_def JNI_GetField_def)
  show ?thesis using R s1 s2
    by (simp add: measure_methods_def array_at_const_def assms(5) elem_at_def)
qed

lemma art_Init_answered:
  assumes "tells_pending vm" and "never_throws vm" and "reflects vm R" and "calm st"
  shows "\<exists>st'. calm st' \<and>
    art_Init vm a st = Inr (True, set_sizes (rf_first R) (rf_second R) (a\<lparr>art_method_field := rf_field R\<rparr>), st')"
proof -
  have "reflects_classes vm R" and two: "rf_count R \<ge> 2" and call: "answers vm (Env_CallMethod (Some T_Object))
      [J_ref (rf_throwable R), J_id (rf_method R)] (J_ref (rf_array R))" using assms(3) by (simp_all add: reflects_def)
  from Init_prefix [OF assms(1,2) this(1) assms(4), of a] obtain st6 where s6: "calm st6" and
    i: "art_Init vm a st =
      init_measure vm (a\<lparr>art_method_field := rf_field R\<rparr>) \<lparr>local_ref = rf_executable R\<rparr> \<lparr>local_ref = rf_throwable R\<rparr>
        \<lparr>local_ref = rf_class R\<rparr> (rf_method R) st6" by blast
  obtain st7 where s7: "calm st7" "JNI_CallMethod vm (Some T_Object) (A_scoped \<lparr>local_ref = rf_throwable R\<rparr>) (rf_method R) [] st6 =
      (W_scoped \<lparr>local_ref = rf_array R\<rparr>, st7)"
    using invoke_answered(3) [OF assms(1,2), of "Env_CallMethod (Some T_Object)"
        "[A_scoped \<lparr>local_ref = rf_throwable R\<rparr>, idn (rf_method R)]" "J_ref (rf_array R)" st6] call s6
    by (auto simp: JNI_CallMethod_def)
  from array_answered [OF assms(1-3) s7(1)] obtain k st8 where k: "calm st8"
    "JNI_Cast_array vm T_Object \<lparr>local_ref = rf_array R\<rparr> st7 = (k, \<lparr>local_ref = 0\<rparr>, st8)" "array_size k = Inr (rf_count R)"
    "ar_elems k = E_objs (map (\<lambda>j. \<lparr>local_ref = rf_ctor R j\<rparr>) [0..<rf_count R])" by blast
  let ?a = "a\<lparr>art_method_field := rf_field R\<rparr>"
  from measure_answered [OF assms(1-3) k(1,4), of ?a]
  obtain st9 where m: "calm st9" "measure_methods vm k ?a st8 = Inr (set_sizes (rf_first R) (rf_second R) ?a, st9)" by auto
  show ?thesis
    using calm_init_end [OF assms(2) m(1)] two
    by (simp add: i init_measure_def s7(2) k(2,3) m(2))
qed

text \<open>\<open>ArtMethod::Init\<close> takes the distance of the two method objects for the size of one, and from then on \<open>GetData\<close>
  of a method reads the pointer sixteen bytes before the end of its object; no exception is left pending.\<close>

lemma art_method_layout:
  assumes "tells_pending vm" and "never_throws vm" and "reflects vm R" and "calm st"
  shows "\<exists>a' st'. art_Init vm a st = Inr (True, a', st') \<and> calm st' \<and>
    art_method_size a' = rf_second R - rf_first R \<and>
    GetData mem a' m =
      (case mem (m + (rf_second R - rf_first R) - 16) of None \<Rightarrow> Inl Null_Deref | Some p \<Rightarrow> Inr p)"
  using art_Init_answered [OF assms, of a]
  by (auto simp: GetData_def set_sizes_def Let_def kPointerSize_def algebra_simps)

text \<open>Of the references that \<open>Init\<close> makes, those of the constructors are never deleted.\<close>

lemma measure_methods_moves:
  assumes "j_static st = Some p" and "art_method_field a \<noteq> 0" and "measure_methods vm k a st = Inr (a', st')"
  shows "moves M st st' M" and "j_static st' = Some p"
proof -
  have one: "moves N s s' N \<and> j_static s' = Some p"
    if s: "j_static s = Some p" and f: "FromReflectedMethod vm a v s = (x, s')" for v s x s' N
  proof -
    obtain w s1 where w: "JNI_GetField vm T_Long (A_raw v) (art_method_field a) s = (w, s1)" by fastforce
    have s1: "s1 = s'" using f assms(2) by (simp add: FromReflectedMethod_def w)
    have "owned w = {#}" using w by (auto simp: JNI_GetField_def JNI_SafeInvoke_def WrapScope_def split: prod.splits)
    with JNI_SafeInvoke_moves [OF s w [unfolded JNI_GetField_def]] s1 show ?thesis by simp
  qed
  obtain v1 v2 where v: "array_at_const 0 k = Inr v1" "array_at_const 1 k = Inr v2"
    using assms(3) by (auto simp: measure_methods_def bind_r_eq_Inr)
  obtain x1 s1 where f1: "FromReflectedMethod vm a v1 st = (x1, s1)" by fastforce
  obtain x2 s2 where f2: "FromReflectedMethod vm a v2 s1 = (x2, s2)" by fastforce
  have "s2 = st'" using assms(3) v by (simp add: measure_methods_def f1 f2)
  with f1 f2 one [OF assms(1)] one show "moves M st st' M" and "j_static st' = Some p" by (blast intro: moves_trans)+
qed

lemma init_measure_leak:
  assumes "j_static st = Some p" and "art_method_field a \<noteq> 0"
    and "init_measure vm a executable throwable clazz mid st = Inr (True, a', st')"
  shows "\<exists>es. length es \<ge> 2 \<and>
    moves (ref_set (local_ref executable) + ref_set (local_ref throwable) + ref_set (local_ref clazz)) st st'
      (owned_elems (E_objs es))"
proof -
  let ?M = "ref_set (local_ref executable) + ref_set (local_ref throwable) + ref_set (local_ref clazz)"
  obtain res st1 where c: "JNI_CallMethod vm (Some T_Object) (A_scoped throwable) mid [] st = (res, st1)" by fastforce
  obtain r where res: "res = W_scoped \<lparr>local_ref = r\<rparr>"
    using c by (auto simp: JNI_CallMethod_def JNI_SafeInvoke_def WrapScope_def split: prod.splits)
  note c' = JNI_SafeInvoke_moves [OF assms(1) c [unfolded JNI_CallMethod_def]]
  obtain k st2 where k: "reset_array vm r (blank_array T_Object) st1 = (k, st2)" by fastforce
  have kc: "JNI_Cast_array vm T_Object \<lparr>local_ref = r\<rparr> st1 = (k, \<lparr>local_ref = 0\<rparr>, st2)"
    by (simp add: JNI_Cast_array_def array_of_scoped_def release_def ScopedLocalRef_array_def k)
  have blank: "array_ok (blank_array T_Object)" "owned_array (blank_array T_Object) = {#}" "ar_ref (blank_array T_Object) = 0"
    by (simp_all add: array_ok_def blank_array_def owned_array_def)
  have s1: "j_static st1 = Some p" using c'(2) by simp
  note k' = reset_array_moves [OF s1 blank(1) k]
  obtain n st3 where n: "array_size k = Inr n" "n \<ge> 2" and m: "measure_methods vm k a st2 = Inr (a', st3)"
    and st': "st' = init_end vm k clazz throwable executable st3"
    using assms(3) by (auto simp: init_measure_def c res kc bind_r_eq_Inr split: if_splits)
  obtain es where es: "ar_elems k = E_objs es" "length es = n"
  proof -
    have "ar_elems k \<noteq> E_null" using m by (auto simp: measure_methods_def array_at_const_def elem_at_def)
    then have "r \<noteq> 0" using k null_array_uninitialised(1) [of vm T_Object st1]
      by (cases "r = 0") (auto simp: ScopedLocalRef_array_def blank_array_def)
    then have "\<exists>es. ar_elems k = E_objs es" "ar_ref k \<noteq> 0"
      using k by (auto simp: reset_array_def blank_array_def Let_def split: prod.splits)
    with k'(2) n(1) that show ?thesis by (auto simp: array_ok_def array_size_def n_elems_def split: option.splits)
  qed
  have "moves ?M st st1 (?M + ref_set r)" using c'(1) [of ?M] by (simp add: res)
  also have "moves (?M + ref_set r) st1 st2 (?M + owned_array k)"
    using k'(1) [of ?M] by (cases "r = 0") (simp_all add: blank)
  also have "moves (?M + owned_array k) st2 st3 (?M + owned_array k)"
    by (rule measure_methods_moves(1) [OF k'(3) assms(2) m])
  also have "moves (?M + owned_array k) st3 (destroy_array vm k st3) (?M + owned_elems (E_objs es))"
    using moves_delete [of "?M + owned_elems (E_objs es)" "ar_ref k" st3 vm]
    by (simp add: destroy_array_calls owned_array_def es add_ac)
  also have "moves (?M + owned_elems (E_objs es)) (destroy_array vm k st3)
      (snd (destroy_ScopedLocalRef vm clazz (destroy_array vm k st3)))
      (owned_elems (E_objs es) + ref_set (local_ref executable) + ref_set (local_ref throwable))"
    using moves_destroy [of "owned_elems (E_objs es) + ref_set (local_ref executable) + ref_set (local_ref throwable)" clazz]
    by (simp add: add_ac)
  also have "moves (owned_elems (E_objs es) + ref_set (local_ref executable) + ref_set (local_ref throwable))
      (snd (destroy_ScopedLocalRef vm clazz (destroy_array vm k st3))) st' (owned_elems (E_objs es))"
    unfolding st' init_end_def by (rule moves_trans [OF moves_destroy moves_destroy])
  finally show ?thesis using es n(2) by blast
qed

text \<open>When \<open>getDeclaredConstructors\<close> fails and returns null, the size of the array of constructors is read
  although it was never set.\<close>

lemma art_init_uninitialised:
  assumes "tells_pending vm" and "never_throws vm" and "reflects_classes vm R" and "calm st"
    and "\<And>h. fst (vm h (Env_CallMethod (Some T_Object)) [J_ref (rf_throwable R), J_id (rf_method R)]) = J_ref 0"
  shows "art_Init vm a st = Inl Uninit_Read"
proof -
  have "\<exists>st'. JNI_CallMethod vm (Some T_Object) (A_scoped \<lparr>local_ref = rf_throwable R\<rparr>) (rf_method R) [] st0 =
      (W_scoped \<lparr>local_ref = 0\<rparr>, st')" for st0
    using assms(5) [of "j_hist st0"]
    by (cases "vm (j_hist st0) (Env_CallMethod (Some T_Object)) [J_ref (rf_throwable R), J_id (rf_method R)]")
      (simp add: JNI_CallMethod_def JNI_SafeInvoke_def jcall_def WrapScope_def)
  moreover obtain st6 where "art_Init vm a st =
      init_measure vm (a\<lparr>art_method_field := rf_field R\<rparr>) \<lparr>local_ref = rf_executable R\<rparr> \<lparr>local_ref = rf_throwable R\<rparr>
        \<lparr>local_ref = rf_class R\<rparr> (rf_method R) st6"
    using Init_prefix [OF assms(1-4), of a] by blast
  ultimately obtain st' where "JNI_CallMethod vm (Some T_Object) (A_scoped \<lparr>local_ref = rf_throwable R\<rparr>) (rf_method R) [] st6 =
      (W_scoped \<lparr>local_ref = 0\<rparr>, st')" and "art_Init vm a st =
      init_measure vm (a\<lparr>art_method_field := rf_field R\<rparr>) \<lparr>local_ref = rf_executable R\<rparr> \<lparr>local_ref = rf_throwable R\<rparr>
        \<lparr>local_ref = rf_class R\<rparr> (rf_method R) st6" by blast
  then show ?thesis
    by (simp add: init_measure_def JNI_Cast_array_def array_of_scoped_def release_def null_array_uninitialised)
qed

section \<open>Concrete runs\<close>

text \<open>A runtime with two constructors whose method objects are 40 bytes apart; with \<open>arr = 0\<close> the call of
  \<open>getDeclaredConstructors\<close> throws.\<close>

definition sample_runtime :: "nat \<Rightarrow> vm" where
  "sample_runtime arr h f args =
     (case f of
        Env_FindClass \<Rightarrow>
          (J_ref (if args = [J_text ''java/lang/reflect/Executable''] then 1
                  else if args = [J_text ''java/lang/Throwable''] then 2 else 3), False)
      | Env_GetFieldID \<Rightarrow> (J_id 7, False)
      | Env_GetMethodID \<Rightarrow> (J_id 8, False)
      | Env_CallMethod _ \<Rightarrow> (J_ref arr, arr = 0)
      | Env_GetArrayLength \<Rightarrow> (J_num 2, False)
      | Env_GetObjectArrayElement \<Rightarrow> (J_ref (if args = [J_ref arr, J_num 0] then 5 else 6), False)
      | Env_GetField _ \<Rightarrow> (J_num (if args = [J_ref 5, J_id 7] then 0x1000 else 0x1028), False)
      | Env_ExceptionOccurred \<Rightarrow> (J_ref (if pending h then 9 else 0), False)
      | _ \<Rightarrow> (J_void, False))"

definition sample_reflection :: "nat \<Rightarrow> reflection" where
  "sample_reflection arr =
     \<lparr>rf_executable = 1, rf_field = 7, rf_throwable = 2, rf_class = 3, rf_method = 8, rf_array = arr, rf_count = 2,
      rf_ctor = (\<lambda>j. 5 + j), rf_first = 0x1000, rf_second = 0x1028\<rparr>"

lemma sample_runtime_ok:
  "tells_pending (sample_runtime arr)" "never_throws (sample_runtime arr)"
  "reflects_classes (sample_runtime arr) (sample_reflection arr)"
  "arr \<noteq> 0 \<Longrightarrow> reflects (sample_runtime arr) (sample_reflection arr)"
  by (auto simp: tells_pending_def never_throws_def reflects_def reflects_classes_def answers_def sample_runtime_def
      sample_reflection_def less_2_cases_iff)

definition no_statics :: art_statics where
  "no_statics = \<lparr>art_method_field = 0, art_method_size = 0, entry_point_offset = 0, data_offset = 0\<rparr>"

definition fresh_env :: jstate where
  "fresh_env = \<lparr>j_hist = [], j_static = None\<rparr>"

lemma calm_fresh: "calm fresh_env"
  by (simp add: calm_def fresh_env_def pending_def)

lemma art_method_layout_witness:
  "\<exists>a' st'. art_Init (sample_runtime 4) no_statics fresh_env = Inr (True, a', st') \<and> art_method_size a' = 40 \<and>
     GetData (\<lambda>x. if x = 0x2018 then Some 0xabc else None) a' 0x2000 = Inr 0xabc"
proof -
  have "reflects (sample_runtime 4) (sample_reflection 4)" by (rule sample_runtime_ok(4)) simp
  from art_method_layout [OF sample_runtime_ok(1,2) this calm_fresh, of no_statics
      "\<lambda>x. if x = 0x2018 then Some 0xabc else None" "0x2000"]
  show ?thesis by (auto simp: sample_reflection_def)
qed

lemma art_init_uninitialised_witness:
  "art_Init (sample_runtime 0) no_statics fresh_env = Inl Uninit_Read"
  by (rule art_init_uninitialised [OF sample_runtime_ok(1-3) calm_fresh])
    (simp add: sample_runtime_def)

end
