(* ===== verification/Jni_Reflect.thy ===== *)
theory Jni_Reflect
  imports Jni_Hooks Art_Method
begin

text \<open>
  \<open>hookJniNativeMethods\<close> and the lookups of \<open>initialize_jni_hook\<close> (\<open>loader/src/injector/hook.cpp\<close>) call by call on the
  JNI, through the helpers of \<open>jni_helper.hpp\<close> and \<open>art_method.hpp\<close>, and the proof that on a virtual machine with a
  given class they do what \<open>Jni_Hooks\<close> says of that class.
\<close>

section \<open>Definitions\<close>

text \<open>The library's side of a run: the statics of \<open>ArtMethod\<close>, the globals of \<open>hook.cpp\<close>, the memory of the process,
  and which function is at an address.\<close>

record lib =
  l_art :: art_statics
  l_getModifiers :: nat
  l_NATIVE :: u32
  l_mem :: "u64 \<Rightarrow> u64 option"
  l_fn_at :: "u64 \<Rightarrow> jni_fn option"
  l_address :: "jni_fn option \<Rightarrow> nat"

definition find_method :: "vm \<Rightarrow> nat \<Rightarrow> native_method \<Rightarrow> jstate \<Rightarrow> nat \<times> bool \<times> jstate" where
  "find_method vm clazz nm st =
     (let args = [J_ref clazz, J_text (nm_name nm), J_text (nm_signature nm)]
      in case jcall vm Env_GetMethodID args st of (mid, st1) \<Rightarrow>
           if as_id mid = 0
           then (case jcall vm Env_GetStaticMethodID args (jdo vm Env_ExceptionClear [] st1) of (mid', st2) \<Rightarrow>
                   (as_id mid', True, st2))
           else (as_id mid, False, st1))"

text \<open>One turn of the loop: the entry with the original filled in, and the hook if there is one.\<close>

definition hook_one ::
  "vm \<Rightarrow> lib \<Rightarrow> nat \<Rightarrow> native_method \<Rightarrow> jstate \<Rightarrow> (native_method \<times> native_method list \<times> jstate) res" where
  "hook_one vm l clazz nm st =
     (case find_method vm clazz nm st of (mid, is_static, st2) \<Rightarrow>
        if mid = 0 then Inr (nm\<lparr>nm_fnPtr := None\<rparr>, [], jdo vm Env_ExceptionClear [] st2)
        else
          (case JNI_ToReflectedMethod vm (A_raw (J_ref clazz)) mid is_static st2 of (method, st3) \<Rightarrow>
           case JNI_CallMethod vm (Some T_Int) (A_scoped method) (l_getModifiers l) [] st3 of (modifier, st4) \<Rightarrow>
             if word_of_int (as_num (raw modifier)) AND l_NATIVE l = 0
             then Inr (nm\<lparr>nm_fnPtr := None\<rparr>, [], snd (destroy_ScopedLocalRef vm method st4))
             else
               (case FromReflectedMethod vm (l_art l) (J_ref (local_ref method)) st4 of (artMethod, st5) \<Rightarrow>
                  bind_r (GetData (l_mem l) (l_art l) artMethod) (\<lambda>orig.
                    Inr (nm\<lparr>nm_fnPtr := l_fn_at l orig\<rparr>, [nm], snd (destroy_ScopedLocalRef vm method st5))))))"

fun hook_loop ::
  "vm \<Rightarrow> lib \<Rightarrow> nat \<Rightarrow> native_method list \<Rightarrow> jstate \<Rightarrow> (native_method list \<times> native_method list \<times> jstate) res" where
  "hook_loop vm l clazz [] st = Inr ([], [], st)"
| "hook_loop vm l clazz (nm # nms) st =
     bind_r (hook_one vm l clazz nm st) (\<lambda>(m, hs, st1).
     bind_r (hook_loop vm l clazz nms st1) (\<lambda>(ms, hooks, st2). Inr (m # ms, hs @ hooks, st2)))"

definition method_entry :: "lib \<Rightarrow> native_method \<Rightarrow> jval list" where
  "method_entry l m = [J_text (nm_name m), J_text (nm_signature m), J_id (l_address l (nm_fnPtr m))]"

definition hook_on_jni ::
  "vm \<Rightarrow> lib \<Rightarrow> bool \<Rightarrow> string \<Rightarrow> native_method list \<Rightarrow> jstate \<Rightarrow> (native_method list \<times> jstate) res" where
  "hook_on_jni vm l can_hook clz methods st =
     (if \<not> can_hook then Inr (methods, st)
      else
        (case jcall vm Env_FindClass [J_text clz] st of (clazz, st1) \<Rightarrow>
           if as_ref clazz = 0
           then Inr (map (\<lambda>m. m\<lparr>nm_fnPtr := None\<rparr>) methods, jdo vm Env_ExceptionClear [] st1)
           else
             bind_r (hook_loop vm l (as_ref clazz) methods st1) (\<lambda>(ms, hooks, st2).
               Inr (ms,
                 if hooks = [] then st2
                 else jdo vm Env_RegisterNatives
                   [clazz, J_buf 1 (concat (map (method_entry l) hooks)), J_num (int (length hooks))] st2))))"

text \<open>The lookups of \<open>initialize_jni_hook\<close> before \<open>can_hook_jni\<close> is set: whether it is reached, the ids and the
  owners that live to the end of the function.\<close>

definition find_modifiers ::
  "vm \<Rightarrow> nat \<Rightarrow> u32 \<Rightarrow> jstate \<Rightarrow> nat \<times> u32 \<times> scoped_ref \<times> scoped_ref \<times> jstate" where
  "find_modifiers vm getModifiers native st =
     (case JNI_FindClass vm (lit ''java/lang/reflect/Member'') st of (classMember, st1) \<Rightarrow>
      case (if local_ref classMember \<noteq> 0
            then (case JNI_GetMethodID vm (A_scoped classMember) (lit ''getModifiers'') (lit ''()I'') st1 of
                    (m, s) \<Rightarrow> (as_id m, s))
            else (getModifiers, st1)) of (gm, st2) \<Rightarrow>
      case JNI_FindClass vm (lit ''java/lang/reflect/Modifier'') st2 of (classModifier, st3) \<Rightarrow>
        if local_ref classModifier \<noteq> 0
        then (case JNI_GetStaticFieldID vm (A_scoped classModifier) (lit ''NATIVE'') (lit ''I'') st3 of (f, st4) \<Rightarrow>
                if as_id f \<noteq> 0
                then (case JNI_GetStaticField vm T_Int (A_scoped classModifier) (as_id f) st4 of (w, st5) \<Rightarrow>
                        (gm, word_of_int (as_num (raw w)), classMember, classModifier, st5))
                else (gm, native, classMember, classModifier, st4))
        else (gm, native, classMember, classModifier, st3))"

definition prepare_jni ::
  "vm \<Rightarrow> nat \<Rightarrow> u32 \<Rightarrow> art_statics \<Rightarrow> jstate \<Rightarrow>
    (bool \<times> nat \<times> u32 \<times> art_statics \<times> scoped_ref \<times> scoped_ref \<times> jstate) res" where
  "prepare_jni vm getModifiers native a st =
     (case find_modifiers vm getModifiers native st of (gm, flag, cm, cmod, st1) \<Rightarrow>
        if gm = 0 \<or> flag = 0 then Inr (False, gm, flag, a, cm, cmod, st1)
        else bind_r (art_Init vm a st1) (\<lambda>(ok, a', st2). Inr (ok, gm, flag, a', cm, cmod, st2)))"

section \<open>A virtual machine with a class\<close>

record class_view =
  cv_ref :: nat
  cv_mid :: "string \<Rightarrow> string \<Rightarrow> nat"
  cv_reflected :: "string \<Rightarrow> string \<Rightarrow> nat"
  cv_address :: "string \<Rightarrow> string \<Rightarrow> u64"

text \<open>A lookup that fails returns null and throws; a method that is there has an id, a reflected object that tells its
  modifiers and the address of its method object, and there the pointer to its native code.\<close>

definition fails :: "vm \<Rightarrow> env_fn \<Rightarrow> jval list \<Rightarrow> bool" where
  "fails vm f args \<longleftrightarrow> (\<forall>h. vm h f args = (J_id 0, True))"

definition implements_method :: "vm \<Rightarrow> lib \<Rightarrow> class_view \<Rightarrow> string \<Rightarrow> string \<Rightarrow> jmethod \<Rightarrow> bool" where
  "implements_method vm l V n s jm \<longleftrightarrow>
     (let args = [J_ref (cv_ref V), J_text n, J_text s]; r = cv_reflected V n s in
      cv_mid V n s \<noteq> 0 \<and>
      (if jm_static jm
       then fails vm Env_GetMethodID args \<and> answers vm Env_GetStaticMethodID args (J_id (cv_mid V n s))
       else answers vm Env_GetMethodID args (J_id (cv_mid V n s))) \<and>
      answers vm Env_ToReflectedMethod
        [J_ref (cv_ref V), J_id (cv_mid V n s), J_num (if jm_static jm then 1 else 0)] (J_ref r) \<and>
      answers vm (Env_CallMethod (Some T_Int)) [J_ref r, J_id (l_getModifiers l)] (J_num (uint (jm_modifiers jm))) \<and>
      answers vm (Env_GetField T_Long) [J_ref r, J_id (art_method_field (l_art l))] (J_num (uint (cv_address V n s))) \<and>
      (\<exists>p. l_mem l (cv_address V n s + data_offset (l_art l)) = Some p \<and> l_fn_at l p = jm_data jm))"

definition implements_class :: "vm \<Rightarrow> lib \<Rightarrow> class_view \<Rightarrow> java_class \<Rightarrow> bool" where
  "implements_class vm l V cls \<longleftrightarrow>
     art_method_field (l_art l) \<noteq> 0 \<and>
     (\<forall>n s. case cls (n, s) of
        None \<Rightarrow> fails vm Env_GetMethodID [J_ref (cv_ref V), J_text n, J_text s] \<and>
          fails vm Env_GetStaticMethodID [J_ref (cv_ref V), J_text n, J_text s]
      | Some jm \<Rightarrow> implements_method vm l V n s jm)"

section \<open>Refinement\<close>

lemma calm_clear: "calm (jdo vm Env_ExceptionClear args st)"
  by (simp add: calm_def pending_jdo)

lemma jcall_fails: "fails vm f args \<Longrightarrow> \<exists>st'. jcall vm f args st = (J_id 0, st')"
  by (simp add: fails_def jcall_def)

lemma find_method_there:
  assumes "implements_method vm l V (nm_name nm) (nm_signature nm) jm" and "calm st"
  shows "\<exists>st'. calm st' \<and>
    find_method vm (cv_ref V) nm st = (cv_mid V (nm_name nm) (nm_signature nm), jm_static jm, st')"
proof (cases "jm_static jm")
  case True
  let ?args = "[J_ref (cv_ref V), J_text (nm_name nm), J_text (nm_signature nm)]"
  from True assms(1) have f: "fails vm Env_GetMethodID ?args"
    and a: "answers vm Env_GetStaticMethodID ?args (J_id (cv_mid V (nm_name nm) (nm_signature nm)))"
    by (simp_all add: implements_method_def Let_def)
  from jcall_fails [OF f] obtain st1 where s1: "jcall vm Env_GetMethodID ?args st = (J_id 0, st1)" by blast
  from jcall_answered [OF a calm_clear [of vm "[]" st1]] s1 True show ?thesis
    by (fastforce simp: find_method_def)
next
  case False
  then show ?thesis
    using assms jcall_answered [of vm Env_GetMethodID] by (fastforce simp: implements_method_def find_method_def Let_def)
qed

lemma find_method_missing:
  assumes "fails vm Env_GetMethodID [J_ref c, J_text (nm_name nm), J_text (nm_signature nm)]"
    and "fails vm Env_GetStaticMethodID [J_ref c, J_text (nm_name nm), J_text (nm_signature nm)]"
  shows "\<exists>st'. find_method vm c nm st = (0, True, st')"
proof -
  obtain st1 where s1: "jcall vm Env_GetMethodID [J_ref c, J_text (nm_name nm), J_text (nm_signature nm)] st = (J_id 0, st1)"
    using jcall_fails [OF assms(1)] by blast
  from jcall_fails [OF assms(2), of "jdo vm Env_ExceptionClear [] st1"] s1 show ?thesis by (auto simp: find_method_def)
qed

lemma hook_one_there:
  assumes "tells_pending vm" and "never_throws vm" and "calm st" and "art_method_field (l_art l) \<noteq> 0"
    and "implements_method vm l V (nm_name nm) (nm_signature nm) jm"
  shows "\<exists>st'. calm st' \<and> hook_one vm l (cv_ref V) nm st =
    Inr (if jm_modifiers jm AND l_NATIVE l = 0 then (nm\<lparr>nm_fnPtr := None\<rparr>, [], st')
         else (nm\<lparr>nm_fnPtr := jm_data jm\<rparr>, [nm], st'))"
proof -
  let ?n = "nm_name nm" and ?s = "nm_signature nm"
  let ?r = "cv_reflected V ?n ?s"
  note I = assms(5) [unfolded implements_method_def Let_def]
  note inv = invoke_answered [OF assms(1,2)]
  obtain st2 where s2: "calm st2" "find_method vm (cv_ref V) nm st = (cv_mid V ?n ?s, jm_static jm, st2)"
    using find_method_there [OF assms(5,3)] by blast
  obtain st3 where s3: "calm st3"
    "JNI_ToReflectedMethod vm (A_raw (J_ref (cv_ref V))) (cv_mid V ?n ?s) (jm_static jm) st2 = (\<lparr>local_ref = ?r\<rparr>, st3)"
    using inv(2) [of Env_ToReflectedMethod "[A_raw (J_ref (cv_ref V)), idn (cv_mid V ?n ?s), num (if jm_static jm then 1 else 0)]"
        "J_ref ?r" st2] I s2(1) by (auto simp: JNI_ToReflectedMethod_def)
  obtain st4 where s4: "calm st4"
    "JNI_CallMethod vm (Some T_Int) (A_scoped \<lparr>local_ref = ?r\<rparr>) (l_getModifiers l) [] st3 = (W_raw (J_num (uint (jm_modifiers jm))), st4)"
    using inv(5) [of "Env_CallMethod (Some T_Int)" "[A_scoped \<lparr>local_ref = ?r\<rparr>, idn (l_getModifiers l)]"
        "J_num (uint (jm_modifiers jm))" st3] I s3(1) by (auto simp: JNI_CallMethod_def)
  obtain st5 where s5: "calm st5" "FromReflectedMethod vm (l_art l) (J_ref ?r) st4 = (cv_address V ?n ?s, st5)"
    using inv(5) [of "Env_GetField T_Long" "[A_raw (J_ref ?r), idn (art_method_field (l_art l))]"
        "J_num (uint (cv_address V ?n ?s))" st4] I s4(1) assms(4) by (auto simp: FromReflectedMethod_def JNI_GetField_def)
  obtain p where p: "GetData (l_mem l) (l_art l) (cv_address V ?n ?s) = Inr p" "l_fn_at l p = jm_data jm"
    using I by (auto simp: GetData_def)
  show ?thesis
    using I calm_destroy [OF assms(2) s4(1)] calm_destroy [OF assms(2) s5(1)]
    by (simp add: hook_one_def s2(2) s3(2) s4(2) s5(2) p)
qed

lemma hook_loop_refines:
  assumes "tells_pending vm" and "never_throws vm" and "implements_class vm l V cls" and "calm st"
  shows "\<exists>st'. calm st' \<and> hook_loop vm l (cv_ref V) nms st =
    Inr (fst (hook_methods (l_NATIVE l) cls nms), snd (hook_methods (l_NATIVE l) cls nms), st')"
  using assms(4)
proof (induction nms arbitrary: st)
  case (Cons nm nms)
  obtain ms hooks where h: "hook_methods (l_NATIVE l) cls nms = (ms, hooks)" by fastforce
  have field: "art_method_field (l_art l) \<noteq> 0" using assms(3) by (simp add: implements_class_def)
  have C: "case cls (nm_name nm, nm_signature nm) of
        None \<Rightarrow> fails vm Env_GetMethodID [J_ref (cv_ref V), J_text (nm_name nm), J_text (nm_signature nm)] \<and>
          fails vm Env_GetStaticMethodID [J_ref (cv_ref V), J_text (nm_name nm), J_text (nm_signature nm)]
      | Some jm \<Rightarrow> implements_method vm l V (nm_name nm) (nm_signature nm) jm"
    using assms(3) by (simp add: implements_class_def)
  have step: "\<exists>st1. calm st1 \<and> hook_one vm l (cv_ref V) nm st =
      Inr (case cls (nm_name nm, nm_signature nm) of
             None \<Rightarrow> (nm\<lparr>nm_fnPtr := None\<rparr>, [], st1)
           | Some jm \<Rightarrow> if jm_modifiers jm AND l_NATIVE l = 0 then (nm\<lparr>nm_fnPtr := None\<rparr>, [], st1)
                        else (nm\<lparr>nm_fnPtr := jm_data jm\<rparr>, [nm], st1))"
  proof (cases "cls (nm_name nm, nm_signature nm)")
    case None
    with C find_method_missing [of vm "cv_ref V" nm st] obtain st' where "find_method vm (cv_ref V) nm st = (0, True, st')" by auto
    with None show ?thesis using calm_clear by (auto simp: hook_one_def)
  next
    case (Some jm)
    with C hook_one_there [OF assms(1,2) Cons.prems field, of V nm jm] show ?thesis by simp
  qed
  then obtain st1 where s1: "calm st1" and one: "hook_one vm l (cv_ref V) nm st =
      Inr (case cls (nm_name nm, nm_signature nm) of
             None \<Rightarrow> (nm\<lparr>nm_fnPtr := None\<rparr>, [], st1)
           | Some jm \<Rightarrow> if jm_modifiers jm AND l_NATIVE l = 0 then (nm\<lparr>nm_fnPtr := None\<rparr>, [], st1)
                        else (nm\<lparr>nm_fnPtr := jm_data jm\<rparr>, [nm], st1))" by blast
  from Cons.IH [OF s1] h obtain st2 where "calm st2" "hook_loop vm l (cv_ref V) nms st1 = Inr (ms, hooks, st2)" by auto
  with one h show ?case
    by (auto simp: GetMethodID_def GetStaticMethodID_def split: option.splits if_splits)
qed simp

lemma hook_on_jni_answered:
  assumes "tells_pending vm" and "never_throws vm" and "calm st" and "implements_class vm l V cls"
    and "answers vm Env_FindClass [J_text clz] (J_ref (cv_ref V))" and "cv_ref V \<noteq> 0" and "jvm clz = Some cls"
  shows "\<exists>st'. calm st' \<and> hook_on_jni vm l True clz methods st =
    Inr (fst (hookJniNativeMethods True (l_NATIVE l) clz methods jvm),
      case snd (hook_methods (l_NATIVE l) cls methods) of
        [] \<Rightarrow> st'
      | h # hs \<Rightarrow> jdo vm Env_RegisterNatives
          [J_ref (cv_ref V), J_buf 1 (concat (map (method_entry l) (h # hs))), J_num (int (length (h # hs)))] st')"
proof -
  obtain st1 where s1: "calm st1" "jcall vm Env_FindClass [J_text clz] st = (J_ref (cv_ref V), st1)"
    using jcall_answered [OF assms(5,3)] by auto
  obtain st2 where s2: "calm st2" "hook_loop vm l (cv_ref V) methods st1 =
      Inr (fst (hook_methods (l_NATIVE l) cls methods), snd (hook_methods (l_NATIVE l) cls methods), st2)"
    using hook_loop_refines [OF assms(1,2,4) s1(1)] by blast
  show ?thesis using assms(6,7) s1(2) s2
    by (intro exI [of _ st2]) (simp add: hook_on_jni_def hookJniNativeMethods_def split: prod.split list.split)
qed


lemma hook_on_jni_no_class:
  assumes "\<And>h. fst (vm h Env_FindClass [J_text clz]) = J_ref 0" and "jvm clz = None"
  shows "\<exists>st'. calm st' \<and> hook_on_jni vm l True clz methods st =
    Inr (fst (hookJniNativeMethods True (l_NATIVE l) clz methods jvm), st')"
  using assms(1) [of "j_hist st"] assms(2) calm_clear
  by (cases "vm (j_hist st) Env_FindClass [J_text clz]") (auto simp: hook_on_jni_def jcall_def hookJniNativeMethods_def)

section \<open>A concrete run\<close>

definition sample_class :: java_class where
  "sample_class = [(''f'', ''()V'') \<mapsto> \<lparr>jm_static = True, jm_modifiers = 0x108, jm_data = Some (Art_fn 3)\<rparr>]"

definition sample_jvm :: vm where
  "sample_jvm h f args =
     (case f of
        Env_FindClass \<Rightarrow> (J_ref 1, False)
      | Env_GetMethodID \<Rightarrow> (J_id 0, True)
      | Env_GetStaticMethodID \<Rightarrow>
          if args = [J_ref 1, J_text ''f'', J_text ''()V''] then (J_id 2, False) else (J_id 0, True)
      | Env_ToReflectedMethod \<Rightarrow> (J_ref 3, False)
      | Env_CallMethod _ \<Rightarrow> (J_num 0x108, False)
      | Env_GetField _ \<Rightarrow> (J_num 0x5000, False)
      | Env_ExceptionOccurred \<Rightarrow> (J_ref (if pending h then 9 else 0), False)
      | _ \<Rightarrow> (J_void, False))"

definition sample_lib :: lib where
  "sample_lib =
     \<lparr>l_art = \<lparr>art_method_field = 7, art_method_size = 40, entry_point_offset = 32, data_offset = 24\<rparr>,
      l_getModifiers = 8, l_NATIVE = ACC_NATIVE, l_mem = (\<lambda>x. if x = 0x5018 then Some 0x77 else None),
      l_fn_at = (\<lambda>x. if x = 0x77 then Some (Art_fn 3) else None), l_address = (\<lambda>_. 0)\<rparr>"

lemma sample_jvm_ok:
  "tells_pending sample_jvm" "never_throws sample_jvm" "answers sample_jvm Env_FindClass [J_text clz] (J_ref 1)"
  "implements_class sample_jvm sample_lib
     \<lparr>cv_ref = 1, cv_mid = \<lambda>_ _. 2, cv_reflected = \<lambda>_ _. 3, cv_address = \<lambda>_ _. 0x5000\<rparr> sample_class"
  by (auto simp: tells_pending_def never_throws_def answers_def fails_def implements_class_def implements_method_def
      sample_jvm_def sample_lib_def sample_class_def)


section \<open>From the start to a hook\<close>

text \<open>A virtual machine that has \<open>Member.getModifiers\<close> and \<open>Modifier.NATIVE\<close>.\<close>

record modifiers_view =
  mv_member :: nat
  mv_getModifiers :: nat
  mv_modifier :: nat
  mv_field :: nat
  mv_NATIVE :: u32

definition has_modifiers :: "vm \<Rightarrow> modifiers_view \<Rightarrow> bool" where
  "has_modifiers vm W \<longleftrightarrow>
     0 \<notin> {mv_member W, mv_getModifiers W, mv_modifier W, mv_field W} \<and> mv_NATIVE W \<noteq> 0 \<and>
     answers vm Env_FindClass [J_text ''java/lang/reflect/Member''] (J_ref (mv_member W)) \<and>
     answers vm Env_GetMethodID [J_ref (mv_member W), J_text ''getModifiers'', J_text ''()I''] (J_id (mv_getModifiers W)) \<and>
     answers vm Env_FindClass [J_text ''java/lang/reflect/Modifier''] (J_ref (mv_modifier W)) \<and>
     answers vm Env_GetStaticFieldID [J_ref (mv_modifier W), J_text ''NATIVE'', J_text ''I''] (J_id (mv_field W)) \<and>
     answers vm (Env_GetStaticField T_Int) [J_ref (mv_modifier W), J_id (mv_field W)] (J_num (sint (mv_NATIVE W)))"

lemma find_modifiers_answered:
  assumes "tells_pending vm" and "never_throws vm" and "has_modifiers vm W" and "calm st"
  shows "\<exists>st'. calm st' \<and> find_modifiers vm gm native st =
    (mv_getModifiers W, mv_NATIVE W, \<lparr>local_ref = mv_member W\<rparr>, \<lparr>local_ref = mv_modifier W\<rparr>, st')"
proof -
  note W = assms(3) [unfolded has_modifiers_def]
  note inv = invoke_answered [OF assms(1,2)]
  have lits: "c_str ''java/lang/reflect/Member'' = ''java/lang/reflect/Member''" "c_str ''getModifiers'' = ''getModifiers''"
    "c_str ''()I'' = ''()I''" "c_str ''java/lang/reflect/Modifier'' = ''java/lang/reflect/Modifier''"
    "c_str ''NATIVE'' = ''NATIVE''" "c_str ''I'' = ''I''"
    by (simp_all add: c_str_def)
  obtain st1 where s1: "calm st1" "JNI_FindClass vm (lit ''java/lang/reflect/Member'') st = (\<lparr>local_ref = mv_member W\<rparr>, st1)"
    using inv(2) [of Env_FindClass "[lit ''java/lang/reflect/Member'']" "J_ref (mv_member W)" st] W assms(4)
    by (auto simp: JNI_FindClass_def lits)
  obtain st2 where s2: "calm st2" "JNI_GetMethodID vm (A_scoped \<lparr>local_ref = mv_member W\<rparr>) (lit ''getModifiers'') (lit ''()I'') st1 =
      (J_id (mv_getModifiers W), st2)"
    using inv(4) [of Env_GetMethodID "[A_scoped \<lparr>local_ref = mv_member W\<rparr>, lit ''getModifiers'', lit ''()I'']"
        "J_id (mv_getModifiers W)" st1] W s1(1) by (auto simp: JNI_GetMethodID_def lits)
  obtain st3 where s3: "calm st3" "JNI_FindClass vm (lit ''java/lang/reflect/Modifier'') st2 = (\<lparr>local_ref = mv_modifier W\<rparr>, st3)"
    using inv(2) [of Env_FindClass "[lit ''java/lang/reflect/Modifier'']" "J_ref (mv_modifier W)" st2] W s2(1)
    by (auto simp: JNI_FindClass_def lits)
  obtain st4 where s4: "calm st4" "JNI_GetStaticFieldID vm (A_scoped \<lparr>local_ref = mv_modifier W\<rparr>) (lit ''NATIVE'') (lit ''I'') st3 =
      (J_id (mv_field W), st4)"
    using inv(4) [of Env_GetStaticFieldID "[A_scoped \<lparr>local_ref = mv_modifier W\<rparr>, lit ''NATIVE'', lit ''I'']"
        "J_id (mv_field W)" st3] W s3(1) by (auto simp: JNI_GetStaticFieldID_def lits)
  obtain st5 where s5: "calm st5" "JNI_GetStaticField vm T_Int (A_scoped \<lparr>local_ref = mv_modifier W\<rparr>) (mv_field W) st4 =
      (W_raw (J_num (sint (mv_NATIVE W))), st5)"
    using inv(5) [of "Env_GetStaticField T_Int" "[A_scoped \<lparr>local_ref = mv_modifier W\<rparr>, idn (mv_field W)]"
        "J_num (sint (mv_NATIVE W))" st4] W s4(1) by (auto simp: JNI_GetStaticField_def)
  show ?thesis using W s5(1)
    by (intro exI [of _ st5]) (simp add: find_modifiers_def s1(2) s2(2) s3(2) s4(2) s5(2))
qed

text \<open>On such a machine the start of \<open>initialize_jni_hook\<close> succeeds, and \<open>hookJniNativeMethods\<close> with the globals it has set
  does what the class says.\<close>

lemma prepared_hook_refines:
  assumes "tells_pending vm" and "never_throws vm" and "calm st" and "has_modifiers vm W" and "reflects vm R"
    and "l = l0\<lparr>l_art := set_sizes (rf_first R) (rf_second R) (a\<lparr>art_method_field := rf_field R\<rparr>),
      l_getModifiers := mv_getModifiers W, l_NATIVE := mv_NATIVE W\<rparr>"
    and "implements_class vm l V cls" and "answers vm Env_FindClass [J_text clz] (J_ref (cv_ref V))" and "cv_ref V \<noteq> 0"
    and "jvm clz = Some cls"
  shows "\<exists>cm cmod st1 ms st2. prepare_jni vm 0 0 a st = Inr (True, l_getModifiers l, l_NATIVE l, l_art l, cm, cmod, st1) \<and>
    hook_on_jni vm l True clz methods st1 = Inr (ms, st2) \<and> ms = fst (hookJniNativeMethods True (l_NATIVE l) clz methods jvm)"
proof -
  obtain st0 where s0: "calm st0" "find_modifiers vm 0 0 st =
      (mv_getModifiers W, mv_NATIVE W, \<lparr>local_ref = mv_member W\<rparr>, \<lparr>local_ref = mv_modifier W\<rparr>, st0)"
    using find_modifiers_answered [OF assms(1,2,4,3)] by blast
  obtain st1 where s1: "calm st1" "art_Init vm a st0 = Inr (True, l_art l, st1)"
    using art_Init_answered [OF assms(1,2,5) s0(1), of a] by (auto simp: assms(6))
  have "prepare_jni vm 0 0 a st =
      Inr (True, l_getModifiers l, l_NATIVE l, l_art l, \<lparr>local_ref = mv_member W\<rparr>, \<lparr>local_ref = mv_modifier W\<rparr>, st1)"
    using assms(4) by (simp add: prepare_jni_def s0(2) s1(2) assms(6) has_modifiers_def)
  with hook_on_jni_answered [of vm st1 l V cls clz jvm methods] assms(1,2,7-10) s1(1) show ?thesis by blast
qed

end
