(* ===== verification/Tracee32.thy ===== *)
theory Tracee32
  imports Tracee
begin

text \<open>
  \<open>push_string\<close> and \<open>remote_call\<close> of \<open>loader/src/ptracer/utils.cpp\<close> in the 32-bit builds of the tracer, for i386 and
  32-bit ARM.  Registers and addresses have 32 bits; the kernel's view of the memory is that of \<open>Tracee\<close>, in
  which a 32-bit process has the low addresses.
\<close>

section \<open>State\<close>

datatype arch32 = I386 | Arm

text \<open>\<open>r32_arg\<close> are \<open>uregs[0]\<close> to \<open>uregs[3]\<close>, \<open>r32_lr\<close> is \<open>uregs[14]\<close>, \<open>r32_cpsr\<close> is \<open>uregs[16]\<close>, \<open>r32_ax\<close> is \<open>eax\<close>.\<close>

record user_regs32 =
  r32_sp :: u32
  r32_ip :: u32
  r32_arg :: "nat \<Rightarrow> u32"
  r32_lr :: u32
  r32_cpsr :: u32
  r32_ax :: u32

record tracee32 =
  t32_mem :: memory
  t32_regs :: user_regs32
  t32_runs :: "(user_regs32 \<times> memory \<Rightarrow> wret list \<times> user_regs32 \<times> memory) list"
  t32_ok :: "bool list"
  t32_log :: "(user_regs32 \<times> memory) list"     \<comment> \<open>from where the process was continued\<close>

definition REG_RET32 :: "arch32 \<Rightarrow> user_regs32 \<Rightarrow> u32" where
  "REG_RET32 a r = (case a of I386 \<Rightarrow> r32_ax r | Arm \<Rightarrow> r32_arg r 0)"

definition next_ok32 :: "tracee32 \<Rightarrow> bool \<times> tracee32" where
  "next_ok32 t = (case t32_ok t of [] \<Rightarrow> (True, t) | b # bs \<Rightarrow> (b, t\<lparr>t32_ok := bs\<rparr>))"

definition write_proc32 :: "u32 \<Rightarrow> string \<Rightarrow> tracee32 \<Rightarrow> tracee32" where
  "write_proc32 addr buf t = t\<lparr>t32_mem := fst (write_bytes (t32_mem t) (ucast addr) buf)\<rparr>"

definition get_regs32 :: "tracee32 \<Rightarrow> user_regs32 option \<times> tracee32" where
  "get_regs32 t = (case next_ok32 t of (ok, t1) \<Rightarrow> (if ok then Some (t32_regs t1) else None, t1))"

definition set_regs32 :: "user_regs32 \<Rightarrow> tracee32 \<Rightarrow> bool \<times> tracee32" where
  "set_regs32 r t = (case next_ok32 t of (ok, t1) \<Rightarrow> (ok, if ok then t1\<lparr>t32_regs := r\<rparr> else t1))"

definition cont_and_wait32 :: "tracee32 \<Rightarrow> (u32 \<times> tracee32) res" where
  "cont_and_wait32 t =
     (case t32_runs t of
        [] \<Rightarrow> Inl (Exit_Process 1)
      | f # fs \<Rightarrow>
          (case f (t32_regs t, t32_mem t) of (ws, r, m) \<Rightarrow>
             bind_r (wait_for_trace ws) (\<lambda>s.
               Inr (s, t\<lparr>t32_regs := r, t32_mem := m, t32_runs := fs,
                 t32_log := t32_log t @ [(t32_regs t, t32_mem t)]\<rparr>))))"

section \<open>Operations\<close>

definition align_stack32 :: "user_regs32 \<Rightarrow> u32 \<Rightarrow> user_regs32" where
  "align_stack32 r preserve = r\<lparr>r32_sp := (r32_sp r - preserve) AND NOT 0xf\<rparr>"

definition push_string32 :: "string \<Rightarrow> user_regs32 \<Rightarrow> tracee32 \<Rightarrow> u32 \<times> user_regs32 \<times> tracee32" where
  "push_string32 str r t =
     (let len = length (c_str str) + 1;
          r1 = align_stack32 (r\<lparr>r32_sp := r32_sp r - word_of_nat len\<rparr>) 0
      in (r32_sp r1, r1, write_proc32 (r32_sp r1) (c_str str @ [NUL]) t))"

text \<open>On i386 all arguments go on the stack.\<close>

definition setup_i386 :: "u32 \<Rightarrow> u32 \<Rightarrow> u32 list \<Rightarrow> user_regs32 \<Rightarrow> tracee32 \<Rightarrow> user_regs32 \<times> tracee32" where
  "setup_i386 func_addr return_addr args r t =
     (let r0 = align_stack32 r 0;
          remain = length args * 4;
          (r1, t1) = (if args \<noteq> []
                      then (let r' = align_stack32 r0 (word_of_nat remain)
                            in (r', write_proc32 (r32_sp r') (concat (map enc_u32 args)) t))
                      else (r0, t));
          r2 = r1\<lparr>r32_sp := r32_sp r1 - 4\<rparr>
      in (r2\<lparr>r32_ip := func_addr\<rparr>, write_proc32 (r32_sp r2) (enc_u32 return_addr) t1))"

definition CPSR_T_MASK :: u32 where "CPSR_T_MASK = push_bit 5 1"

text \<open>The lowest bit of a function's address selects the instruction set.\<close>

definition select_thumb :: "user_regs32 \<Rightarrow> user_regs32" where
  "select_thumb r =
     (if r32_ip r AND 1 \<noteq> 0
      then r\<lparr>r32_ip := r32_ip r AND NOT 1, r32_cpsr := r32_cpsr r OR CPSR_T_MASK\<rparr>
      else r\<lparr>r32_cpsr := r32_cpsr r AND NOT CPSR_T_MASK\<rparr>)"

text \<open>Past the fourth argument the bytes written on the stack are again those of the first arguments.\<close>

definition setup_arm :: "u32 \<Rightarrow> u32 \<Rightarrow> u32 list \<Rightarrow> user_regs32 \<Rightarrow> tracee32 \<Rightarrow> user_regs32 \<times> tracee32" where
  "setup_arm func_addr return_addr args r t =
     (let r0 = align_stack32 r 0;
          r1 = r0\<lparr>r32_arg := (\<lambda>i. if i < length args \<and> i < 4 then args ! i else r32_arg r0 i)\<rparr>;
          remain = (length args - 4) * 4;
          (r2, t1) = (if length args > 4
                      then (let r' = align_stack32 r1 (word_of_nat remain)
                            in (r', write_proc32 (r32_sp r') (take remain (concat (map enc_u32 args))) t))
                      else (r1, t))
      in (select_thumb (r2\<lparr>r32_lr := return_addr, r32_ip := func_addr\<rparr>), t1))"

definition setup_call32 ::
  "arch32 \<Rightarrow> u32 \<Rightarrow> u32 \<Rightarrow> u32 list \<Rightarrow> user_regs32 \<Rightarrow> tracee32 \<Rightarrow> user_regs32 \<times> tracee32" where
  "setup_call32 a = (case a of I386 \<Rightarrow> setup_i386 | Arm \<Rightarrow> setup_arm)"

definition remote_call32 ::
  "arch32 \<Rightarrow> u32 \<Rightarrow> u32 \<Rightarrow> u32 list \<Rightarrow> user_regs32 \<Rightarrow> tracee32 \<Rightarrow> (u32 \<times> user_regs32 \<times> tracee32) res" where
  "remote_call32 a func_addr return_addr args r t =
     (case setup_call32 a func_addr return_addr args r t of (r1, t1) \<Rightarrow>
      case set_regs32 r1 t1 of (ok, t2) \<Rightarrow>
        if \<not> ok then Inr (0, r1, t2)
        else
          bind_r (cont_and_wait32 t2) (\<lambda>(status, t3).
            case get_regs32 t3 of
              (None, t4) \<Rightarrow> Inr (0, r1, t4)
            | (Some r2, t4) \<Rightarrow>
                if WSTOPSIG status = SIGSEGV
                then if r32_ip r2 \<noteq> return_addr then Inr (0, r2, t4) else Inr (REG_RET32 a r2, r2, t4)
                else Inr (0, r2, t4)))"

section \<open>The calling conventions\<close>

lemma aligned32: "unat (w AND NOT 0xf :: u32) mod 16 = 0"
proof -
  have m: "(0xf :: u32) = mask 4" by (simp add: mask_eq_exp_minus_1)
  have "take_bit 4 (w AND NOT (mask 4)) = (0 :: u32)" by (rule bit_word_eqI) (auto simp: bit_simps)
  then have "unat (take_bit 4 (w AND NOT 0xf :: u32)) = 0" by (simp only: m unsigned_0)
  then show ?thesis by (simp add: take_bit_eq_mod unat_mod_distrib)
qed

text \<open>What a function finds when it starts: on i386 the return address below the arguments, on ARM the first four
  arguments in registers, the return address in the link register and the instruction set of the function.\<close>

definition call_frame32 :: "arch32 \<Rightarrow> u32 \<Rightarrow> u32 \<Rightarrow> u32 list \<Rightarrow> user_regs32 \<Rightarrow> memory \<Rightarrow> bool" where
  "call_frame32 a func_addr return_addr args r m \<longleftrightarrow>
     (case a of
        I386 \<Rightarrow> r32_ip r = func_addr \<and> unat (r32_sp r + 4) mod 16 = 0 \<and>
          holds m (ucast (r32_sp r)) (enc_u32 return_addr @ concat (map enc_u32 args))
      | Arm \<Rightarrow> r32_ip r = func_addr AND NOT 1 \<and> bit (r32_cpsr r) 5 = bit func_addr 0 \<and>
          (\<forall>i < length args. r32_arg r i = args ! i) \<and> unat (r32_sp r) mod 16 = 0 \<and> r32_lr r = return_addr)"

definition stack_room32 :: "arch32 \<Rightarrow> user_regs32 \<Rightarrow> nat \<Rightarrow> memory \<Rightarrow> bool" where
  "stack_room32 a r n m =
     (case a of
        I386 \<Rightarrow> unat (r32_sp r) \<ge> 4 * n + 48 \<and> (\<forall>x < unat (r32_sp r). m (word_of_nat x) \<noteq> None)
      | Arm \<Rightarrow> n \<le> 4)"

lemma thumb_bit: "bit (r32_cpsr (select_thumb r)) 5 = bit (r32_ip r) 0" "r32_ip (select_thumb r) = r32_ip r AND NOT 1"
proof -
  have b: "r32_ip r AND 1 \<noteq> 0 \<longleftrightarrow> bit (r32_ip r) 0"
    by (simp add: and_one_eq mod_2_eq_odd bit_0)
  have m: "bit CPSR_T_MASK 5" by (simp add: CPSR_T_MASK_def bit_simps)
  show "bit (r32_cpsr (select_thumb r)) 5 = bit (r32_ip r) 0"
    using b m by (cases "bit (r32_ip r) 0") (simp_all add: select_thumb_def bit_or_iff bit_and_iff bit_not_iff)
  show "r32_ip (select_thumb r) = r32_ip r AND NOT 1"
  proof (cases "bit (r32_ip r) 0")
    case False
    then have "r32_ip r AND NOT 1 = r32_ip r"
      by (intro bit_word_eqI) (auto simp: bit_and_iff bit_not_iff bit_1_iff intro!: gr0I)
    with False b show ?thesis by (simp add: select_thumb_def)
  qed (use b in \<open>simp add: select_thumb_def\<close>)
qed

lemma select_thumb_other:
  "r32_arg (select_thumb r) = r32_arg r" "r32_sp (select_thumb r) = r32_sp r" "r32_lr (select_thumb r) = r32_lr r"
  by (simp_all add: select_thumb_def)

lemma setup_arm_frame:
  assumes "length args \<le> 4"
  shows "\<exists>r1. setup_call32 Arm func_addr return_addr args r t = (r1, t) \<and>
    call_frame32 Arm func_addr return_addr args r1 m"
  using assms aligned32 [of "r32_sp r"]
  by (auto simp: setup_call32_def setup_arm_def Let_def call_frame32_def thumb_bit select_thumb_other align_stack32_def)

lemma unat_aligned32: "unat (w AND NOT 0xf :: u32) = unat w - unat w mod 16"
proof -
  have "w AND NOT 0xf = push_bit 4 (drop_bit 4 w)"
  proof -
    have "w AND NOT (mask 4) = push_bit 4 (drop_bit 4 w)" by (rule bit_word_eqI) (auto simp: bit_simps)
    then show ?thesis by (simp add: mask_eq_exp_minus_1)
  qed
  moreover have "unat w div 16 * 16 < 2 ^ 32" using unat_less_pow [of w] by simp
  moreover have "unat (drop_bit 4 w) = unat w div 16" by (simp add: unat_drop_bit_eq drop_bit_eq_div unat_div)
  ultimately have "unat (w AND NOT 0xf) = unat w div 16 * 16"
    by (simp only: unsigned_push_bit_eq) (simp add: push_bit_eq_mult take_bit_nat_eq_self)
  then show ?thesis by (simp only: minus_mod_eq_div_mult)
qed

lemma holds_two:
  assumes "length xs + length ys < 2 ^ 64"
  shows "holds (poke (poke m (b + word_of_nat (length xs)) ys) b xs) b (xs @ ys)"
  unfolding holds_def
proof (intro allI impI)
  fix i assume i: "i < length (xs @ ys)"
  have "unat (word_of_nat i :: u64) = i" using i assms by (simp add: unat_of_nat take_bit_nat_eq_self)
  then have o: "unat (b + word_of_nat i - b) = i" by simp
  show "poke (poke m (b + word_of_nat (length xs)) ys) b xs (b + word_of_nat i) = Some ((xs @ ys) ! i)"
  proof (cases "i < length xs")
    case True
    then show ?thesis using o by (simp add: poke_def nth_append)
  next
    case False
    then have "b + word_of_nat i - (b + word_of_nat (length xs)) = (word_of_nat (i - length xs) :: u64)"
      by (simp add: of_nat_diff)
    moreover have "unat (word_of_nat (i - length xs) :: u64) = i - length xs"
      using i assms by (simp add: unat_of_nat take_bit_nat_eq_self)
    moreover have "i - length xs < length ys" using i False by simp
    ultimately show ?thesis using o False i by (simp add: poke_def nth_append)
  qed
qed

lemma mapped32:
  assumes "\<forall>x < lim. m (word_of_nat x) \<noteq> None" and "unat X + k \<le> lim"
  shows "mapped m (ucast (X :: u32)) k"
  unfolding mapped_def
proof (intro allI impI)
  fix i assume "i < k"
  have "(ucast X :: u64) + word_of_nat i = word_of_nat (unat X + i)" by (simp add: unsigned_ucast_eq)
  moreover have "m (word_of_nat (unat X + i)) \<noteq> None" by (rule assms(1) [rule_format]) (use assms(2) \<open>i < k\<close> in simp)
  ultimately show "m ((ucast X :: u64) + word_of_nat i) \<noteq> None" by metis
qed

lemma length_concat_u32: "length (concat (map enc_u32 args)) = 4 * length args"
  by (induction args) simp_all

lemma unat_below: "n \<le> unat (w :: u32) \<Longrightarrow> unat (w - word_of_nat n) = unat w - n"
proof -
  assume n: "n \<le> unat w"
  then have "n < 2 ^ 32" using unat_less_pow [of w] by simp
  then have u: "unat (word_of_nat n :: u32) = n" by (simp add: unat_of_nat take_bit_nat_eq_self)
  with n have "(word_of_nat n :: u32) \<le> w" by (simp add: word_le_nat_alt)
  then show ?thesis by (simp add: unat_sub u)
qed

text \<open>The stack pointer below the arguments.\<close>

lemma arguments_room:
  fixes args :: "u32 list" and sp :: u32
  assumes "unat sp \<ge> 4 * length args + 48"
  defines "S \<equiv> (if args \<noteq> [] then ((sp AND NOT 0xf) - word_of_nat (length args * 4)) AND NOT 0xf else sp AND NOT 0xf)"
  shows "4 \<le> unat S" and "unat S + 4 * length args \<le> unat sp" and "unat S mod 16 = 0"
proof -
  have m: "unat w mod 16 < 16" for w :: u32 by simp
  have S0: "unat (sp AND NOT 0xf) = unat sp - unat sp mod 16" by (rule unat_aligned32)
  have "length args * 4 \<le> unat (sp AND NOT 0xf)" using assms(1) m [of sp] unfolding S0 by linarith
  note b = unat_below [OF this]
  have S1: "unat S = (if args \<noteq> [] then (unat sp - unat sp mod 16 - length args * 4) -
      (unat sp - unat sp mod 16 - length args * 4) mod 16 else unat sp - unat sp mod 16)"
    unfolding S_def by (simp only: if_distrib [of unat] unat_aligned32 b)
  define A where "A = unat sp mod 16"
  define B where "B = (unat sp - A - length args * 4) mod 16"
  have AB: "A < 16" "B < 16" by (simp_all add: A_def B_def)
  have S2: "unat S = (if args \<noteq> [] then unat sp - A - length args * 4 - B else unat sp - A)"
    using S1 unfolding A_def [symmetric] B_def [symmetric] .
  show "4 \<le> unat S" and "unat S + 4 * length args \<le> unat sp"
    unfolding S2 using assms(1) AB by auto
  show "unat S mod 16 = 0" unfolding S_def by (simp only: if_distrib [of unat] if_distrib [of "\<lambda>x. x mod 16"] aligned32 if_cancel)
qed

lemma setup_i386_frame:
  assumes "stack_room32 I386 r (length args) (t32_mem t)"
  shows "\<exists>r1 m1. setup_call32 I386 func_addr return_addr args r t = (r1, t\<lparr>t32_mem := m1\<rparr>) \<and>
    call_frame32 I386 func_addr return_addr args r1 m1"
proof -
  let ?sp = "r32_sp r"
  have room: "unat ?sp \<ge> 4 * length args + 48" and mem: "\<forall>x < unat ?sp. t32_mem t (word_of_nat x) \<noteq> None"
    using assms by (simp_all add: stack_room32_def)
  define S where "S = (if args \<noteq> [] then ((?sp AND NOT 0xf) - word_of_nat (length args * 4)) AND NOT 0xf else ?sp AND NOT 0xf)"
  note S = arguments_room [OF room, folded S_def]
  let ?bs = "concat (map enc_u32 args)"
  have len: "length ?bs = 4 * length args" by (rule length_concat_u32)
  have small: "4 * length args + 4 < 2 ^ 64" using room unat_less_pow [of ?sp] by simp
  have m1: "mapped (t32_mem t) (ucast S) (length ?bs)" by (rule mapped32 [OF mem]) (use S(2) in \<open>simp add: len\<close>)
  have w1: "fst (write_bytes (t32_mem t) (ucast S) ?bs) = poke (t32_mem t) (ucast S) ?bs"
    using write_bytes_poke [OF m1] small by (simp add: len)
  have uS: "unat (S - 4) = unat S - 4" using unat_below [OF S(1)] by simp
  have cS: "(ucast S :: u64) = ucast (S - 4) + 4"
    using S(1) uS by (metis le_add_diff_inverse2 of_nat_add of_nat_numeral of_nat_unat)
  have "mapped (t32_mem t) (ucast (S - 4)) 4" by (rule mapped32 [OF mem]) (use S(1,2) uS in simp)
  then have "mapped (poke (t32_mem t) (ucast S) ?bs) (ucast (S - 4)) (length (enc_u32 return_addr))"
    by (auto simp: mapped_def poke_def)
  then have w2: "fst (write_bytes (poke (t32_mem t) (ucast S) ?bs) (ucast (S - 4)) (enc_u32 return_addr)) =
      poke (poke (t32_mem t) (ucast S) ?bs) (ucast (S - 4)) (enc_u32 return_addr)"
    by (simp add: write_bytes_poke)
  have w0: "poke (t32_mem t) (ucast S) [] = t32_mem t" by (simp add: poke_def)
  let ?m = "poke (poke (t32_mem t) (ucast S) ?bs) (ucast (S - 4)) (enc_u32 return_addr)"
  have "setup_call32 I386 func_addr return_addr args r t = (r\<lparr>r32_sp := S - 4, r32_ip := func_addr\<rparr>, t\<lparr>t32_mem := ?m\<rparr>)"
    using w1 w2 by (cases "args = []")
      (simp_all add: setup_call32_def setup_i386_def Let_def align_stack32_def write_proc32_def S_def w0)
  moreover have "holds ?m (ucast (S - 4)) (enc_u32 return_addr @ ?bs)"
    using holds_two [of "enc_u32 return_addr" ?bs "t32_mem t" "ucast (S - 4)"] small cS by (simp add: len)
  ultimately show ?thesis using S(3) by (auto simp: call_frame32_def)
qed

lemma setup_call32_frame:
  assumes "stack_room32 a r (length args) (t32_mem t)"
  obtains r1 m1 where "setup_call32 a func_addr return_addr args r t = (r1, t\<lparr>t32_mem := m1\<rparr>)"
    "call_frame32 a func_addr return_addr args r1 m1"
proof (cases a)
  case I386
  with setup_i386_frame assms that show thesis by blast
next
  case Arm
  have "length args \<le> 4" using assms Arm by (simp add: stack_room32_def)
  from setup_arm_frame [OF this, of func_addr return_addr r t "t32_mem t"] Arm that [of _ "t32_mem t"] show thesis by auto
qed

text \<open>In the 32-bit builds \<open>remote_call\<close> starts the function as its ABI asks: on i386 with all arguments and the
  return address on an aligned stack, on ARM with up to four arguments in registers, the return address in the link
  register and the processor in the function's instruction set; the process runs once, and the result register is
  returned exactly when it faulted on the return address.\<close>

lemma remote_call32_convention:
  assumes "stack_room32 a r (length args) (t32_mem t)" and "t32_ok t = []"
    and "t32_runs t = (\<lambda>im. ([W_Status s], r', m')) # fs" and "WIFSTOPPED s"
  shows "\<exists>r1 m1. call_frame32 a func_addr return_addr args r1 m1 \<and>
    remote_call32 a func_addr return_addr args r t =
      Inr (if WSTOPSIG s = SIGSEGV \<and> r32_ip r' = return_addr then REG_RET32 a r' else 0, r',
           t\<lparr>t32_regs := r', t32_mem := m', t32_runs := fs, t32_log := t32_log t @ [(r1, m1)]\<rparr>)"
proof -
  obtain r1 m1 where s1: "setup_call32 a func_addr return_addr args r t = (r1, t\<lparr>t32_mem := m1\<rparr>)"
    and cf: "call_frame32 a func_addr return_addr args r1 m1"
    using setup_call32_frame [OF assms(1)] .
  have "remote_call32 a func_addr return_addr args r t =
      Inr (if WSTOPSIG s = SIGSEGV \<and> r32_ip r' = return_addr then REG_RET32 a r' else 0, r',
           t\<lparr>t32_regs := r', t32_mem := m', t32_runs := fs, t32_log := t32_log t @ [(r1, m1)]\<rparr>)"
    using assms(2-4)
    by (simp add: remote_call32_def s1 set_regs32_def get_regs32_def next_ok32_def cont_and_wait32_def)
  with cf show ?thesis by blast
qed

lemma remote_call32_convention_witness:
  "\<exists>r1 m1 t'. call_frame32 I386 0x7000 0x6000 [1, 2, 3] r1 m1 \<and>
    remote_call32 I386 0x7000 0x6000 [1, 2, 3]
      \<lparr>r32_sp = 0x5039, r32_ip = 0, r32_arg = \<lambda>_. 0, r32_lr = 0, r32_cpsr = 0, r32_ax = 0\<rparr>
     \<lparr>t32_mem = \<lambda>_. Some NUL,
      t32_regs = \<lparr>r32_sp = 0x5039, r32_ip = 0, r32_arg = \<lambda>_. 0, r32_lr = 0, r32_cpsr = 0, r32_ax = 0\<rparr>,
      t32_runs = [\<lambda>im. ([W_Status (stop_status SIGSEGV 0)],
        \<lparr>r32_sp = 0x5030, r32_ip = 0x6000, r32_arg = \<lambda>_. 0, r32_lr = 0, r32_cpsr = 0, r32_ax = 77\<rparr>, \<lambda>_. Some NUL)],
      t32_ok = [], t32_log = []\<rparr> =
    Inr (77, \<lparr>r32_sp = 0x5030, r32_ip = 0x6000, r32_arg = \<lambda>_. 0, r32_lr = 0, r32_cpsr = 0, r32_ax = 77\<rparr>, t')"
proof -
  let ?r = "\<lparr>r32_sp = 0x5039, r32_ip = 0, r32_arg = \<lambda>_. 0, r32_lr = 0, r32_cpsr = 0, r32_ax = 0\<rparr>"
  let ?r' = "\<lparr>r32_sp = 0x5030, r32_ip = 0x6000, r32_arg = \<lambda>_. 0, r32_lr = 0, r32_cpsr = 0, r32_ax = 77\<rparr>"
  let ?f = "\<lambda>im :: user_regs32 \<times> memory. ([W_Status (stop_status SIGSEGV 0)], ?r', \<lambda>_ :: u64. Some NUL)"
  let ?t = "\<lparr>t32_mem = \<lambda>_. Some NUL, t32_regs = ?r, t32_runs = [?f], t32_ok = [], t32_log = []\<rparr>"
  have "stack_room32 I386 ?r (length [1, 2, 3 :: u32]) (t32_mem ?t)" by (simp add: stack_room32_def)
  moreover have "WIFSTOPPED (stop_status SIGSEGV 0)" by (simp add: stop_status_def wait_defs)
  moreover have "WSTOPSIG (stop_status SIGSEGV 0) = SIGSEGV" by (simp add: stop_status_def wait_defs)
  ultimately show ?thesis
    using remote_call32_convention [of I386 ?r "[1, 2, 3]" ?t "stop_status SIGSEGV 0" ?r' "\<lambda>_. Some NUL" "[]" "0x7000" "0x6000"]
    by (simp add: REG_RET32_def) blast
qed

end
