(* ===== verification/Dl_Logging.thy ===== *)
theory Dl_Logging
  imports Zygiskd
begin

text \<open>
  Log messages (\<open>loader/src/common/logging.cpp\<close>) with the loop in which the daemon takes them
  (\<open>zygiskd/src/zygiskd.rs\<close>), and the two ways the library loads others (\<open>loader/src/common/dl.cpp\<close>).
\<close>

section \<open>Logging\<close>

text \<open>The descriptor with the connection behind it, and what went to Android's own log instead.  The text of a call is
  the format with its arguments filled in.\<close>

record logger =
  lg_fd :: fd
  lg_sock :: sock
  lg_android :: "(int \<times> string \<times> string) list"

definition BUFSIZ :: nat where "BUFSIZ = 1024"

definition getfd :: "logger \<Rightarrow> fd" where "getfd g = lg_fd g"

text \<open>The results of the three writes are not looked at.\<close>

definition log_msg :: "int \<Rightarrow> string \<Rightarrow> string \<Rightarrow> logger \<Rightarrow> logger" where
  "log_msg prio tag body g =
     (if lg_fd g = -1 then g\<lparr>lg_android := lg_android g @ [(prio, tag, body)]\<rparr>
      else
        (let buf = take (BUFSIZ - 1) body;
             s1 = snd (write_u8 (word_of_int prio) (lg_sock g));
             s2 = snd (write_string tag s1);
             s3 = snd (write_string buf s2)
         in g\<lparr>lg_sock := s3\<rparr>))"

fun log_all :: "(int \<times> string \<times> string) list \<Rightarrow> logger \<Rightarrow> logger" where
  "log_all [] g = g"
| "log_all ((prio, tag, body) # ms) g = log_all ms (log_msg prio tag body g)"

section \<open>The daemon's loop\<close>

text \<open>What the daemon reads, from the bytes that arrive until the connection closes.  A string must be valid UTF-8.\<close>

definition take_bytes :: "nat \<Rightarrow> string \<Rightarrow> (string \<times> string) option" where
  "take_bytes n bs = (if n \<le> length bs then Some (take n bs, drop n bs) else None)"

definition take_str :: "(string \<Rightarrow> bool) \<Rightarrow> string \<Rightarrow> (string \<times> string) option" where
  "take_str utf8 bs =
     (case take_bytes 8 bs of
        None \<Rightarrow> None
      | Some (l, r) \<Rightarrow>
          (case take_bytes (unat (dec_word l :: u64)) r of
             None \<Rightarrow> None
           | Some (x, r') \<Rightarrow> if utf8 x then Some (x, r') else None))"

definition take_log :: "(string \<Rightarrow> bool) \<Rightarrow> string \<Rightarrow> ((u8 \<times> string \<times> string) \<times> string) option" where
  "take_log utf8 bs =
     (case take_bytes 1 bs of
        None \<Rightarrow> None
      | Some (l, r) \<Rightarrow>
          (case take_str utf8 r of
             None \<Rightarrow> None
           | Some (tag, r1) \<Rightarrow>
               (case take_str utf8 r1 of None \<Rightarrow> None | Some (msg, r2) \<Rightarrow> Some ((dec_word l, tag, msg), r2))))"

lemma take_bytes_shorter: "take_bytes n bs = Some (x, r) \<Longrightarrow> length r + n = length bs"
  by (auto simp: take_bytes_def split: if_splits)

lemma take_str_shorter: "take_str utf8 bs = Some (x, r) \<Longrightarrow> length r \<le> length bs"
  by (auto simp: take_str_def split: option.splits if_splits dest!: take_bytes_shorter)

lemma take_log_shorter: "take_log utf8 bs = Some (x, r) \<Longrightarrow> length r < length bs"
  by (auto simp: take_log_def split: option.splits dest!: take_bytes_shorter take_str_shorter)

function log_relay :: "(string \<Rightarrow> bool) \<Rightarrow> string \<Rightarrow> (u8 \<times> string \<times> string) list" where
  "log_relay utf8 bs = (case take_log utf8 bs of None \<Rightarrow> [] | Some (m, r) \<Rightarrow> m # log_relay utf8 r)"
  by pat_completeness auto
termination
  by (relation "measure (\<lambda>(utf8, bs). length bs)") (auto dest: take_log_shorter)

declare log_relay.simps [simp del]

section \<open>Messages arrive\<close>

definition enc_log :: "int \<times> string \<times> string \<Rightarrow> string" where
  "enc_log m = (case m of (prio, tag, body) \<Rightarrow>
     enc_u8 (word_of_int prio) @ enc_string tag @ enc_string (take (BUFSIZ - 1) body))"

lemma take_bytes_append: "length x = n \<Longrightarrow> take_bytes n (x @ r) = Some (x, r)"
  by (simp add: take_bytes_def)

lemma take_str_enc: "length x < 2 ^ 64 - 1 \<Longrightarrow> take_str utf8 (enc_string x @ r) = (if utf8 x then Some (x, r) else None)"
  by (simp add: take_str_def enc_string_def take_bytes_append dec_enc_u64 unat_length)

lemma take_log_enc:
  assumes "length tag < 2 ^ 64 - 1"
  shows "take_log utf8 (enc_log (prio, tag, body) @ r) =
    (if utf8 tag \<and> utf8 (take (BUFSIZ - 1) body) then Some ((word_of_int prio, tag, take (BUFSIZ - 1) body), r) else None)"
proof -
  have "length (take (BUFSIZ - 1) body) < 2 ^ 64 - 1" by (simp add: BUFSIZ_def)
  then show ?thesis using assms
    by (simp add: take_log_def enc_log_def take_bytes_append dec_enc_u8 take_str_enc)
qed

lemma write_string_out:
  assumes "Fail \<notin> set (wsched s)"
  shows "outq (snd (write_string x s)) = outq s @ enc_string x \<and> Fail \<notin> set (wsched (snd (write_string x s)))"
proof -
  obtain s1 where s1: "xwrite (enc_u64 (word_of_nat (length x))) s = (8, s1)"
      "outq s1 = outq s @ enc_u64 (word_of_nat (length x))" "Fail \<notin> set (wsched s1)"
    by (rule xwrite_all [OF assms, of "enc_u64 (word_of_nat (length x))"]) simp
  obtain s2 where "xwrite x s1 = (length x, s2)" "outq s2 = outq s1 @ x" "Fail \<notin> set (wsched s2)"
    by (rule xwrite_all [OF s1(3), of x])
  with s1 show ?thesis by (simp add: write_string_def write_usize_def write_exact_def enc_string_def)
qed

lemma log_msg_out:
  assumes "lg_fd g \<noteq> -1" and "Fail \<notin> set (wsched (lg_sock g))"
  shows "outq (lg_sock (log_msg prio tag body g)) = outq (lg_sock g) @ enc_log (prio, tag, body)"
    and "Fail \<notin> set (wsched (lg_sock (log_msg prio tag body g)))" and "lg_fd (log_msg prio tag body g) = lg_fd g"
proof -
  obtain s1 where s1: "xwrite (enc_u8 (word_of_int prio)) (lg_sock g) = (1, s1)"
      "outq s1 = outq (lg_sock g) @ enc_u8 (word_of_int prio)" "Fail \<notin> set (wsched s1)"
    by (rule xwrite_all [OF assms(2), of "enc_u8 (word_of_int prio)"]) simp
  note w = write_string_out [OF s1(3), of tag]
  note w' = write_string_out [OF w [THEN conjunct2], of "take (BUFSIZ - 1) body"]
  show "outq (lg_sock (log_msg prio tag body g)) = outq (lg_sock g) @ enc_log (prio, tag, body)"
    and "Fail \<notin> set (wsched (lg_sock (log_msg prio tag body g)))" and "lg_fd (log_msg prio tag body g) = lg_fd g"
    using assms(1) s1 w w' by (simp_all add: log_msg_def write_u8_def write_exact_def enc_log_def Let_def)
qed

lemma log_all_out:
  assumes "lg_fd g \<noteq> -1" and "Fail \<notin> set (wsched (lg_sock g))"
  shows "outq (lg_sock (log_all ms g)) = outq (lg_sock g) @ concat (map enc_log ms)"
  using assms
proof (induction ms arbitrary: g)
  case (Cons m ms)
  obtain prio tag body where m: "m = (prio, tag, body)" by (metis prod.exhaust)
  note o = log_msg_out [OF Cons.prems, of prio tag body]
  from Cons.IH [OF _ o(2)] Cons.prems(1) o(1,3) show ?case by (simp add: m)
qed simp

definition cut_msg :: "int \<times> string \<times> string \<Rightarrow> u8 \<times> string \<times> string" where
  "cut_msg m = (case m of (prio, tag, body) \<Rightarrow> (word_of_int prio, tag, take (BUFSIZ - 1) body))"

definition log_ok :: "(string \<Rightarrow> bool) \<Rightarrow> int \<times> string \<times> string \<Rightarrow> bool" where
  "log_ok utf8 m = (case m of (_, tag, body) \<Rightarrow> length tag < 2 ^ 64 - 1 \<and> utf8 tag \<and> utf8 (take (BUFSIZ - 1) body))"

lemma log_relay_enc:
  assumes "\<forall>m \<in> set ms. log_ok utf8 m"
  shows "log_relay utf8 (concat (map enc_log ms) @ r) = map cut_msg ms @ log_relay utf8 r"
  using assms
proof (induction ms)
  case (Cons m ms)
  obtain prio tag body where m: "m = (prio, tag, body)" by (metis prod.exhaust)
  from Cons show ?case
    using take_log_enc [of tag utf8 prio body "concat (map enc_log ms) @ r"]
    by (subst log_relay.simps) (simp add: m log_ok_def cut_msg_def)
qed simp

lemma log_relay_empty: "log_relay utf8 [] = []"
  by (subst log_relay.simps) (simp add: take_log_def take_bytes_def)

text \<open>C36: The messages the library logs through the daemon arrive there in order, each with its level and tag and the
  first 1023 bytes of its text, under any schedule of partial writes without failures, as long as those bytes are
  valid UTF-8.\<close>

theorem log_roundtrip:
  assumes "lg_fd g \<noteq> -1" and "Fail \<notin> set (wsched (lg_sock g))" and "outq (lg_sock g) = []"
    and "\<forall>m \<in> set ms. log_ok utf8 m"
  shows "log_relay utf8 (outq (lg_sock (log_all ms g))) = map cut_msg ms"
  using log_relay_enc [OF assms(4), of "[]"] log_all_out [OF assms(1,2), of ms] assms(3)
  by (simp add: log_relay_empty)

theorem log_roundtrip_witness:
  "log_relay (\<lambda>_. True) (outq (lg_sock (log_all [(4, ''zygisk'', ''hello''), (6, ''zygisk'', ''bye'')]
      \<lparr>lg_fd = 7, lg_sock = \<lparr>inq = [], rsched = [], outq = [], wsched = [Chunk 0, Intr, Chunk 3]\<rparr>, lg_android = []\<rparr>))) =
   [(4, ''zygisk'', ''hello''), (6, ''zygisk'', ''bye'')]"
  using log_roundtrip [of "\<lparr>lg_fd = 7, lg_sock = \<lparr>inq = [], rsched = [], outq = [], wsched = [Chunk 0, Intr, Chunk 3]\<rparr>,
      lg_android = []\<rparr>" "[(4, ''zygisk'', ''hello''), (6, ''zygisk'', ''bye'')]" "\<lambda>_. True"]
  by (simp add: log_ok_def cut_msg_def BUFSIZ_def)

text \<open>The cut does not look at characters: a text that is valid UTF-8 but is cut inside a character ends the daemon's
  loop, and with it every later message of the process.\<close>

lemma cut_character_ends_log:
  assumes "lg_fd g \<noteq> -1" and "Fail \<notin> set (wsched (lg_sock g))" and "outq (lg_sock g) = []"
    and "\<forall>m \<in> set ms. log_ok utf8 m" and "length tag < 2 ^ 64 - 1" and "\<not> utf8 (take (BUFSIZ - 1) body)"
  shows "log_relay utf8 (outq (lg_sock (log_all (ms @ (prio, tag, body) # later) g))) = map cut_msg ms"
proof -
  have "log_relay utf8 (concat (map enc_log ms) @ enc_log (prio, tag, body) @ concat (map enc_log later)) = map cut_msg ms"
    unfolding log_relay_enc [OF assms(4)]
    by (subst log_relay.simps) (use assms(6) in \<open>simp add: take_log_enc [OF assms(5)]\<close>)
  then show ?thesis using log_all_out [OF assms(1,2)] assms(3) by simp
qed

section \<open>Loading libraries\<close>

record dlextinfo =
  dx_namespace :: "nat option"
  dx_fd :: "fd option"

definition slash :: char where "slash = CHR ''/''"

text \<open>\<open>dirname\<close> of the C library.\<close>

definition dirname :: "string \<Rightarrow> string" where
  "dirname path =
     (let s = dropWhile (\<lambda>c. c = slash) (rev path);
          d = dropWhile (\<lambda>c. c = slash) (dropWhile (\<lambda>c. c \<noteq> slash) s)
      in if path = [] then ''.''
         else if s = [] then ''/''
         else if slash \<notin> set s then ''.''
         else if d = [] then ''/'' else rev d)"

text \<open>The function that makes a linker namespace is a weak symbol, so it may be missing; \<open>android_dlopen_ext\<close> is the
  parameter \<open>dl\<close>.\<close>

definition DlopenExt ::
  "(string \<Rightarrow> string \<Rightarrow> nat) option \<Rightarrow> (string \<Rightarrow> int \<Rightarrow> dlextinfo \<Rightarrow> nat) \<Rightarrow> string \<Rightarrow> int \<Rightarrow> nat" where
  "DlopenExt create_namespace dl path flags =
     (let dir = dirname path;
          ns = (case create_namespace of None \<Rightarrow> 0 | Some f \<Rightarrow> f path dir);
          info = \<lparr>dx_namespace = (if ns \<noteq> 0 then Some ns else None), dx_fd = None\<rparr>
      in dl path flags info)"

definition DlopenMem :: "(string \<Rightarrow> int \<Rightarrow> dlextinfo \<Rightarrow> nat) \<Rightarrow> fd \<Rightarrow> int \<Rightarrow> nat" where
  "DlopenMem dl f flags = dl ''/jit-cache-zygisk'' flags \<lparr>dx_namespace = None, dx_fd = Some f\<rparr>"

lemma dropWhile_name: "slash \<notin> set n \<Longrightarrow> dropWhile (\<lambda>c. c \<noteq> slash) (n @ slash # r) = slash # r"
  by (induction n) auto

lemma dirname_of_file:
  assumes "n \<noteq> []" and "slash \<notin> set n" and "d \<noteq> []" and "List.last d \<noteq> slash"
  shows "dirname (d @ slash # n) = d"
proof -
  have rn: "dropWhile (\<lambda>c. c = slash) (rev n @ slash # rev d) = rev n @ slash # rev d"
  proof -
    obtain c cs where "rev n = c # cs" using assms(1) by (cases "rev n") auto
    moreover have "c \<noteq> slash" using assms(2) calculation by (metis list.set_intros(1) set_rev)
    ultimately show ?thesis by simp
  qed
  have rd: "dropWhile (\<lambda>c. c = slash) (rev d) = rev d"
  proof -
    obtain c cs where r: "rev d = c # cs" using assms(3) by (cases "rev d") auto
    then have "c = List.last d" using assms(3) by (metis hd_rev list.sel(1))
    with assms(4) show ?thesis by (simp add: r)
  qed
  have "dropWhile (\<lambda>c. c \<noteq> slash) (rev n @ slash # rev d) = slash # rev d"
    using dropWhile_name [of "rev n" "rev d"] assms(2) by simp
  then show ?thesis using assms rn rd by (simp add: dirname_def Let_def)
qed

text \<open>With a namespace, a library's own dependencies are looked for in its directory.\<close>

lemma DlopenExt_namespace:
  assumes "n \<noteq> []" and "slash \<notin> set n" and "d \<noteq> []" and "List.last d \<noteq> slash" and "f (d @ slash # n) d = ns" and "ns \<noteq> 0"
  shows "DlopenExt (Some f) dl (d @ slash # n) flags =
    dl (d @ slash # n) flags \<lparr>dx_namespace = Some ns, dx_fd = None\<rparr>"
  using assms by (simp add: DlopenExt_def dirname_of_file Let_def)

end
