(* ===== verification/Module_Api.thy ===== *)
theory Module_Api
  imports Zygisk_Context Jni_Hooks
begin

text \<open>
  What the header for modules, \<open>loader/src/include/api.hpp\<close>, declares, against what the loader has: the argument
  structs, the flags, and a module's use of \<open>hookJniNativeMethods\<close>.
\<close>

section \<open>Declarations\<close>

text \<open>The members of the argument structs in their order: references, then the pointers that may be null.\<close>

definition api_AppSpecializeArgs :: "(jty \<times> string) list \<times> (jty \<times> string) list" where
  "api_AppSpecializeArgs =
     ([(J_int, ''uid''), (J_int, ''gid''), (J_intArray, ''gids''), (J_int, ''runtime_flags''), (J_objectArray, ''rlimits''),
       (J_int, ''mount_external''), (J_string, ''se_info''), (J_string, ''nice_name''), (J_string, ''instruction_set''),
       (J_string, ''app_data_dir'')],
      [(J_intArray, ''fds_to_ignore''), (J_boolean, ''is_child_zygote''), (J_boolean, ''is_top_app''),
       (J_objectArray, ''pkg_data_info_list''), (J_objectArray, ''whitelisted_data_info_list''),
       (J_boolean, ''mount_data_dirs''), (J_boolean, ''mount_storage_dirs''), (J_boolean, ''mount_sysprop_overrides'')])"

definition api_ServerSpecializeArgs :: "(jty \<times> string) list" where
  "api_ServerSpecializeArgs =
     [(J_int, ''uid''), (J_int, ''gid''), (J_intArray, ''gids''), (J_int, ''runtime_flags''),
      (J_long, ''permitted_capabilities''), (J_long, ''effective_capabilities'')]"

definition FORCE_DENYLIST_UNMOUNT :: int where "FORCE_DENYLIST_UNMOUNT = 0"
definition DLCLOSE_MODULE_LIBRARY :: int where "DLCLOSE_MODULE_LIBRARY = 1"

definition StateFlag_PROCESS_GRANTED_ROOT :: u32 where "StateFlag_PROCESS_GRANTED_ROOT = push_bit 0 1"
definition StateFlag_PROCESS_ON_DENYLIST :: u32 where "StateFlag_PROCESS_ON_DENYLIST = push_bit 1 1"

text \<open>The loader's own flags, in \<open>module.hpp\<close>.\<close>

definition module_PROCESS_IS_MANAGER :: u32 where "module_PROCESS_IS_MANAGER = push_bit 28 1"
definition module_PROCESS_ROOT_IS_APATCH :: u32 where "module_PROCESS_ROOT_IS_APATCH = push_bit 27 1"
definition module_PROCESS_ROOT_IS_KSU :: u32 where "module_PROCESS_ROOT_IS_KSU = push_bit 29 1"
definition module_PROCESS_ROOT_IS_MAGISK :: u32 where "module_PROCESS_ROOT_IS_MAGISK = push_bit 30 1"
definition module_PROCESS_IS_SYS_UI :: u32 where "module_PROCESS_IS_SYS_UI = push_bit 31 1"

text \<open>A module reads the structs of the loader as the header declares them.\<close>

lemma api_args_layout:
  "api_AppSpecializeArgs = (AppSpecializeArgs_required, AppSpecializeArgs_optional) \<and>
   api_ServerSpecializeArgs = ServerSpecializeArgs_v1"
  by (simp add: api_AppSpecializeArgs_def api_ServerSpecializeArgs_def AppSpecializeArgs_required_def
      AppSpecializeArgs_optional_def ServerSpecializeArgs_v1_def app_head_def dirs_def data_lists_def)

section \<open>Flags\<close>

lemma flag_values:
  "StateFlag_PROCESS_GRANTED_ROOT = PROCESS_GRANTED_ROOT" "StateFlag_PROCESS_ON_DENYLIST = PROCESS_ON_DENYLIST"
  by (simp_all add: StateFlag_PROCESS_GRANTED_ROOT_def StateFlag_PROCESS_ON_DENYLIST_def process_flag_defs)

text \<open>Loader and daemon number the private flags alike.\<close>

lemma private_flag_values:
  "module_PROCESS_IS_MANAGER = PROCESS_IS_MANAGER" "module_PROCESS_ROOT_IS_APATCH = PROCESS_ROOT_IS_APATCH"
  "module_PROCESS_ROOT_IS_KSU = PROCESS_ROOT_IS_KSU" "module_PROCESS_ROOT_IS_MAGISK = PROCESS_ROOT_IS_MAGISK"
  "module_PROCESS_IS_SYS_UI = PROCESS_IS_SYS_UI"
  by (simp_all add: module_PROCESS_IS_MANAGER_def module_PROCESS_ROOT_IS_APATCH_def module_PROCESS_ROOT_IS_KSU_def
      module_PROCESS_ROOT_IS_MAGISK_def module_PROCESS_IS_SYS_UI_def process_flag_defs)

lemma process_flags_not_private:
  assumes "process_flags q uid = Some f"
  shows "f AND NOT PRIVATE_MASK = f"
  using assms
  by (cases "rq_impl q"; cases "rq_is_manager q uid"; cases "rq_granted_root q uid"; cases "rq_should_umount q uid")
    (auto simp: process_flags_def root_flag_def process_flag_defs PRIVATE_MASK_def Let_def)

text \<open>\<open>getFlags\<close> is documented to return \<open>StateFlag\<close>s, but of the daemon's answer it hides only the bit for the
  system's user interface, which the daemon never sets: a module also sees which root solution is in use and whether
  the process is its manager.\<close>

lemma getFlags_hides_nothing:
  assumes "g_ctx z" and "process_flags q uid = Some (c_info_flags z)"
  shows "getFlags z = c_info_flags z"
  using assms process_flags_not_private by (simp add: getFlags_def)

lemma getFlags_exposes_root:
  assumes "g_ctx z" and "process_flags q uid = Some (c_info_flags z)"
  shows "getFlags z AND NOT (StateFlag_PROCESS_GRANTED_ROOT OR StateFlag_PROCESS_ON_DENYLIST) \<noteq> 0"
  using assms(2)
  by (cases "rq_impl q"; cases "rq_is_manager q uid"; cases "rq_granted_root q uid"; cases "rq_should_umount q uid")
    (auto simp: getFlags_hides_nothing [OF assms] process_flags_def root_flag_def process_flag_defs Let_def
      StateFlag_PROCESS_GRANTED_ROOT_def StateFlag_PROCESS_ON_DENYLIST_def)

section \<open>Hooks of a module\<close>

text \<open>\<open>Api::hookJniNativeMethods\<close>: the call through the module's table.\<close>

definition api_hookJniNativeMethods :: "zmodule \<Rightarrow> jni \<Rightarrow> string \<Rightarrow> native_method list \<Rightarrow> native_method list \<times> jni" where
  "api_hookJniNativeMethods m j clz methods =
     (case t_slots (m_api m) ! 0 of
        Some Fn_hookJniNativeMethods \<Rightarrow>
          (case hookJniNativeMethods (can_hook_jni j) (MODIFIER_NATIVE j) clz methods (j_vm j) of
             (ms, vm) \<Rightarrow> (ms, j\<lparr>j_vm := vm\<rparr>))
      | _ \<Rightarrow> (methods, j))"

definition with_orig :: "java_class \<Rightarrow> native_method list \<Rightarrow> native_method list" where
  "with_orig cls ms = map (\<lambda>m. m\<lparr>nm_fnPtr := data_of cls m\<rparr>) ms"

lemma hook_class_eq:
  assumes "vm clz = Some cls" and "list_all (\<lambda>m. native_in cls m \<longrightarrow> nm_fnPtr m \<noteq> None) ms"
  shows "hookJniNativeMethods True ACC_NATIVE clz ms vm =
    (with_orig cls ms, vm(clz \<mapsto> fold set_data (filter (native_in cls) ms) cls))"
proof -
  have "RegisterNatives (filter (native_in cls) ms) cls = (0, fold set_data (filter (native_in cls) ms) cls)"
    by (rule RegisterNatives_all) (use assms(2) in \<open>auto simp: list_all_iff\<close>)
  moreover have "vm(clz \<mapsto> cls) = vm" using assms(1) by auto
  ultimately show ?thesis
    using assms(1) by (auto simp: hookJniNativeMethods_def hook_methods_eq with_orig_def split: if_splits)
qed

lemma data_of_fnPtr: "data_of cls (x\<lparr>nm_fnPtr := f\<rparr>) = data_of cls x"
  by (simp add: data_of_def native_in_def key_def)

lemma filter_with_orig: "filter (native_in cls) (with_orig cls' ms) = with_orig cls' (filter (native_in cls) ms)"
  by (simp add: with_orig_def filter_map comp_def)

text \<open>A module that hooks native methods of a class gets the original pointers in its table, and passing the same
  table once more puts the class back exactly as it was, with the module's own functions back in the table.\<close>

lemma module_hook_roundtrip:
  assumes "t_slots (m_api m) ! 0 = Some Fn_hookJniNativeMethods" and "can_hook_jni j" and "MODIFIER_NATIVE j = ACC_NATIVE"
    and "j_vm j clz = Some cls" and "distinct (map key ms)"
    and "list_all (\<lambda>x. native_in cls x \<longrightarrow> nm_fnPtr x \<noteq> None \<and> data_of cls x \<noteq> None) ms"
    and "api_hookJniNativeMethods m j clz ms = (ms1, j1)"
    and "api_hookJniNativeMethods m j1 clz ms1 = (ms2, j2)"
  shows "map nm_fnPtr ms1 = map (data_of cls) ms \<and> j2 = j \<and>
    list_all2 (\<lambda>x y. native_in cls x \<longrightarrow> y = x) ms ms2"
proof -
  let ?F = "filter (native_in cls)"
  let ?c = "fold set_data (?F ms) cls"
  have 1: "ms1 = with_orig cls ms" "j1 = j\<lparr>j_vm := (j_vm j)(clz \<mapsto> ?c)\<rparr>"
    using assms(1-4,6,7) hook_class_eq [of "j_vm j" clz cls ms]
    by (auto simp: api_hookJniNativeMethods_def list_all_iff)
  have n: "native_in ?c = native_in cls" by (rule ext) simp
  have "list_all (\<lambda>x. native_in ?c x \<longrightarrow> nm_fnPtr x \<noteq> None) (with_orig cls ms)"
    using assms(6) by (auto simp: n with_orig_def list_all_iff)
  then have 2: "hookJniNativeMethods True ACC_NATIVE clz (with_orig cls ms) ((j_vm j)(clz \<mapsto> ?c)) =
      (with_orig ?c (with_orig cls ms), (j_vm j)(clz \<mapsto> fold set_data (filter (native_in ?c) (with_orig cls ms)) ?c))"
    using hook_class_eq [of "(j_vm j)(clz \<mapsto> ?c)" clz ?c "with_orig cls ms"] by simp
  have "fold set_data (filter (native_in ?c) (with_orig cls ms)) ?c = cls"
    unfolding n filter_with_orig unfolding with_orig_def
    by (rule set_data_back) (use assms(5) in \<open>auto simp: list_all_iff distinct_map intro: inj_on_subset\<close>)
  with 2 assms(1-4,8) have j2: "j2 = j" "ms2 = with_orig ?c (with_orig cls ms)"
    by (auto simp: api_hookJniNativeMethods_def 1 fun_upd_idem)
  have "data_of ?c x = nm_fnPtr x" if "x \<in> set ms" "native_in cls x" for x
  proof -
    have "x \<in> set (?F ms)" and "distinct (map key (?F ms))" using that assms(5) by (simp_all add: distinct_map_filter)
    from fold_set_data_in [OF this] that(2) show ?thesis
      by (auto simp: data_of_def native_in_def split: option.splits)
  qed
  then have "list_all2 (\<lambda>x y. native_in cls x \<longrightarrow> y = x) ms ms2"
    unfolding j2 with_orig_def by (simp add: list_all2_conv_all_nth data_of_fnPtr)
  with 1 j2 show ?thesis by (simp add: with_orig_def comp_def)
qed

definition sample_hook :: native_method where
  "sample_hook = \<lparr>nm_name = ''run'', nm_signature = ''()V'', nm_fnPtr = Some (Art_fn 99)\<rparr>"

definition sample_hook_class :: java_class where
  "sample_hook_class = [(''run'', ''()V'') \<mapsto> \<lparr>jm_static = True, jm_modifiers = ACC_NATIVE, jm_data = Some (Art_fn 11)\<rparr>]"

definition sample_hook_jni :: jni where
  "sample_hook_jni = \<lparr>j_vm = [''a/B'' \<mapsto> sample_hook_class], can_hook_jni = True, MODIFIER_NATIVE = ACC_NATIVE,
     member_getModifiers = True, j_fork = [], j_specialize = [], j_server = [], nativeForkAndSpecialize_orig = None,
     nativeSpecializeAppProcess_orig = None, nativeForkSystemServer_orig = None, jni_hook_list = None\<rparr>"

text \<open>A registered module hooks one method of the sample class and takes the hook back.\<close>

lemma module_hook_roundtrip_witness:
  "t_slots (m_api ((ZygiskModule 0 7)\<lparr>m_api := \<lparr>t_register = True, t_slots = fill_api 4 (replicate 8 None)\<rparr>\<rparr>)) ! 0 =
     Some Fn_hookJniNativeMethods \<and>
   (\<exists>ms1 j1 ms2. map nm_fnPtr ms1 = [Some (Art_fn 11)] \<and>
      (case api_hookJniNativeMethods
              ((ZygiskModule 0 7)\<lparr>m_api := \<lparr>t_register = True, t_slots = fill_api 4 (replicate 8 None)\<rparr>\<rparr>)
              sample_hook_jni ''a/B'' [sample_hook] of (ms, j) \<Rightarrow> ms = ms1 \<and> j = j1) \<and>
      api_hookJniNativeMethods
        ((ZygiskModule 0 7)\<lparr>m_api := \<lparr>t_register = True, t_slots = fill_api 4 (replicate 8 None)\<rparr>\<rparr>) j1 ''a/B'' ms1 =
        (ms2, sample_hook_jni))"
proof -
  let ?m = "(ZygiskModule 0 7)\<lparr>m_api := \<lparr>t_register = True, t_slots = fill_api 4 (replicate 8 None)\<rparr>\<rparr>"
  obtain ms1 j1 where 1: "api_hookJniNativeMethods ?m sample_hook_jni ''a/B'' [sample_hook] = (ms1, j1)" by fastforce
  obtain ms2 j2 where 2: "api_hookJniNativeMethods ?m j1 ''a/B'' ms1 = (ms2, j2)" by fastforce
  have slot: "t_slots (m_api ?m) ! 0 = Some Fn_hookJniNativeMethods" by (simp add: fill_api_def Let_def)
  have nat_in: "native_in sample_hook_class sample_hook" by code_simp
  have d: "data_of sample_hook_class sample_hook = Some (Art_fn 11)" by code_simp
  have "map nm_fnPtr ms1 = map (data_of sample_hook_class) [sample_hook] \<and> j2 = sample_hook_jni \<and>
      list_all2 (\<lambda>x y. native_in sample_hook_class x \<longrightarrow> y = x) [sample_hook] ms2"
    by (rule module_hook_roundtrip [OF slot _ _ _ _ _ 1 2]) (use nat_in d in \<open>simp_all add: sample_hook_jni_def sample_hook_def\<close>)
  with 1 2 slot d show ?thesis by auto
qed

end
