(* ===== verification/Hook_Lock.thy ===== *)
theory Hook_Lock
  imports Zygisk_Run
begin

text \<open>
  \<open>hook_info_lock\<close> of \<open>loader/src/injector/hook.cpp\<close> and the \<open>mutex_guard\<close> of \<open>loader/src/include/misc.hpp\<close>:
  modules may call the functions for hooks from several threads.  A thread has a program of such calls and runs it in
  the steps of the source, one access to the shared lists or one call of \<open>lsplt\<close> at a time; a schedule says which thread
  moves next.  \<open>plt_hook_commit\<close> gives the lock back before it calls \<open>CommitHook\<close>.
\<close>

section \<open>Threads\<close>

datatype hook_op =
    Op_register "string option" "string option" nat nat
  | Op_exclude "string option" "string option"
  | Op_commit

datatype phase =
    Ph_Idle
  | Ph_Lock hook_op                                          \<comment> \<open>at the constructor of the guard\<close>
  | Ph_Add hook_op                                           \<comment> \<open>at \<open>emplace_back\<close>\<close>
  | Ph_Test                                                  \<comment> \<open>at \<open>register_info.empty()\<close>\<close>
  | Ph_Scan "map_info list"                                  \<comment> \<open>at the loop over the mappings\<close>
  | Ph_Regs map_info "register_info list" "map_info list"    \<comment> \<open>at the loop over the registrations\<close>
  | Ph_Clear_register
  | Ph_Clear_ignore
  | Ph_Unlock hook_op                                        \<comment> \<open>at the destructor of the guard\<close>
  | Ph_Commit                                                \<comment> \<open>at \<open>CommitHook\<close>, the lock given back\<close>

text \<open>\<open>hl_done\<close> is no variable of the program: the calls in the order in which they gave the lock back.\<close>

record hook_threads =
  hl_lock :: "nat option"
  hl_z :: zygote
  hl_pc :: "nat \<Rightarrow> phase"
  hl_todo :: "nat \<Rightarrow> hook_op list"
  hl_done :: "(nat \<times> hook_op) list"

text \<open>The constructor of \<open>mutex_guard\<close> waits for the mutex; its destructor unlocks it unless \<open>unlock\<close> did before.\<close>

definition mutex_guard :: "nat \<Rightarrow> hook_threads \<Rightarrow> hook_threads option" where
  "mutex_guard t s = (if hl_lock s = None then Some (s\<lparr>hl_lock := Some t\<rparr>) else None)"

definition guard_unlock :: "hook_threads \<Rightarrow> bool \<times> hook_threads" where
  "guard_unlock s = (False, s\<lparr>hl_lock := None\<rparr>)"

definition destroy_mutex_guard :: "bool \<Rightarrow> hook_threads \<Rightarrow> hook_threads" where
  "destroy_mutex_guard held s = (if held then s\<lparr>hl_lock := None\<rparr> else s)"

text \<open>The early returns before the guard.\<close>

definition op_accepted :: "zenv \<Rightarrow> hook_op \<Rightarrow> bool" where
  "op_accepted e c =
     (case c of
        Op_register regex symbol fn backup \<Rightarrow> regex \<noteq> None \<and> symbol \<noteq> None \<and> fn \<noteq> 0 \<and> e_regcomp e (the regex)
      | Op_exclude regex symbol \<Rightarrow> regex \<noteq> None \<and> e_regcomp e (the regex)
      | Op_commit \<Rightarrow> True)"

definition emplace :: "zenv \<Rightarrow> hook_op \<Rightarrow> zygote \<Rightarrow> zygote" where
  "emplace e c z =
     (case c of
        Op_register regex symbol fn backup \<Rightarrow> plt_hook_register e regex symbol fn backup z
      | Op_exclude regex symbol \<Rightarrow> plt_hook_exclude e regex symbol z
      | Op_commit \<Rightarrow> z)"

definition goto :: "nat \<Rightarrow> phase \<Rightarrow> hook_threads \<Rightarrow> hook_threads" where
  "goto t p s = s\<lparr>hl_pc := (hl_pc s)(t := p)\<rparr>"

definition finished :: "nat \<Rightarrow> hook_op \<Rightarrow> hook_threads \<Rightarrow> hook_threads" where
  "finished t c s = s\<lparr>hl_done := hl_done s @ [(t, c)]\<rparr>"

definition thread_step :: "zenv \<Rightarrow> nat \<Rightarrow> hook_threads \<Rightarrow> hook_threads option" where
  "thread_step e t s =
     (case hl_pc s t of
        Ph_Idle \<Rightarrow>
          (case hl_todo s t of
             [] \<Rightarrow> None
           | c # cs \<Rightarrow>
               let s1 = s\<lparr>hl_todo := (hl_todo s)(t := cs)\<rparr>
               in Some (if op_accepted e c then goto t (Ph_Lock c) s1 else finished t c s1))
      | Ph_Lock c \<Rightarrow> map_option (goto t (if c = Op_commit then Ph_Test else Ph_Add c)) (mutex_guard t s)
      | Ph_Add c \<Rightarrow> Some (goto t (Ph_Unlock c) (s\<lparr>hl_z := emplace e c (hl_z s)\<rparr>))
      | Ph_Test \<Rightarrow> Some (goto t (if c_register_info (hl_z s) = [] then Ph_Clear_register else Ph_Scan (e_maps e)) s)
      | Ph_Scan [] \<Rightarrow> Some (goto t Ph_Clear_register s)
      | Ph_Scan (m # ms) \<Rightarrow>
          Some (goto t (if mi_offset m \<noteq> 0 \<or> \<not> mi_private m \<or> mi_perms m AND PROT_READ = 0 then Ph_Scan ms
                        else Ph_Regs m (c_register_info (hl_z s)) ms) s)
      | Ph_Regs m [] ms \<Rightarrow> Some (goto t (Ph_Scan ms) s)
      | Ph_Regs m (reg # rs) ms \<Rightarrow> Some (goto t (Ph_Regs m rs ms) (s\<lparr>hl_z := process_map e m [reg] (hl_z s)\<rparr>))
      | Ph_Clear_register \<Rightarrow> Some (goto t Ph_Clear_ignore (s\<lparr>hl_z := (hl_z s)\<lparr>c_register_info := []\<rparr>\<rparr>))
      | Ph_Clear_ignore \<Rightarrow> Some (goto t (Ph_Unlock Op_commit) (s\<lparr>hl_z := (hl_z s)\<lparr>c_ignore_info := []\<rparr>\<rparr>))
      | Ph_Unlock c \<Rightarrow>
          Some (finished t c (goto t (if c = Op_commit then Ph_Commit else Ph_Idle) (destroy_mutex_guard True s)))
      | Ph_Commit \<Rightarrow> Some (goto t Ph_Idle (s\<lparr>hl_z := snd (CommitHook e (hl_z s))\<rparr>)))"

fun run_schedule :: "zenv \<Rightarrow> nat list \<Rightarrow> hook_threads \<Rightarrow> hook_threads" where
  "run_schedule e [] s = s"
| "run_schedule e (t # ts) s =
     run_schedule e ts (case thread_step e t s of None \<Rightarrow> s | Some s' \<Rightarrow> s')"

definition hooks_start :: "zygote \<Rightarrow> (nat \<Rightarrow> hook_op list) \<Rightarrow> hook_threads" where
  "hooks_start z prog = \<lparr>hl_lock = None, hl_z = z, hl_pc = (\<lambda>_. Ph_Idle), hl_todo = prog, hl_done = []\<rparr>"

section \<open>The calls as single steps\<close>

definition clear_info :: "zygote \<Rightarrow> zygote" where
  "clear_info z = z\<lparr>c_register_info := [], c_ignore_info := []\<rparr>"

definition critical :: "zenv \<Rightarrow> hook_op \<Rightarrow> zygote \<Rightarrow> zygote" where
  "critical e c z = (if c = Op_commit then clear_info (plt_hook_process_regex e z) else emplace e c z)"

text \<open>What the lock protects: everything but the places of the \<open>CommitHook\<close> calls between the others.\<close>

definition protected_part :: "zygote \<Rightarrow> zygote" where
  "protected_part z = z\<lparr>z_ls := filter (\<lambda>c. c \<noteq> LS_Commit) (z_ls z)\<rparr>"

text \<open>How the thread that holds the lock will leave it.\<close>

fun ph_rest :: "zenv \<Rightarrow> phase \<Rightarrow> zygote \<Rightarrow> zygote" where
  "ph_rest e (Ph_Add c) z = emplace e c z"
| "ph_rest e Ph_Test z = critical e Op_commit z"
| "ph_rest e (Ph_Scan ms) z = clear_info (process_maps e ms z)"
| "ph_rest e (Ph_Regs m rs ms) z = clear_info (process_maps e ms (process_map e m rs z))"
| "ph_rest e Ph_Clear_register z = clear_info z"
| "ph_rest e Ph_Clear_ignore z = z\<lparr>c_ignore_info := []\<rparr>"
| "ph_rest e _ z = z"

fun ph_op :: "phase \<Rightarrow> hook_op list" where
  "ph_op Ph_Idle = []"
| "ph_op (Ph_Lock c) = [c]"
| "ph_op (Ph_Add c) = [c]"
| "ph_op (Ph_Unlock c) = [c]"
| "ph_op Ph_Commit = []"
| "ph_op _ = [Op_commit]"

fun ph_holds :: "phase \<Rightarrow> bool" where
  "ph_holds Ph_Idle = False"
| "ph_holds (Ph_Lock _) = False"
| "ph_holds Ph_Commit = False"
| "ph_holds _ = True"

fun ph_ok :: "phase \<Rightarrow> bool" where
  "ph_ok (Ph_Add c) = (c \<noteq> Op_commit)"
| "ph_ok _ = True"

text \<open>On the way to a \<open>CommitHook\<close>.\<close>

fun ph_commits :: "phase \<Rightarrow> bool" where
  "ph_commits (Ph_Scan _) = True"
| "ph_commits (Ph_Regs _ _ _) = True"
| "ph_commits Ph_Clear_register = True"
| "ph_commits Ph_Clear_ignore = True"
| "ph_commits (Ph_Unlock c) = (c = Op_commit)"
| "ph_commits Ph_Commit = True"
| "ph_commits _ = False"

section \<open>Lemmas on the single steps\<close>

lemma protected_simps [simp]:
  "protected_part (protected_part z) = protected_part z"
  "c_register_info (protected_part z) = c_register_info z"
  "c_ignore_info (protected_part z) = c_ignore_info z"
  "protected_part (z\<lparr>c_register_info := rs\<rparr>) = (protected_part z)\<lparr>c_register_info := rs\<rparr>"
  "protected_part (z\<lparr>c_ignore_info := is\<rparr>) = (protected_part z)\<lparr>c_ignore_info := is\<rparr>"
  "protected_part (snd (CommitHook e z)) = protected_part z"
  "protected_part (RegisterHook d i nm cb bk z) = RegisterHook d i nm cb bk (protected_part z)"
  by (simp_all add: protected_part_def CommitHook_def RegisterHook_def)

lemma protected_emplace: "protected_part (emplace e c z) = emplace e c (protected_part z)"
  by (cases c) (auto simp: emplace_def plt_hook_register_def plt_hook_exclude_def protected_part_def split: option.split)

lemma protected_process_map: "protected_part (process_map e m rs z) = process_map e m rs (protected_part z)"
  by (simp add: process_map_eq protected_part_def)

lemma process_map_Cons: "process_map e m (r # rs) z = process_map e m rs (process_map e m [r] z)"
  by simp

lemma process_map_info [simp]:
  "c_register_info (process_map e m rs z) = c_register_info z"
  "c_ignore_info (process_map e m rs z) = c_ignore_info z"
  by (simp_all add: process_map_eq)

lemma critical_refused: "\<not> op_accepted e c \<Longrightarrow> critical e c z = z"
  by (cases c)
    (auto simp: op_accepted_def critical_def emplace_def plt_hook_register_def plt_hook_exclude_def split: option.split)

lemma critical_emplace: "c \<noteq> Op_commit \<Longrightarrow> critical e c z = emplace e c z"
  by (simp add: critical_def)

lemma ls_kept:
  "z_ls (emplace e c z) = z_ls z"
  "\<exists>new. z_ls (process_map e m rs z) = z_ls z @ new \<and> LS_Commit \<notin> set new"
  by (cases c) (auto simp: emplace_def plt_hook_register_def plt_hook_exclude_def process_map_eq split: option.split)

lemmas goto_simps = goto_def finished_def mutex_guard_def destroy_mutex_guard_def

section \<open>What holds at every moment\<close>

text \<open>A thread is inside its section exactly if it holds the lock.\<close>

definition lock_ok :: "hook_threads \<Rightarrow> bool" where
  "lock_ok s \<longleftrightarrow> (\<forall>t. ph_holds (hl_pc s t) = (hl_lock s = Some t) \<and> ph_ok (hl_pc s t))"

definition calls_of :: "nat \<Rightarrow> (nat \<times> hook_op) list \<Rightarrow> hook_op list" where
  "calls_of t cs = map snd (filter (\<lambda>(u, _). u = t) cs)"

definition order_ok :: "(nat \<Rightarrow> hook_op list) \<Rightarrow> hook_threads \<Rightarrow> bool" where
  "order_ok prog s \<longleftrightarrow> (\<forall>t. calls_of t (hl_done s) @ ph_op (hl_pc s t) @ hl_todo s t = prog t)"

definition serial :: "zenv \<Rightarrow> (nat \<times> hook_op) list \<Rightarrow> zygote \<Rightarrow> zygote" where
  "serial e cs z = fold (\<lambda>(_, c). critical e c) cs z"

definition data_ok :: "zenv \<Rightarrow> zygote \<Rightarrow> hook_threads \<Rightarrow> bool" where
  "data_ok e z0 s \<longleftrightarrow>
     (let z = protected_part (hl_z s); z' = serial e (hl_done s) (protected_part z0)
      in case hl_lock s of
           None \<Rightarrow> z = z'
         | Some t \<Rightarrow> ph_rest e (hl_pc s t) z = critical e (hd (ph_op (hl_pc s t))) z')"

definition commits_ok :: "zygote \<Rightarrow> hook_threads \<Rightarrow> bool" where
  "commits_ok z0 s \<longleftrightarrow>
     (\<exists>new. z_ls (hl_z s) = z_ls z0 @ new \<and> (new = [] \<or> last new = LS_Commit \<or> (\<exists>t. ph_commits (hl_pc s t))))"

lemma step_other:
  assumes "thread_step e t s = Some s'" and "u \<noteq> t"
  shows "hl_pc s' u = hl_pc s u" "hl_todo s' u = hl_todo s u" "calls_of u (hl_done s') = calls_of u (hl_done s)"
  using assms
  by (cases "hl_pc s t"; auto simp: thread_step_def goto_simps calls_of_def Let_def split: if_splits list.splits)+

lemma step_own:
  assumes "thread_step e t s = Some s'"
  shows "calls_of t (hl_done s') @ ph_op (hl_pc s' t) @ hl_todo s' t =
      calls_of t (hl_done s) @ ph_op (hl_pc s t) @ hl_todo s t"
  using assms
  by (cases "hl_pc s t")
    (auto simp: thread_step_def goto_simps calls_of_def Let_def split: if_splits list.splits)

lemma step_order:
  assumes "thread_step e t s = Some s'" and "order_ok prog s"
  shows "order_ok prog s'"
  unfolding order_ok_def
proof
  fix u
  have "calls_of u (hl_done s) @ ph_op (hl_pc s u) @ hl_todo s u = prog u" using assms(2) by (simp add: order_ok_def)
  then show "calls_of u (hl_done s') @ ph_op (hl_pc s' u) @ hl_todo s' u = prog u"
    using step_own [OF assms(1)] step_other [OF assms(1), of u] by (cases "u = t") simp_all
qed

text \<open>Whether the thread holds the lock changes only with the lock.\<close>

lemma step_own_lock:
  assumes "thread_step e t s = Some s'" and "ph_holds (hl_pc s t) = (hl_lock s = Some t)" and "ph_ok (hl_pc s t)"
  shows "ph_holds (hl_pc s' t) = (hl_lock s' = Some t)" "ph_ok (hl_pc s' t)"
    "u \<noteq> t \<Longrightarrow> (hl_lock s' = Some u) = (hl_lock s = Some u)"
  using assms
  by (cases "hl_pc s t"; auto simp: thread_step_def goto_simps Let_def split: if_splits list.splits)+

lemma step_lock:
  assumes "thread_step e t s = Some s'" and "lock_ok s"
  shows "lock_ok s'"
  unfolding lock_ok_def
proof
  fix u
  have l: "ph_holds (hl_pc s v) = (hl_lock s = Some v)" "ph_ok (hl_pc s v)" for v
    using assms(2) by (simp_all add: lock_ok_def)
  note own = step_own_lock [OF assms(1) l]
  show "ph_holds (hl_pc s' u) = (hl_lock s' = Some u) \<and> ph_ok (hl_pc s' u)"
  proof (cases "u = t")
    case False
    then show ?thesis using l [of u] own(3) [of u] by (simp add: step_other(1) [OF assms(1) False])
  qed (use own(1,2) in simp)
qed

lemma step_data:
  assumes st: "thread_step e t s = Some s'" and "lock_ok s" and "data_ok e z0 s"
  shows "data_ok e z0 s'"
proof (cases "hl_lock s = Some t")
  case True
  then have "ph_holds (hl_pc s t)" "ph_ok (hl_pc s t)" using assms(2) by (auto simp: lock_ok_def)
  with st True assms(3) show ?thesis
    by (cases "hl_pc s t")
      (auto simp: data_ok_def thread_step_def goto_simps serial_def critical_def clear_info_def protected_emplace
        protected_process_map plt_hook_process_regex_def Let_def split: if_splits list.splits)
next
  case False
  then have "\<not> ph_holds (hl_pc s t)" using assms(2) by (simp add: lock_ok_def)
  with st False assms(3) show ?thesis
    by (cases "hl_pc s t")
      (auto simp: data_ok_def thread_step_def goto_simps serial_def critical_refused critical_emplace Let_def
        split: if_splits list.splits option.splits)
qed

lemma step_own_commits:
  assumes "thread_step e t s = Some s'"
  shows "\<exists>new. z_ls (hl_z s') = z_ls (hl_z s) @ new \<and>
    (new = [] \<and> (ph_commits (hl_pc s t) \<longrightarrow> ph_commits (hl_pc s' t)) \<or>
     ph_commits (hl_pc s' t) \<or> new \<noteq> [] \<and> last new = LS_Commit)"
  using assms
  by (cases "hl_pc s t")
    (auto simp: thread_step_def goto_simps ls_kept(1) process_map_eq CommitHook_def Let_def
      split: if_splits list.splits simp del: process_map.simps)

lemma step_commits:
  assumes st: "thread_step e t s = Some s'" and "commits_ok z0 s"
  shows "commits_ok z0 s'"
proof -
  obtain old where old: "z_ls (hl_z s) = z_ls z0 @ old"
    "old = [] \<or> last old = LS_Commit \<or> (\<exists>u. ph_commits (hl_pc s u))"
    using assms(2) by (auto simp: commits_ok_def)
  obtain new where new: "z_ls (hl_z s') = z_ls (hl_z s) @ new"
    "new = [] \<and> (ph_commits (hl_pc s t) \<longrightarrow> ph_commits (hl_pc s' t)) \<or>
     ph_commits (hl_pc s' t) \<or> new \<noteq> [] \<and> last new = LS_Commit"
    using step_own_commits [OF st] by blast
  have "new = [] \<and> (ph_commits (hl_pc s t) \<longrightarrow> ph_commits (hl_pc s' t)) \<Longrightarrow>
      \<exists>u. ph_commits (hl_pc s u) \<Longrightarrow> \<exists>u. ph_commits (hl_pc s' u)"
    using step_other(1) [OF st] by metis
  then have "old @ new = [] \<or> last (old @ new) = LS_Commit \<or> (\<exists>u. ph_commits (hl_pc s' u))"
    using old(2) new(2) by auto
  with old(1) new(1) show ?thesis unfolding commits_ok_def by (metis append_assoc)
qed

definition hooks_inv :: "zenv \<Rightarrow> zygote \<Rightarrow> (nat \<Rightarrow> hook_op list) \<Rightarrow> hook_threads \<Rightarrow> bool" where
  "hooks_inv e z0 prog s \<longleftrightarrow> lock_ok s \<and> order_ok prog s \<and> data_ok e z0 s \<and> commits_ok z0 s"

text \<open>What is proved of schedules rests on this contract of a single step alone.\<close>

locale interleaving =
  fixes step :: "nat \<Rightarrow> 's \<Rightarrow> 's option" and inv :: "'s \<Rightarrow> bool"
  assumes inv_step: "step t s = Some s' \<Longrightarrow> inv s \<Longrightarrow> inv s'"
begin

lemma inv_schedule: "inv s \<Longrightarrow> inv (fold (\<lambda>t s. case step t s of None \<Rightarrow> s | Some s' \<Rightarrow> s') ts s)"
  by (induction ts arbitrary: s) (auto split: option.split intro: inv_step)

end

interpretation threads: interleaving "thread_step e" "hooks_inv e z0 prog"
  by unfold_locales (auto simp: hooks_inv_def intro: step_lock step_order step_data step_commits)

lemma run_schedule_fold: "run_schedule e ts s = fold (\<lambda>t s. case thread_step e t s of None \<Rightarrow> s | Some s' \<Rightarrow> s') ts s"
  by (induction ts arbitrary: s) auto

lemmas hooks_inv_run = threads.inv_schedule [folded run_schedule_fold]

lemma hooks_inv_start: "hooks_inv e z0 prog (hooks_start z0 prog)"
  by (simp add: hooks_inv_def hooks_start_def lock_ok_def order_ok_def calls_of_def data_ok_def serial_def
      commits_ok_def)

text \<open>A thread that is not at its end can move, or waits for one that can.\<close>

lemma holder_moves: "ph_holds (hl_pc s t) \<Longrightarrow> thread_step e t s \<noteq> None"
  by (cases "hl_pc s t") (auto simp: thread_step_def split: list.split)

lemma stuck_is_done:
  assumes "lock_ok s" and "\<forall>t. thread_step e t s = None"
  shows "hl_pc s t = Ph_Idle \<and> hl_todo s t = [] \<and> hl_lock s = None"
proof -
  have l: "hl_lock s = None" using assms holder_moves unfolding lock_ok_def by (metis option.exhaust)
  then show ?thesis
    using assms(2) [rule_format, of t]
    by (cases "hl_pc s t") (auto simp: thread_step_def mutex_guard_def Let_def split: list.splits)
qed

section \<open>Calls from several threads\<close>

text \<open>C11: Whatever the schedule, at most one thread is inside the calls' critical sections; the threads never block each
  other for ever: when none can move, all have done their programs.  Then the registrations, exclusions and the hooks
  registered with \<open>lsplt\<close> are what the calls give one after the other, in an order that keeps the program of every
  thread, and no registered hook was left without a commit after it.\<close>

theorem hook_calls_linearizable:
  assumes "s = run_schedule e ts (hooks_start z0 prog)"
  shows "(\<forall>t u. ph_holds (hl_pc s t) \<and> ph_holds (hl_pc s u) \<longrightarrow> t = u) \<and>
    ((\<forall>t. thread_step e t s = None) \<longrightarrow>
       protected_part (hl_z s) = serial e (hl_done s) (protected_part z0) \<and>
       (\<forall>t. calls_of t (hl_done s) = prog t) \<and>
       (\<exists>new. z_ls (hl_z s) = z_ls z0 @ new \<and> (new = [] \<or> last new = LS_Commit)))"
proof -
  have inv: "lock_ok s" "order_ok prog s" "data_ok e z0 s" "commits_ok z0 s"
    using hooks_inv_run [OF hooks_inv_start] by (simp_all add: assms hooks_inv_def)
  have "t = u" if "ph_holds (hl_pc s t)" "ph_holds (hl_pc s u)" for t u
    using inv(1) that by (simp add: lock_ok_def)
  moreover
  { assume "\<forall>t. thread_step e t s = None"
    then have d: "hl_pc s t = Ph_Idle" "hl_todo s t = []" "hl_lock s = None" for t
      using stuck_is_done [OF inv(1)] by auto
    then have "protected_part (hl_z s) = serial e (hl_done s) (protected_part z0)"
      "calls_of t (hl_done s) = prog t"
      "\<exists>new. z_ls (hl_z s) = z_ls z0 @ new \<and> (new = [] \<or> last new = LS_Commit)" for t
      using inv(2-4) d by (auto simp: data_ok_def order_ok_def commits_ok_def dest: spec [of _ t]) }
  ultimately show ?thesis by blast
qed

text \<open>Two threads that take turns, each with a registration and a commit; one mapping matches both.\<close>

lemma run_other:
  "u \<notin> set ts \<Longrightarrow> hl_pc (run_schedule e ts s) u = hl_pc s u \<and> hl_todo (run_schedule e ts s) u = hl_todo s u"
  by (induction ts arbitrary: s) (auto split: option.split simp: step_other)

definition two_threads :: "nat \<Rightarrow> hook_op list" where
  "two_threads t = (if t = 0 then [Op_register (Some ''/lib'') (Some ''f'') 5 6, Op_commit]
     else if t = 1 then [Op_register (Some ''/lib'') (Some ''g'') 7 8, Op_exclude None None, Op_commit] else [])"

definition one_map_env :: zenv where
  "one_map_env = (sample_env sample_code)\<lparr>e_maps := [\<lparr>mi_start = 0, mi_end = 8, mi_perms = 1, mi_private = True,
     mi_offset = 0, mi_dev = 2, mi_inode = 3, mi_path = ''/lib''\<rparr>]\<rparr>"

definition in_turns :: "nat list" where
  "in_turns = concat (replicate 24 [0, 1])"

theorem hook_calls_linearizable_witness:
  "\<exists>s. s = run_schedule one_map_env in_turns (hooks_start sample_zygote two_threads) \<and>
     (\<forall>t. thread_step one_map_env t s = None) \<and> calls_of 1 (hl_done s) = two_threads 1 \<and>
     length (z_ls (hl_z s)) = 4 \<and> last (z_ls (hl_z s)) = LS_Commit"
proof -
  let ?s = "run_schedule one_map_env in_turns (hooks_start sample_zygote two_threads)"
  have "(thread_step one_map_env 0 ?s = None \<and> thread_step one_map_env 1 ?s = None) \<and> length (z_ls (hl_z ?s)) = 4"
    by code_simp
  then have e: "thread_step one_map_env 0 ?s = None" "thread_step one_map_env 1 ?s = None" "length (z_ls (hl_z ?s)) = 4"
    by auto
  have stop: "thread_step one_map_env t ?s = None" for t
  proof (cases "t \<in> {0, 1}")
    case True
    then show ?thesis using e by auto
  next
    case False
    then have "t \<notin> set in_turns" by (simp add: in_turns_def)
    then show ?thesis
      using run_other [of t in_turns one_map_env "hooks_start sample_zygote two_threads"] False
      by (simp add: thread_step_def hooks_start_def two_threads_def)
  qed
  have "z_ls sample_zygote = []" by (simp add: sample_zygote_def)
  with hook_calls_linearizable [OF refl, of one_map_env in_turns sample_zygote two_threads] stop e(3)
  show ?thesis by auto
qed

end
