(* ===== verification/Jni_Wrappers.thy ===== *)
theory Jni_Wrappers
  imports Jni_Safe
begin

text \<open>
  The contract of the wrappers of \<open>loader/src/injector/jni_helper.hpp\<close> as a locale: a call leaves no exception pending,
  and of the references it makes exactly those that its result owns are left.  Every wrapper over
  \<open>JNI_SafeInvoke\<close> meets it, and so do calls that follow each other.
\<close>

section \<open>The contract\<close>

definition good_env :: "vm \<Rightarrow> nat \<Rightarrow> nat \<Rightarrow> bool" where
  "good_env vm g m \<longleftrightarrow> tells_pending vm \<and> never_throws vm \<and> trace_printed vm g m"

definition clean_step :: "nat \<times> nat \<Rightarrow> jstate \<Rightarrow> jstate \<Rightarrow> nat multiset \<Rightarrow> bool" where
  "clean_step p st st' N \<longleftrightarrow> \<not> pending (j_hist st') \<and> j_static st' = Some p \<and> moves {#} st st' N"

lemma moves_then: "moves {#} st st1 M \<Longrightarrow> moves {#} st1 st2 N \<Longrightarrow> moves {#} st st2 (M + N)"
  using moves_trans [OF _ moves_frame2 [of "{#}" st1 st2 N M]] by simp

lemma clean_step_trans: "clean_step p st st1 M \<Longrightarrow> clean_step p st1 st2 N \<Longrightarrow> clean_step p st st2 (M + N)"
  unfolding clean_step_def using moves_then by blast

locale jni_wrapper =
  fixes call :: "vm \<Rightarrow> jstate \<Rightarrow> 'w \<times> jstate" and own :: "'w \<Rightarrow> nat multiset"
  assumes call_clean:
    "good_env vm g m \<Longrightarrow> j_static st = Some (g, m) \<Longrightarrow> call vm st = (w, st') \<Longrightarrow> clean_step (g, m) st st' (own w)"
begin

lemma no_exception: "good_env vm g m \<Longrightarrow> j_static st = Some (g, m) \<Longrightarrow> \<not> pending (j_hist (snd (call vm st)))"
  using call_clean [of vm g m st "fst (call vm st)"] by (simp add: clean_step_def)

text \<open>Calls one after the other leave the references of all their results.\<close>

fun calls :: "nat \<Rightarrow> vm \<Rightarrow> jstate \<Rightarrow> 'w list \<times> jstate" where
  "calls 0 vm st = ([], st)"
| "calls (Suc n) vm st = (case call vm st of (w, st1) \<Rightarrow> case calls n vm st1 of (ws, st2) \<Rightarrow> (w # ws, st2))"

lemma calls_moves:
  assumes "good_env vm g m" and "j_static st = Some (g, m)" and "calls n vm st = (ws, st')"
  shows "moves {#} st st' (sum_list (map own ws)) \<and> j_static st' = Some (g, m)"
  using assms(2,3)
proof (induction n arbitrary: st ws)
  case 0
  then show ?case by (auto simp: moves_def)
next
  case (Suc n)
  obtain w st1 where c: "call vm st = (w, st1)" by fastforce
  obtain ws1 st2 where r: "calls n vm st1 = (ws1, st2)" by fastforce
  have w: "clean_step (g, m) st st1 (own w)" by (rule call_clean [OF assms(1) Suc.prems(1) c])
  have ws: "ws = w # ws1" and "st2 = st'" using Suc.prems(2) by (simp_all add: c r)
  with r w Suc.IH [of st1 ws1] have "moves {#} st1 st' (sum_list (map own ws1)) \<and> j_static st' = Some (g, m)"
    by (simp add: clean_step_def)
  with w show ?case by (auto simp: ws clean_step_def intro: moves_then)
qed

end

text \<open>A call whose result the next call gets.\<close>

locale jni_seq = a: jni_wrapper call1 own1
  for call1 :: "vm \<Rightarrow> jstate \<Rightarrow> 'a \<times> jstate" and own1 :: "'a \<Rightarrow> nat multiset" +
  fixes call2 :: "'a \<Rightarrow> vm \<Rightarrow> jstate \<Rightarrow> 'b \<times> jstate" and own2 :: "'b \<Rightarrow> nat multiset"
  assumes second: "jni_wrapper (call2 x) own2"
begin

definition seq :: "vm \<Rightarrow> jstate \<Rightarrow> ('a \<times> 'b) \<times> jstate" where
  "seq vm st = (case call1 vm st of (x, st1) \<Rightarrow> case call2 x vm st1 of (y, st2) \<Rightarrow> ((x, y), st2))"

lemma seq_clean:
  assumes "good_env vm g m" and "j_static st = Some (g, m)" and "seq vm st = (w, st')"
  shows "clean_step (g, m) st st' (own1 (fst w) + own2 (snd w))"
proof -
  obtain x st1 where x: "call1 vm st = (x, st1)" by fastforce
  obtain y st2 where y: "call2 x vm st1 = (y, st2)" by fastforce
  have 1: "clean_step (g, m) st st1 (own1 x)" by (rule a.call_clean [OF assms(1,2) x])
  then have "clean_step (g, m) st1 st2 (own2 y)"
    by (intro jni_wrapper.call_clean [OF second assms(1) _ y]) (simp add: clean_step_def)
  with 1 assms(3) show ?thesis by (auto simp: seq_def x y intro: clean_step_trans)
qed

end

sublocale jni_seq \<subseteq> seq: jni_wrapper seq "\<lambda>w. own1 (fst w) + own2 (snd w)"
  by unfold_locales (rule seq_clean)

section \<open>The wrappers meet it\<close>

definition ref_of :: "scoped_ref \<Rightarrow> nat multiset" where "ref_of s = ref_set (local_ref s)"
definition no_ref :: "jval \<Rightarrow> nat multiset" where "no_ref v = {#}"

lemma safe_invoke_step:
  assumes "good_env vm g m" and "j_static st = Some (g, m)" and "f \<noteq> Env_DeleteLocalRef" "f \<noteq> Env_NewGlobalRef"
    and "JNI_SafeInvoke vm f args st = (w, st')"
  shows "clean_step (g, m) st st' (owned w)"
  using JNI_SafeInvoke_pending [OF _ _ _ assms(2,5)] JNI_SafeInvoke_moves(1) [OF assms(2,5,3,4), of "{#}"]
    JNI_SafeInvoke_moves(2) [OF assms(2,5,3,4)] assms(1)
  by (auto simp: good_env_def clean_step_def)

lemma result_shapes:
  assumes "JNI_SafeInvoke vm f args st = (w, st')"
  shows "result_of f = K_object \<Longrightarrow> owned w = ref_of (scoped w)" and "result_of f = K_value \<Longrightarrow> owned w = no_ref (raw w)"
  using assms by (auto simp: JNI_SafeInvoke_def WrapScope_def ref_of_def no_ref_def split: prod.splits)

lemma wrapper_any:
  "f \<noteq> Env_DeleteLocalRef \<Longrightarrow> f \<noteq> Env_NewGlobalRef \<Longrightarrow> jni_wrapper (\<lambda>vm. JNI_SafeInvoke vm f args) owned"
  by unfold_locales (rule safe_invoke_step)

lemma wrapper_scoped:
  assumes "f \<noteq> Env_DeleteLocalRef" "f \<noteq> Env_NewGlobalRef" "result_of f = K_object"
  shows "jni_wrapper (\<lambda>vm. invoke_scoped vm f args) ref_of"
proof
  fix vm g m st w st'
  assume e: "good_env vm g m" "j_static st = Some (g, m)" and i: "invoke_scoped vm f args st = (w, st')"
  obtain w1 where c: "JNI_SafeInvoke vm f args st = (w1, st')" and w: "w = scoped w1"
    using i by (auto simp: invoke_scoped_def split: prod.splits)
  from safe_invoke_step [OF e assms(1,2) c] result_shapes(1) [OF c assms(3)]
  show "clean_step (g, m) st st' (ref_of w)" by (simp add: w)
qed

lemma wrapper_raw:
  assumes "f \<noteq> Env_DeleteLocalRef" "f \<noteq> Env_NewGlobalRef" "result_of f = K_value"
  shows "jni_wrapper (\<lambda>vm. invoke_raw vm f args) no_ref"
proof
  fix vm g m st w st'
  assume e: "good_env vm g m" "j_static st = Some (g, m)" and i: "invoke_raw vm f args st = (w, st')"
  obtain w1 where c: "JNI_SafeInvoke vm f args st = (w1, st')" and w: "w = raw w1"
    using i by (auto simp: invoke_raw_def split: prod.splits)
  from safe_invoke_step [OF e assms(1,2) c] result_shapes(2) [OF c assms(3)]
  show "clean_step (g, m) st st' (no_ref w)" by (simp add: w)
qed

interpretation w_FindClass: jni_wrapper "\<lambda>vm. JNI_FindClass vm name" ref_of
  unfolding JNI_FindClass_def by (rule wrapper_scoped) simp_all

interpretation w_GetObjectClass: jni_wrapper "\<lambda>vm. JNI_GetObjectClass vm obj" ref_of
  unfolding JNI_GetObjectClass_def by (rule wrapper_scoped) simp_all

interpretation w_GetFieldID: jni_wrapper "\<lambda>vm. JNI_GetFieldID vm clazz name sig" no_ref
  unfolding JNI_GetFieldID_def by (rule wrapper_raw) simp_all

interpretation w_GetField: jni_wrapper "\<lambda>vm. JNI_GetField vm t obj fieldId" owned
  unfolding JNI_GetField_def by (rule wrapper_any) simp_all

interpretation w_SetField: jni_wrapper "\<lambda>vm. JNI_SetField vm t obj fieldId val" owned
  unfolding JNI_SetField_def by (rule wrapper_any) simp_all

interpretation w_GetStaticFieldID: jni_wrapper "\<lambda>vm. JNI_GetStaticFieldID vm clazz name sig" no_ref
  unfolding JNI_GetStaticFieldID_def by (rule wrapper_raw) simp_all

interpretation w_GetStaticField: jni_wrapper "\<lambda>vm. JNI_GetStaticField vm t clazz fieldId" owned
  unfolding JNI_GetStaticField_def by (rule wrapper_any) simp_all

interpretation w_SetStaticField: jni_wrapper "\<lambda>vm. JNI_SetStaticField vm t clazz fieldId val" owned
  unfolding JNI_SetStaticField_def by (rule wrapper_any) simp_all

interpretation w_ToReflectedMethod: jni_wrapper "\<lambda>vm. JNI_ToReflectedMethod vm clazz method isStatic" ref_of
  unfolding JNI_ToReflectedMethod_def by (rule wrapper_scoped) simp_all

interpretation w_GetMethodID: jni_wrapper "\<lambda>vm. JNI_GetMethodID vm clazz name sig" no_ref
  unfolding JNI_GetMethodID_def by (rule wrapper_raw) simp_all

interpretation w_CallMethod: jni_wrapper "\<lambda>vm. JNI_CallMethod vm r obj method args" owned
  unfolding JNI_CallMethod_def by (rule wrapper_any) simp_all

interpretation w_GetStaticMethodID: jni_wrapper "\<lambda>vm. JNI_GetStaticMethodID vm clazz name sig" no_ref
  unfolding JNI_GetStaticMethodID_def by (rule wrapper_raw) simp_all

interpretation w_CallStaticMethod: jni_wrapper "\<lambda>vm. JNI_CallStaticMethod vm r clazz method args" owned
  unfolding JNI_CallStaticMethod_def by (rule wrapper_any) simp_all

interpretation w_CallNonvirtual: jni_wrapper "\<lambda>vm. JNI_CallCallNonvirtualMethod vm r obj clazz method args" owned
  unfolding JNI_CallCallNonvirtualMethod_def by (rule wrapper_any) simp_all

interpretation w_NewObject: jni_wrapper "\<lambda>vm. JNI_NewObject vm clazz method args" ref_of
  unfolding JNI_NewObject_def by (rule wrapper_scoped) simp_all

interpretation w_NewDirectByteBuffer: jni_wrapper "\<lambda>vm. JNI_NewDirectByteBuffer vm args" ref_of
  unfolding JNI_NewDirectByteBuffer_def by (rule wrapper_scoped) simp_all

interpretation w_RegisterNatives: jni_wrapper "\<lambda>vm. JNI_RegisterNatives vm clazz methods n" no_ref
  unfolding JNI_RegisterNatives_def by (rule wrapper_raw) simp_all

interpretation w_IsInstanceOf: jni_wrapper "\<lambda>vm. JNI_IsInstanceOf vm obj clazz" no_ref
  unfolding JNI_IsInstanceOf_def by (rule wrapper_raw) simp_all

interpretation w_GetArrayLength: jni_wrapper "\<lambda>vm. JNI_GetArrayLength vm arr" no_ref
  unfolding JNI_GetArrayLength_def by (rule wrapper_raw) simp_all

interpretation w_NewObjectArray: jni_wrapper "\<lambda>vm. JNI_NewObjectArray vm len clazz init" owned
  unfolding JNI_NewObjectArray_def by (rule wrapper_any) simp_all

interpretation w_NewArray: jni_wrapper "\<lambda>vm. JNI_NewArray vm t len" owned
  unfolding JNI_NewArray_def by (rule wrapper_any) simp_all

section \<open>A composed wrapper\<close>

text \<open>The first two calls of \<open>JNI_GetObjectFieldOf\<close>, then the third.\<close>

interpretation class_field: jni_seq "\<lambda>vm. JNI_GetObjectClass vm obj" ref_of
  "\<lambda>cls vm. JNI_GetFieldID vm (A_scoped cls) fname fsig" no_ref
  by unfold_locales (rule w_GetFieldID.call_clean)

interpretation field_of: jni_seq "class_field.seq obj fname fsig" "\<lambda>w. ref_of (fst w) + no_ref (snd w)"
  "\<lambda>w vm. JNI_GetField vm T_Object obj (as_id (snd w))" owned
  by unfold_locales (rule w_GetField.call_clean)

lemma GetObjectFieldOf_seq:
  "JNI_GetObjectFieldOf vm obj fname fsig st =
     (case field_of.seq obj fname fsig vm st of (w, st3) \<Rightarrow>
        (snd w, snd (destroy_ScopedLocalRef vm (fst (fst w)) st3)))"
  by (simp add: JNI_GetObjectFieldOf_def field_of.seq_def class_field.seq_def split: prod.split)

lemma GetObjectFieldOf_clean:
  assumes "good_env vm g m" and "j_static st = Some (g, m)" and "JNI_GetObjectFieldOf vm obj fname fsig st = (w, st')"
  shows "clean_step (g, m) st st' (owned w)"
proof -
  obtain x st3 where x: "field_of.seq obj fname fsig vm st = (x, st3)" by fastforce
  have w: "w = snd x" and st': "st' = snd (destroy_ScopedLocalRef vm (fst (fst x)) st3)"
    using assms(3) by (simp_all add: GetObjectFieldOf_seq x)
  from field_of.seq_clean [OF assms(1,2) x]
  have c: "\<not> pending (j_hist st3)" "j_static st3 = Some (g, m)" "moves {#} st st3 (owned w + ref_set (local_ref (fst (fst x))))"
    by (simp_all add: clean_step_def w ref_of_def no_ref_def add.commute)
  have "moves {#} st st' (owned w)" using moves_trans [OF c(3) moves_destroy] by (simp add: st')
  with c pending_destroy [of vm] assms(1) show ?thesis by (simp add: clean_step_def st' good_env_def)
qed

interpretation w_GetObjectFieldOf: jni_wrapper "\<lambda>vm. JNI_GetObjectFieldOf vm obj fname fsig" owned
  by unfold_locales (rule GetObjectFieldOf_clean)

end
