(* ===== verification/Raii.thy ===== *)
theory Raii
  imports Zygisk_Prelude "HOL-Library.Multiset"
begin

text \<open>
  The owners of operating system resources: \<open>UniqueFd\<close> of \<open>loader/src/include/daemon.h\<close>, and \<open>sFILE\<close> and \<open>sDIR\<close> of
  \<open>loader/src/include/files.hpp\<close> with \<open>make_file\<close> and \<open>make_dir\<close> of \<open>loader/src/common/files.cpp\<close>.  \<open>UniqueFd\<close> moves by
  exchanging its descriptor with that of the source; the other two are \<open>std::unique_ptr\<close>s, which leave null in the
  source and release what the target held.  The locale \<open>owner_class\<close> is what both promise.
\<close>

section \<open>Classes of owners\<close>

text \<open>The special members of a class: the default value, what the destructor gives back, the move constructor (the new
  object and the source afterwards), and the move assignment (target, source, what it gives back).\<close>

record 'r owner_members =
  om_default :: 'r
  om_destroy :: "'r \<Rightarrow> 'r list"
  om_move :: "'r \<Rightarrow> 'r \<times> 'r"
  om_assign :: "'r \<Rightarrow> 'r \<Rightarrow> 'r \<times> 'r \<times> 'r list"
  om_assign_self :: "'r \<Rightarrow> 'r \<times> 'r list"

definition destroy_UniqueFd :: "int \<Rightarrow> int list" where
  "destroy_UniqueFd f = (if f \<ge> 0 then [f] else [])"

text \<open>\<open>fd_\<close> of the new object starts as -1 and is exchanged.\<close>

definition move_UniqueFd :: "int \<Rightarrow> int \<times> int" where
  "move_UniqueFd other = (other, -1)"

definition assign_UniqueFd :: "int \<Rightarrow> int \<Rightarrow> int \<times> int \<times> int list" where
  "assign_UniqueFd f other = (other, f, [])"

definition UniqueFd :: "int owner_members" where
  "UniqueFd = \<lparr>om_default = -1, om_destroy = destroy_UniqueFd, om_move = move_UniqueFd, om_assign = assign_UniqueFd,
     om_assign_self = (\<lambda>f. (f, []))\<rparr>"

text \<open>The deleter of \<open>make_file\<close>: \<open>fclose\<close> unless the pointer is null, which \<open>unique_ptr\<close> already checks.\<close>

definition close_file :: "nat \<Rightarrow> nat list" where
  "close_file fp = (if fp \<noteq> 0 then [fp] else [])"

definition close_directory :: "nat \<Rightarrow> nat list" where
  "close_directory dp = (if dp \<noteq> 0 then [dp] else [])"

definition unique_ptr :: "(nat \<Rightarrow> nat list) \<Rightarrow> nat owner_members" where
  "unique_ptr deleter =
     (let destroy = (\<lambda>p. if p \<noteq> 0 then deleter p else [])
      in \<lparr>om_default = 0, om_destroy = destroy, om_move = (\<lambda>p. (p, 0)),
          om_assign = (\<lambda>t p. (p, 0, destroy t)), om_assign_self = (\<lambda>p. (p, []))\<rparr>)"

definition sFILE :: "nat owner_members" where "sFILE = unique_ptr close_file"
definition sDIR :: "nat owner_members" where "sDIR = unique_ptr close_directory"

text \<open>\<open>make_file\<close> and \<open>make_dir\<close> give the pointer to an owner with its deleter.\<close>

definition make_file :: "nat \<Rightarrow> nat owner_members \<times> nat" where "make_file fp = (sFILE, fp)"
definition make_dir :: "nat \<Rightarrow> nat owner_members \<times> nat" where "make_dir dp = (sDIR, dp)"

text \<open>The helpers differ in the call that gives the pointer.  The ones with an \<open>x\<close> do not report a failure either.\<close>

definition open_dir :: "(string \<Rightarrow> nat) \<Rightarrow> string \<Rightarrow> nat owner_members \<times> nat" where
  "open_dir opendir path = make_dir (opendir path)"

definition xopen_dir :: "(string \<Rightarrow> nat) \<Rightarrow> string \<Rightarrow> nat owner_members \<times> nat" where
  "xopen_dir opendir path = make_dir (opendir path)"

definition xopen_dir_fd :: "(int \<Rightarrow> nat) \<Rightarrow> int \<Rightarrow> nat owner_members \<times> nat" where
  "xopen_dir_fd fdopendir dirfd = make_dir (fdopendir dirfd)"

definition open_file :: "(string \<Rightarrow> string \<Rightarrow> nat) \<Rightarrow> string \<Rightarrow> string \<Rightarrow> nat owner_members \<times> nat" where
  "open_file fopen path mode = make_file (fopen path mode)"

definition xopen_file :: "(string \<Rightarrow> string \<Rightarrow> nat) \<Rightarrow> string \<Rightarrow> string \<Rightarrow> nat owner_members \<times> nat" where
  "xopen_file fopen path mode = make_file (fopen path mode)"

definition xopen_file_fd :: "(int \<Rightarrow> string \<Rightarrow> nat) \<Rightarrow> int \<Rightarrow> string \<Rightarrow> nat owner_members \<times> nat" where
  "xopen_file_fd fdopen f mode = make_file (fdopen f mode)"

section \<open>Programs with owners\<close>

text \<open>What code does with objects of one class.  Objects are numbered in the order of their construction; a destroyed
  object holds nothing.\<close>

datatype 'r owner_op = Own_Default | Own_New 'r | Own_Move nat | Own_Assign nat nat | Own_Destroy nat

record 'r owner_state =
  os_vars :: "'r option list"      \<comment> \<open>\<^term>\<open>None\<close> once destroyed\<close>
  os_given :: "'r list"            \<comment> \<open>what constructors were given to own\<close>
  os_closed :: "'r list"

definition live_var :: "nat \<Rightarrow> 'r owner_state \<Rightarrow> 'r option" where
  "live_var i s = (if i < length (os_vars s) then os_vars s ! i else None)"

definition own_step :: "'r owner_members \<Rightarrow> 'r owner_op \<Rightarrow> 'r owner_state \<Rightarrow> 'r owner_state option" where
  "own_step C c s =
     (case c of
        Own_Default \<Rightarrow> Some (s\<lparr>os_vars := os_vars s @ [Some (om_default C)]\<rparr>)
      | Own_New r \<Rightarrow> Some (s\<lparr>os_vars := os_vars s @ [Some r], os_given := os_given s @ om_destroy C r\<rparr>)
      | Own_Move i \<Rightarrow>
          (case live_var i s of
             None \<Rightarrow> None
           | Some r \<Rightarrow> (case om_move C r of (n, r') \<Rightarrow> Some (s\<lparr>os_vars := (os_vars s)[i := Some r'] @ [Some n]\<rparr>)))
      | Own_Assign i j \<Rightarrow>
          (case (live_var i s, live_var j s) of
             (Some t, Some r) \<Rightarrow>
               if i = j
               then (case om_assign_self C t of (t', cl) \<Rightarrow>
                       Some (s\<lparr>os_vars := (os_vars s)[i := Some t'], os_closed := os_closed s @ cl\<rparr>))
               else (case om_assign C t r of (t', r', cl) \<Rightarrow>
                       Some (s\<lparr>os_vars := (os_vars s)[i := Some t', j := Some r'], os_closed := os_closed s @ cl\<rparr>))
           | _ \<Rightarrow> None)
      | Own_Destroy i \<Rightarrow>
          (case live_var i s of
             None \<Rightarrow> None
           | Some r \<Rightarrow> Some (s\<lparr>os_vars := (os_vars s)[i := None], os_closed := os_closed s @ om_destroy C r\<rparr>)))"

fun own_run :: "'r owner_members \<Rightarrow> 'r owner_op list \<Rightarrow> 'r owner_state \<Rightarrow> 'r owner_state option" where
  "own_run C [] s = Some s"
| "own_run C (c # cs) s = (case own_step C c s of None \<Rightarrow> None | Some s' \<Rightarrow> own_run C cs s')"

definition no_owners :: "'r owner_state" where
  "no_owners = \<lparr>os_vars = [], os_given = [], os_closed = []\<rparr>"

section \<open>The contract\<close>

lemma mset_exchange:
  fixes A B N R V :: "'a multiset"
  assumes "A + R = B + V" and "V + N = R"
  shows "A + N = B"
proof (rule multiset_eqI)
  fix x
  show "count (A + N) x = count B x"
    using arg_cong [OF assms(1), of "\<lambda>m. count m x"] arg_cong [OF assms(2), of "\<lambda>m. count m x"] by simp
qed

locale owner_class =
  fixes C :: "'r owner_members"
  assumes default_empty: "om_destroy C (om_default C) = []"
    and move_keeps: "om_move C r = (n, r') \<Longrightarrow> mset (om_destroy C n) + mset (om_destroy C r') = mset (om_destroy C r)"
    and assign_keeps: "om_assign C t r = (t', r', cl) \<Longrightarrow>
      mset (om_destroy C t') + mset (om_destroy C r') + mset cl = mset (om_destroy C t) + mset (om_destroy C r)"
    and self_keeps: "om_assign_self C t = (t', cl) \<Longrightarrow> mset (om_destroy C t') + mset cl = mset (om_destroy C t)"
begin

definition held :: "'r option \<Rightarrow> 'r multiset" where
  "held v = (case v of None \<Rightarrow> {#} | Some r \<Rightarrow> mset (om_destroy C r))"

definition held_all :: "'r option list \<Rightarrow> 'r multiset" where
  "held_all vs = sum_list (map held vs)"

lemma held_all_simps [simp]:
  "held_all [] = {#}" "held_all (vs @ ws) = held_all vs + held_all ws" "held_all [v] = held v"
  by (simp_all add: held_all_def)

lemma held_all_update: "i < length vs \<Longrightarrow> held_all (vs[i := v]) + held (vs ! i) = held_all vs + held v"
  by (induction vs arbitrary: i) (auto simp: held_all_def ac_simps nth_Cons' split: nat.split)

lemma held_none: "list_all (\<lambda>v. v = None) vs \<Longrightarrow> held_all vs = {#}"
  by (induction vs) (auto simp: held_all_def held_def)

definition balanced :: "'r owner_state \<Rightarrow> bool" where
  "balanced s \<longleftrightarrow> mset (os_given s) = held_all (os_vars s) + mset (os_closed s)"

lemma live_var_nth: "live_var i s = Some r \<Longrightarrow> i < length (os_vars s) \<and> os_vars s ! i = Some r"
  by (auto simp: live_var_def split: if_splits)

lemma replace_var:
  assumes "live_var i s = Some r" and "held v + N = mset (om_destroy C r)"
  shows "held_all ((os_vars s)[i := v]) + N = held_all (os_vars s)"
proof -
  have "held_all ((os_vars s)[i := v]) + mset (om_destroy C r) = held_all (os_vars s) + held v"
    using held_all_update [of i "os_vars s" v] live_var_nth [OF assms(1)] by (simp add: held_def)
  then show ?thesis by (rule mset_exchange) (rule assms(2))
qed

lemma replace_two:
  assumes "live_var i s = Some t" and "live_var j s = Some r" and "i \<noteq> j"
    and "held v + held w + N = mset (om_destroy C t) + mset (om_destroy C r)"
  shows "held_all ((os_vars s)[i := v, j := w]) + N = held_all (os_vars s)"
proof -
  note i = live_var_nth [OF assms(1)] and j = live_var_nth [OF assms(2)]
  have "held_all ((os_vars s)[i := v, j := w]) + mset (om_destroy C r) = held_all ((os_vars s)[i := v]) + held w"
    using held_all_update [of j "(os_vars s)[i := v]" w] i j assms(3) by (simp add: held_def)
  moreover have "held_all ((os_vars s)[i := v]) + mset (om_destroy C t) = held_all (os_vars s) + held v"
    using held_all_update [of i "os_vars s" v] i by (simp add: held_def)
  ultimately have "held_all ((os_vars s)[i := v, j := w]) + (mset (om_destroy C t) + mset (om_destroy C r)) =
      held_all (os_vars s) + (held v + held w)"
    by (metis (no_types, lifting) add.assoc add.commute)
  then show ?thesis by (rule mset_exchange) (use assms(4) in simp)
qed

lemma step_balanced:
  assumes "own_step C c s = Some s'" and "balanced s"
  shows "balanced s'"
proof (cases c)
  case Own_Default
  then show ?thesis using assms by (auto simp: own_step_def balanced_def held_def default_empty)
next
  case (Own_New r)
  then show ?thesis using assms by (auto simp: own_step_def balanced_def held_def)
next
  case (Own_Move i)
  then obtain r n r' where v: "live_var i s = Some r" "om_move C r = (n, r')"
    and s': "s' = s\<lparr>os_vars := (os_vars s)[i := Some r'] @ [Some n]\<rparr>"
    using assms(1) by (auto simp: own_step_def split: option.splits prod.splits)
  have "held_all ((os_vars s)[i := Some r']) + held (Some n) = held_all (os_vars s)"
    by (rule replace_var [OF v(1)]) (use move_keeps [OF v(2)] in \<open>simp add: held_def add.commute\<close>)
  then show ?thesis using assms(2) by (simp add: s' balanced_def)
next
  case (Own_Assign i j)
  then obtain t r where v: "live_var i s = Some t" "live_var j s = Some r"
    using assms(1) by (auto simp: own_step_def split: option.splits)
  show ?thesis
  proof (cases "i = j")
    case True
    obtain t' cl where a: "om_assign_self C t = (t', cl)" by fastforce
    have "held_all ((os_vars s)[i := Some t']) + mset cl = held_all (os_vars s)"
      by (rule replace_var [OF v(1)]) (use self_keeps [OF a] in \<open>simp add: held_def\<close>)
    then show ?thesis using assms Own_Assign True v a by (auto simp: own_step_def balanced_def ac_simps)
  next
    case False
    obtain t' r' cl where a: "om_assign C t r = (t', r', cl)" by (cases "om_assign C t r") auto
    have "held_all ((os_vars s)[i := Some t', j := Some r']) + mset cl = held_all (os_vars s)"
      by (rule replace_two [OF v False]) (use assign_keeps [OF a] in \<open>simp add: held_def\<close>)
    then show ?thesis using assms Own_Assign False v a by (auto simp: own_step_def balanced_def ac_simps)
  qed
next
  case (Own_Destroy i)
  then obtain r where v: "live_var i s = Some r"
    and s': "s' = s\<lparr>os_vars := (os_vars s)[i := None], os_closed := os_closed s @ om_destroy C r\<rparr>"
    using assms(1) by (auto simp: own_step_def split: option.splits)
  have "held_all ((os_vars s)[i := None]) + mset (om_destroy C r) = held_all (os_vars s)"
    by (rule replace_var [OF v]) (simp add: held_def)
  then show ?thesis using assms(2) by (auto simp: s' balanced_def ac_simps)
qed

lemma run_balanced: "own_run C cs s = Some s' \<Longrightarrow> balanced s \<Longrightarrow> balanced s'"
  by (induction cs arbitrary: s) (auto split: option.splits intro: step_balanced)

lemma all_destroyed:
  assumes "own_run C cs no_owners = Some s" and "list_all (\<lambda>v. v = None) (os_vars s)"
  shows "mset (os_closed s) = mset (os_given s)"
proof -
  have "balanced (no_owners :: 'r owner_state)" by (simp add: balanced_def no_owners_def)
  then have "balanced s" by (rule run_balanced [OF assms(1)])
  moreover have "held_all (os_vars s) = {#}"
    using assms(2) by (rule held_none)
  ultimately show ?thesis by (simp add: balanced_def)
qed

end

section \<open>The classes of the program\<close>

interpretation fds: owner_class UniqueFd
  by unfold_locales (auto simp: UniqueFd_def destroy_UniqueFd_def move_UniqueFd_def assign_UniqueFd_def)

lemma unique_ptr_owner: "owner_class (unique_ptr d)"
  by unfold_locales (auto simp: unique_ptr_def Let_def)

interpretation files: owner_class sFILE
  unfolding sFILE_def by (rule unique_ptr_owner)

interpretation dirs: owner_class sDIR
  unfolding sDIR_def by (rule unique_ptr_owner)

text \<open>C34: In code that constructs, moves, assigns and destroys owners in any order, every descriptor that a \<open>UniqueFd\<close> was
  given has been closed once when all the objects are gone, and nothing else has been closed; the same holds of the
  files and directories of \<open>make_file\<close> and \<open>make_dir\<close>.\<close>

theorem owners_close_once:
  "(own_run UniqueFd cs no_owners = Some s \<and> list_all (\<lambda>v. v = None) (os_vars s) \<longrightarrow>
      mset (os_closed s) = mset (os_given s)) \<and>
   (own_run (fst (make_file fp)) fs no_owners = Some s1 \<and> list_all (\<lambda>v. v = None) (os_vars s1) \<longrightarrow>
      mset (os_closed s1) = mset (os_given s1)) \<and>
   (own_run (fst (make_dir dp)) ds no_owners = Some s2 \<and> list_all (\<lambda>v. v = None) (os_vars s2) \<longrightarrow>
      mset (os_closed s2) = mset (os_given s2))"
  using fds.all_destroyed files.all_destroyed dirs.all_destroyed by (auto simp: make_file_def make_dir_def)

text \<open>A descriptor is moved, exchanged by an assignment and assigned to itself; a file is overwritten by another one.\<close>

theorem owners_close_once_witness:
  "\<exists>s s1 s2.
     own_run UniqueFd [Own_New 3, Own_New 4, Own_Default, Own_Move 0, Own_Assign 1 3, Own_Assign 1 1, Own_New (-1),
       Own_Destroy 0, Own_Destroy 1, Own_Destroy 2, Own_Destroy 3, Own_Destroy 4] no_owners = Some s \<and>
     own_run (fst (make_file 7)) [Own_New 7, Own_New 8, Own_Assign 0 1, Own_Destroy 0, Own_Destroy 1] no_owners = Some s1 \<and>
     own_run (fst (make_dir 9)) [Own_New 9, Own_Destroy 0] no_owners = Some s2 \<and>
     mset (os_closed s) = {#3, 4#} \<and> mset (os_closed s1) = {#7, 8#} \<and> mset (os_closed s2) = {#9#}"
proof -
  let ?cs = "[Own_New 3, Own_New 4, Own_Default, Own_Move 0, Own_Assign 1 3, Own_Assign 1 1, Own_New (-1),
       Own_Destroy 0, Own_Destroy 1, Own_Destroy 2, Own_Destroy 3, Own_Destroy 4] :: int owner_op list"
  let ?fs = "[Own_New 7, Own_New 8, Own_Assign 0 1, Own_Destroy 0, Own_Destroy 1] :: nat owner_op list"
  let ?ds = "[Own_New 9, Own_Destroy 0] :: nat owner_op list"
  let ?ok = "\<lambda>r g. case r of None \<Rightarrow> False | Some s \<Rightarrow> list_all (\<lambda>v. v = None) (os_vars s) \<and> os_given s = g"
  have "?ok (own_run UniqueFd ?cs no_owners) [3, 4]" "?ok (own_run (fst (make_file 7)) ?fs no_owners) [7, 8]"
    "?ok (own_run (fst (make_dir 9)) ?ds no_owners) [9]"
    by code_simp+
  then obtain s s1 s2 where s: "own_run UniqueFd ?cs no_owners = Some s" "list_all (\<lambda>v. v = None) (os_vars s)" "os_given s = [3, 4]"
    "own_run (fst (make_file 7)) ?fs no_owners = Some s1" "list_all (\<lambda>v. v = None) (os_vars s1)" "os_given s1 = [7, 8]"
    "own_run (fst (make_dir 9)) ?ds no_owners = Some s2" "list_all (\<lambda>v. v = None) (os_vars s2)" "os_given s2 = [9]"
    by (auto split: option.splits)
  with owners_close_once [of ?cs s 7 ?fs s1 9 ?ds s2] show ?thesis by (auto simp: add_mset_commute)
qed

end
