(* ===== verification/Companion.thy ===== *)
theory Companion
  imports Daemon_Client Wait_Status
begin

text \<open>
  Companions of modules: \<open>spawn_companion\<close> and the request for a companion's socket in \<open>zygiskd/src/zygiskd.rs\<close>,
  the companion process of \<open>zygiskd/src/companion.rs\<close>, \<open>check_unix_socket\<close> of \<open>utils.rs\<close>, and a world of daemon and
  companion processes in which requests, crashes and zygote restarts follow each other.
\<close>

section \<open>Sockets\<close>

type_synonym u16 = "16 word"

definition POLLIN :: u16 where "POLLIN = 1"
definition POLLHUP :: u16 where "POLLHUP = 0x10"

text \<open>\<open>revents\<close> is what \<open>poll\<close> stored; it stays 0 when \<open>poll\<close> fails or times out.\<close>

definition check_unix_socket :: "u16 \<Rightarrow> bool" where
  "check_unix_socket revents \<longleftrightarrow> revents AND NOT POLLIN = 0"

section \<open>The companion process\<close>

text \<open>\<open>load_module\<close>: the loader and \<open>dlsym\<close> are parameters, null is 0; \<^term>\<open>None\<close> is an error, \<^term>\<open>Some None\<close> a library
  without the entry.\<close>

definition load_module :: "(string \<Rightarrow> nat) \<Rightarrow> (nat \<Rightarrow> string \<Rightarrow> nat) \<Rightarrow> nat \<Rightarrow> nat option option" where
  "load_module dlopen dlsym fd =
     (let handle = dlopen (''/proc/self/fd/'' @ show_nat fd)
      in if handle = 0 then None
         else (let entry = dlsym handle ''zygisk_companion_entry'' in Some (if entry = 0 then None else Some entry)))"

record companion_env =
  ce_name :: "string option"            \<comment> \<open>\<open>read_string\<close>\<close>
  ce_library :: "nat option"            \<comment> \<open>\<open>recv_fd\<close>\<close>
  ce_dlopen :: "string \<Rightarrow> nat"
  ce_dlsym :: "nat \<Rightarrow> string \<Rightarrow> nat"

text \<open>The start of \<open>entry\<close>: the byte it answers and whether it goes on to serve with the entry; \<^term>\<open>None\<close> is a panic, which
  ends the process without an answer.\<close>

datatype companion_start = Start_No_Entry | Start_Serving nat

definition companion_entry :: "companion_env \<Rightarrow> (u8 \<times> companion_start) option" where
  "companion_entry e =
     (case (ce_name e, ce_library e) of
        (Some name, Some library) \<Rightarrow>
          (case load_module (ce_dlopen e) (ce_dlsym e) library of
             None \<Rightarrow> None
           | Some None \<Rightarrow> Some (0, Start_No_Entry)
           | Some (Some entry) \<Rightarrow> Some (1, Start_Serving entry))
      | _ \<Rightarrow> None)"

text \<open>One turn of the loop: what \<open>poll\<close> reported, the client's descriptor, and whether the answer could be written.  The
  loop ends with the process when the daemon's end is gone (\<open>Loop_Exit\<close>) or by a panic.\<close>

record companion_turn =
  ct_revents :: u16
  ct_client :: "nat option"
  ct_reply :: bool

datatype loop_end = Loop_Waits | Loop_Exit | Loop_Panic

fun companion_loop :: "companion_turn list \<Rightarrow> nat list \<times> loop_end" where
  "companion_loop [] = ([], Loop_Waits)"
| "companion_loop (t # ts) =
     (if \<not> check_unix_socket (ct_revents t) then ([], Loop_Exit)
      else
        (case ct_client t of
           None \<Rightarrow> ([], Loop_Panic)
         | Some fd \<Rightarrow>
             if \<not> ct_reply t then ([], Loop_Panic)
             else (case companion_loop ts of (served, l) \<Rightarrow> (fd # served, l))))"

text \<open>The thread of a client: whether it closes the descriptor after the module's function, given device and inode
  before and after.\<close>

definition thread_closes :: "nat \<times> nat \<Rightarrow> (nat \<times> nat) option \<Rightarrow> bool" where
  "thread_closes st0 st1 = (case st1 of Some st \<Rightarrow> st = st0 | None \<Rightarrow> True)"

section \<open>The daemon's side\<close>

text \<open>The result of \<open>spawn_companion\<close> in the daemon.  The child only starts the companion and exits: \<open>sp_status\<close> is what
  \<open>waitpid\<close> says of it; \<open>sp_reply\<close> is the companion's byte.\<close>

record spawn_env =
  sp_pair :: bool
  sp_fork :: int
  sp_status :: u32
  sp_sent :: bool                 \<comment> \<open>\<open>write_string\<close> and \<open>send_fd\<close>\<close>
  sp_reply :: "u8 option"

datatype spawn_result = Spawn_Err | Spawn_None | Spawn_Some

definition spawn_companion :: "spawn_env \<Rightarrow> spawn_result" where
  "spawn_companion e =
     (if \<not> sp_pair e \<or> sp_fork e < 0 then Spawn_Err
      else if WIFEXITED (sp_status e) \<and> WEXITSTATUS (sp_status e) = 0
      then (if \<not> sp_sent e then Spawn_Err
            else (case sp_reply e of
                    None \<Rightarrow> Spawn_Err
                  | Some r \<Rightarrow> if r = 0 then Spawn_None else if r = 1 then Spawn_Some else Spawn_Err))
      else Spawn_Err)"

text \<open>The slot \<open>Option<Option<UnixStream>>\<close> of a module.  A request checks a running companion, starts one if the slot is
  empty (\<open>sock\<close> is its socket), and passes the client on; it gives the new slot, the companion that got the client, and
  what the daemon itself answers.\<close>

type_synonym slot = "nat option option"

definition check_slot :: "u16 \<Rightarrow> slot \<Rightarrow> slot" where
  "check_slot revents c = (case c of Some (Some sock) \<Rightarrow> if check_unix_socket revents then c else None | _ \<Rightarrow> c)"

definition fill_slot :: "spawn_result \<Rightarrow> nat \<Rightarrow> slot \<Rightarrow> slot" where
  "fill_slot r sock c =
     (if c = None
      then (case r of Spawn_Err \<Rightarrow> None | Spawn_None \<Rightarrow> Some None | Spawn_Some \<Rightarrow> Some (Some sock))
      else c)"

definition request_companion ::
  "u16 \<Rightarrow> spawn_result \<Rightarrow> nat \<Rightarrow> bool \<Rightarrow> slot \<Rightarrow> slot \<times> nat option \<times> u8 list" where
  "request_companion revents r sock send_ok c =
     (let c' = fill_slot r sock (check_slot revents c)
      in case c' of
           Some (Some k) \<Rightarrow> if send_ok then (c', Some k, []) else (c', None, [0])
         | _ \<Rightarrow> (c', None, [0]))"

text \<open>\<open>ZygoteRestart\<close>: every slot is emptied, which closes the sockets in them.\<close>

definition restart_slots :: "slot list \<Rightarrow> slot list" where
  "restart_slots cs = map (\<lambda>_. None) cs"

section \<open>Daemon and companions together\<close>

text \<open>The library of a module as the companion sees it.\<close>

record companion_lib =
  cl_loads :: bool
  cl_entry :: bool

text \<open>The processes that ever served: the module each was started for, whether it is still alive.\<close>

record comp_world =
  cw_libs :: "companion_lib list"
  cw_slots :: "slot list"
  cw_procs :: "(nat \<times> bool) list"       \<comment> \<open>by socket: module, alive\<close>

definition alive :: "comp_world \<Rightarrow> nat \<Rightarrow> bool" where
  "alive w k \<longleftrightarrow> k < length (cw_procs w) \<and> snd (cw_procs w ! k)"

text \<open>What \<open>poll\<close> reports on the daemon's end: the hang-up of a dead companion.\<close>

definition poll_companion :: "comp_world \<Rightarrow> slot \<Rightarrow> u16" where
  "poll_companion w c = (case c of Some (Some k) \<Rightarrow> if alive w k then 0 else POLLHUP | _ \<Rightarrow> 0)"

text \<open>The companion as started on the library of module \<open>i\<close>; \<open>start_ok\<close> says that the processes could be started.\<close>

definition lib_env :: "companion_lib \<Rightarrow> companion_env" where
  "lib_env m = \<lparr>ce_name = Some [], ce_library = Some 3, ce_dlopen = (\<lambda>_. if cl_loads m then 1 else 0),
     ce_dlsym = (\<lambda>_ _. if cl_entry m then 1 else 0)\<rparr>"

definition spawn_on :: "bool \<Rightarrow> companion_lib \<Rightarrow> spawn_result" where
  "spawn_on start_ok m =
     spawn_companion \<lparr>sp_pair = True, sp_fork = (if start_ok then 1 else -1), sp_status = 0, sp_sent = True,
       sp_reply = map_option fst (companion_entry (lib_env m))\<rparr>"

datatype comp_event =
    Ev_Request nat bool bool      \<comment> \<open>module, whether processes can be started, whether the client can be passed on\<close>
  | Ev_Restart
  | Ev_Died nat

definition comp_request :: "nat \<Rightarrow> bool \<Rightarrow> bool \<Rightarrow> comp_world \<Rightarrow> (nat option \<times> u8 list) \<times> comp_world" where
  "comp_request i start_ok send_ok w =
     (let c = cw_slots w ! i; rev = poll_companion w c; r = spawn_on start_ok (cw_libs w ! i); k = length (cw_procs w)
      in case request_companion rev r k send_ok c of (c', got, reply) \<Rightarrow>
           ((got, reply),
            w\<lparr>cw_slots := (cw_slots w)[i := c'],
              cw_procs := (if check_slot rev c = None \<and> r = Spawn_Some then cw_procs w @ [(i, True)] else cw_procs w)\<rparr>))"

text \<open>Ending: a companion may crash at any time, and one whose daemon end was closed leaves its loop.\<close>

definition comp_step :: "comp_event \<Rightarrow> comp_world \<Rightarrow> comp_world" where
  "comp_step ev w =
     (case ev of
        Ev_Request i start_ok send_ok \<Rightarrow>
          if i < length (cw_slots w) then snd (comp_request i start_ok send_ok w) else w
      | Ev_Restart \<Rightarrow> w\<lparr>cw_slots := restart_slots (cw_slots w)\<rparr>
      | Ev_Died k \<Rightarrow> if k < length (cw_procs w) then w\<lparr>cw_procs := (cw_procs w)[k := (fst (cw_procs w ! k), False)]\<rparr> else w)"

fun comp_run :: "comp_event list \<Rightarrow> comp_world \<Rightarrow> comp_world" where
  "comp_run [] w = w"
| "comp_run (e # es) w = comp_run es (comp_step e w)"

definition comp_init :: "companion_lib list \<Rightarrow> comp_world" where
  "comp_init ms = \<lparr>cw_libs = ms, cw_slots = replicate (length ms) None, cw_procs = []\<rparr>"

section \<open>The handshake\<close>

lemma poll_flags [simp]: "check_unix_socket 0" "check_unix_socket POLLIN" "\<not> check_unix_socket POLLHUP"
  by (simp_all add: check_unix_socket_def POLLIN_def POLLHUP_def)

lemma companion_entry_lib:
  "companion_entry (lib_env m) =
     (if \<not> cl_loads m then None else if cl_entry m then Some (1, Start_Serving 1) else Some (0, Start_No_Entry))"
  by (simp add: companion_entry_def lib_env_def load_module_def)

lemma spawn_on_eq:
  "spawn_on start_ok m =
     (if \<not> start_ok \<or> \<not> cl_loads m then Spawn_Err else if cl_entry m then Spawn_Some else Spawn_None)"
  by (simp add: spawn_on_def spawn_companion_def companion_entry_lib wait_defs)

section \<open>What holds of the world\<close>

definition serves_module :: "comp_world \<Rightarrow> nat \<Rightarrow> bool" where
  "serves_module w i \<longleftrightarrow> cl_loads (cw_libs w ! i) \<and> cl_entry (cw_libs w ! i)"

definition slot_ok :: "comp_world \<Rightarrow> nat \<Rightarrow> bool" where
  "slot_ok w i \<longleftrightarrow>
     (case cw_slots w ! i of
        None \<Rightarrow> True
      | Some None \<Rightarrow> cl_loads (cw_libs w ! i) \<and> \<not> cl_entry (cw_libs w ! i)
      | Some (Some k) \<Rightarrow> k < length (cw_procs w) \<and> fst (cw_procs w ! k) = i \<and> serves_module w i)"

definition world_ok :: "comp_world \<Rightarrow> bool" where
  "world_ok w \<longleftrightarrow> length (cw_slots w) = length (cw_libs w) \<and> (\<forall>i < length (cw_slots w). slot_ok w i)"

lemma world_ok_init: "world_ok (comp_init ms)"
  by (simp add: world_ok_def slot_ok_def comp_init_def)

lemma comp_request_libs [simp]: "cw_libs (snd (comp_request i a b w)) = cw_libs w"
  "length (cw_slots (snd (comp_request i a b w))) = length (cw_slots w)"
  by (simp_all add: comp_request_def Let_def split: prod.split)

text \<open>A request in one table: the slot was usable as it was, or a companion was started, or not.\<close>

definition usable :: "comp_world \<Rightarrow> nat \<Rightarrow> bool" where
  "usable w i \<longleftrightarrow> (case cw_slots w ! i of None \<Rightarrow> False | Some None \<Rightarrow> True | Some (Some k) \<Rightarrow> alive w k)"

lemma check_slot_eq: "check_slot (poll_companion w (cw_slots w ! i)) (cw_slots w ! i) = (if usable w i then cw_slots w ! i else None)"
  by (auto simp: check_slot_def poll_companion_def usable_def split: option.split)

lemma comp_request_eq:
  "comp_request i start_ok send_ok w =
     (let c' = (if usable w i then cw_slots w ! i else fill_slot (spawn_on start_ok (cw_libs w ! i)) (length (cw_procs w)) None)
      in ((case c' of Some (Some k) \<Rightarrow> if send_ok then (Some k, []) else (None, [0]) | _ \<Rightarrow> (None, [0])),
          w\<lparr>cw_slots := (cw_slots w)[i := c'],
            cw_procs := (if \<not> usable w i \<and> spawn_on start_ok (cw_libs w ! i) = Spawn_Some
                         then cw_procs w @ [(i, True)] else cw_procs w)\<rparr>))"
proof (cases "usable w i")
  case True
  then obtain m where m: "cw_slots w ! i = Some m" by (auto simp: usable_def split: option.splits)
  show ?thesis
    unfolding comp_request_def request_companion_def Let_def check_slot_eq
    using True by (cases m) (simp_all add: m fill_slot_def)
next
  case False
  then show ?thesis
    unfolding comp_request_def request_companion_def Let_def check_slot_eq by (simp split: option.split)
qed

lemma request_world_ok:
  assumes "world_ok w" and "i < length (cw_slots w)"
  shows "world_ok (snd (comp_request i start_ok send_ok w))"
proof -
  let ?w = "snd (comp_request i start_ok send_ok w)"
  have "slot_ok ?w j" if j: "j < length (cw_slots w)" for j
  proof -
    have "slot_ok w j" using assms(1) j by (simp add: world_ok_def)
    then show ?thesis
      using assms(2)
      by (cases "j = i")
        (auto simp: comp_request_eq slot_ok_def serves_module_def fill_slot_def spawn_on_eq nth_append Let_def
          split: option.splits spawn_result.splits if_splits)
  qed
  then show ?thesis using assms(1) by (simp add: world_ok_def)
qed

lemma step_world_ok:
  assumes "world_ok w"
  shows "world_ok (comp_step ev w)"
proof (cases ev)
  case (Ev_Request i a b)
  then show ?thesis using assms request_world_ok by (simp add: comp_step_def)
next
  case Ev_Restart
  then show ?thesis using assms by (simp add: comp_step_def world_ok_def restart_slots_def slot_ok_def)
next
  case (Ev_Died k)
  then show ?thesis using assms
    by (auto simp: comp_step_def world_ok_def slot_ok_def serves_module_def nth_list_update split: option.splits)
qed

lemma run_world_ok: "world_ok w \<Longrightarrow> world_ok (comp_run es w) \<and> cw_libs (comp_run es w) = cw_libs w"
proof (induction es arbitrary: w)
  case (Cons e es)
  have "cw_libs (comp_step e w) = cw_libs w" by (auto simp: comp_step_def split: comp_event.split)
  with Cons show ?case by (simp add: step_world_ok)
qed simp

text \<open>What a request gives when processes can be started and the client can be passed on.\<close>

lemma request_served:
  assumes "world_ok w" and "i < length (cw_slots w)" and "serves_module w i"
  shows "\<exists>k w'. comp_request i True True w = ((Some k, []), w') \<and> alive w' k \<and> fst (cw_procs w' ! k) = i \<and>
    (usable w i \<longrightarrow> cw_slots w ! i = Some (Some k) \<and> cw_procs w' = cw_procs w)"
proof (cases "usable w i")
  case True
  have "slot_ok w i" using assms(1,2) by (simp add: world_ok_def)
  with True assms(3) obtain k where k: "cw_slots w ! i = Some (Some k)" "alive w k" "fst (cw_procs w ! k) = i"
    by (auto simp: slot_ok_def usable_def serves_module_def split: option.splits)
  then have "comp_request i True True w = ((Some k, []), w\<lparr>cw_slots := (cw_slots w)[i := Some (Some k)]\<rparr>)"
    using True by (simp add: comp_request_eq Let_def)
  then show ?thesis using k assms(2) by (simp add: alive_def)
next
  case False
  then have "comp_request i True True w = ((Some (length (cw_procs w)), []),
      w\<lparr>cw_slots := (cw_slots w)[i := Some (Some (length (cw_procs w)))], cw_procs := cw_procs w @ [(i, True)]\<rparr>)"
    using assms(3) by (simp add: comp_request_eq Let_def spawn_on_eq fill_slot_def serves_module_def)
  then show ?thesis using False assms(2) by (simp add: alive_def)
qed

lemma request_refused:
  assumes "world_ok w" and "i < length (cw_slots w)" and "\<not> serves_module w i"
  shows "fst (comp_request i True True w) = (None, [0])"
proof -
  have "slot_ok w i" using assms(1,2) by (simp add: world_ok_def)
  then show ?thesis
    using assms(3) by (auto simp: comp_request_eq Let_def spawn_on_eq fill_slot_def serves_module_def slot_ok_def
        split: option.splits)
qed


section \<open>The companion's loop\<close>

text \<open>A client that is gone before the companion answers it ends the companion: nobody after it is served.\<close>

lemma companion_loop_lost_client:
  assumes "\<forall>t \<in> set ts. check_unix_socket (ct_revents t) \<and> ct_client t \<noteq> None \<and> ct_reply t"
    and "check_unix_socket (ct_revents t)" and "\<not> ct_reply t"
  shows "companion_loop (ts @ t # us) = (map (the \<circ> ct_client) ts, Loop_Panic)"
  using assms by (induction ts) (auto split: option.split)

lemma companion_loop_serves:
  assumes "\<forall>t \<in> set ts. check_unix_socket (ct_revents t) \<and> ct_client t \<noteq> None \<and> ct_reply t"
    and "\<not> check_unix_socket (ct_revents t)"
  shows "companion_loop (ts @ t # us) = (map (the \<circ> ct_client) ts, Loop_Exit)"
  using assms by (induction ts) auto

section \<open>The property of the companions\<close>

text \<open>A module whose library has no entry is asked once: its slot remembers that until the next restart.\<close>

lemma no_entry_remembered:
  assumes "i < length (cw_slots w)" and "cw_slots w ! i = Some None"
  shows "comp_request i start_ok send_ok w = ((None, [0]), w)"
proof -
  have "(cw_slots w)[i := Some None] = cw_slots w" using assms list_update_id [of "cw_slots w" i] by simp
  then show ?thesis using assms by (simp add: comp_request_eq usable_def)
qed

definition companions_of :: "comp_world \<Rightarrow> daemon \<Rightarrow> bool" where
  "companions_of w d \<longleftrightarrow> length (dn_modules d) = length (cw_slots w) \<and>
     (\<forall>i < length (cw_slots w). dn_companion d i \<longleftrightarrow> fst (fst (comp_request i True True w)) \<noteq> None)"

text \<open>C32: After any sequence of requests, companion crashes and zygote restarts, a module's request for its companion
  returns a connection exactly when the module's library loads and has a companion entry, and otherwise -1 with the
  descriptor closed.  The process that got the client is alive and serves that module and no other, even if the one before
  it crashed, and one that is still running is used again instead of starting another.\<close>

theorem companion_end_to_end:
  assumes w: "w = comp_run es (comp_init ms)" and "i < length ms" "length ms < 2 ^ 64"
    and d: "companions_of w d" and "serves d p" and "reachable_daemon c"
  shows "(\<exists>c'. ConnectCompanion p (word_of_nat i) c =
            Inr (if cl_loads (ms ! i) \<and> cl_entry (ms ! i) then next_fd c else -1, c') \<and>
          open_fds c' = (if cl_loads (ms ! i) \<and> cl_entry (ms ! i) then next_fd c # open_fds c else open_fds c)) \<and>
      (cl_loads (ms ! i) \<and> cl_entry (ms ! i) \<longrightarrow>
         (\<exists>k w'. comp_request i True True w = ((Some k, []), w') \<and> alive w' k \<and> fst (cw_procs w' ! k) = i \<and>
            (usable w i \<longrightarrow> cw_slots w ! i = Some (Some k) \<and> cw_procs w' = cw_procs w)))"
proof -
  have ok: "world_ok w" "cw_libs w = ms" using run_world_ok [OF world_ok_init] by (simp_all add: w comp_init_def)
  then have len: "i < length (cw_slots w)" using assms(2) by (simp add: world_ok_def)
  have sm: "serves_module w i \<longleftrightarrow> cl_loads (ms ! i) \<and> cl_entry (ms ! i)" by (simp add: serves_module_def ok)
  have i: "unat (word_of_nat i :: u64) = i" using assms(2,3) by (simp add: unat_of_nat)
  have "dn_companion d i \<longleftrightarrow> serves_module w i"
    using d len request_served [OF ok(1) len] request_refused [OF ok(1) len] by (force simp: companions_of_def)
  moreover have "i < length (dn_modules d)" using d len by (simp add: companions_of_def)
  ultimately show ?thesis
    using ConnectCompanion_end_to_end [OF assms(5,6), of "word_of_nat i"] request_served [OF ok(1) len]
    by (simp add: i sm)
qed

text \<open>The first companion of the only module has crashed; the next request is served by a second one.\<close>

definition crashed_world :: comp_world where
  "crashed_world = comp_run [Ev_Request 0 True True, Ev_Died 0] (comp_init [\<lparr>cl_loads = True, cl_entry = True\<rparr>])"

definition crashed_daemon :: daemon where
  "crashed_daemon = \<lparr>dn_root = \<lparr>rq_impl = Magisk, rq_granted_root = \<lambda>u. False, rq_should_umount = \<lambda>u. False,
      rq_is_manager = \<lambda>u. False\<rparr>, dn_modules = [\<lparr>dm_name = ''lsp'', dm_lib_fd = 7\<rparr>], dn_pid = 1,
      dn_companion = \<lambda>_. True, dn_module_dir = \<lambda>_. None\<rparr>"

definition crashed_peer :: peer where
  "crashed_peer = \<lparr>daemon_reply = handle_daemon_action crashed_daemon, read_plan = [], write_plan = []\<rparr>"

lemma crashed_world_eq:
  "crashed_world = \<lparr>cw_libs = [\<lparr>cl_loads = True, cl_entry = True\<rparr>], cw_slots = [Some (Some 0)], cw_procs = [(0, False)]\<rparr>"
  by (simp add: crashed_world_def comp_init_def comp_step_def comp_request_eq usable_def spawn_on_eq fill_slot_def Let_def)

lemma crashed_request:
  "comp_request 0 True True crashed_world = ((Some 1, []),
     \<lparr>cw_libs = [\<lparr>cl_loads = True, cl_entry = True\<rparr>], cw_slots = [Some (Some 1)], cw_procs = [(0, False), (0, True)]\<rparr>)"
  by (simp add: crashed_world_eq comp_request_eq usable_def alive_def spawn_on_eq fill_slot_def Let_def)

lemma crashed_ok: "companions_of crashed_world crashed_daemon"
proof -
  have "length (cw_slots crashed_world) = 1" by (simp add: crashed_world_eq)
  then show ?thesis by (simp add: companions_of_def crashed_request crashed_daemon_def)
qed

lemma crashed_served: "serves crashed_daemon crashed_peer"
  by (simp add: serves_def crashed_peer_def)

theorem companion_end_to_end_witness:
  "(\<exists>c'. ConnectCompanion crashed_peer 0
      \<lparr>tmp_path = ''/d'', open_fds = [], next_fd = 3, connects = [True], sleeps = 0\<rparr> = Inr (3, c') \<and> open_fds c' = [3]) \<and>
   (\<exists>w'. comp_request 0 True True crashed_world = ((Some 1, []), w') \<and> alive w' 1)"
  using companion_end_to_end [OF crashed_world_def, where i = 0 and d = crashed_daemon and p = crashed_peer and
      c = "\<lparr>tmp_path = ''/d'', open_fds = [], next_fd = 3, connects = [True], sleeps = 0\<rparr>"]
  by (simp add: crashed_request crashed_ok crashed_served reachable_daemon_def)

end
