(* ===== verification/Root_Impl.thy ===== *)
theory Root_Impl
  imports Daemon_Client Misc_Utils
begin

text \<open>
  The root solutions as the daemon sees them, from \<open>zygiskd/src/root_impl/\<close> (\<open>kernelsu.rs\<close>, \<open>apatch.rs\<close>, \<open>magisk.rs\<close>,
  \<open>mod.rs\<close>): which one is installed and what it says of a uid.  The kernel, the programs that are run and the files they
  read are the record \<open>root_env\<close>; the version limits come from the build and are the record \<open>limits\<close>.  Text is ASCII, as
  these programs print it.
\<close>

section \<open>Text\<close>

definition is_white :: "char \<Rightarrow> bool" where
  "is_white c \<longleftrightarrow> of_char c \<in> {9, 10, 11, 12, 13, 32 :: nat}"

definition trim :: "string \<Rightarrow> string" where
  "trim s = rev (dropWhile is_white (rev (dropWhile is_white s)))"

function split_whitespace :: "string \<Rightarrow> string list" where
  "split_whitespace s =
     (case dropWhile is_white s of
        [] \<Rightarrow> []
      | c # cs \<Rightarrow> takeWhile (\<lambda>x. \<not> is_white x) (c # cs) # split_whitespace (dropWhile (\<lambda>x. \<not> is_white x) cs))"
  by pat_completeness auto
termination
proof (relation "measure length")
  fix s c cs
  assume *: "dropWhile is_white s = c # cs"
  have "length (dropWhile (\<lambda>x. \<not> is_white x) cs) \<le> length cs" by (rule length_dropWhile_le)
  also have "length cs < length s" using length_dropWhile_le [of is_white s] * by simp
  finally show "(dropWhile (\<lambda>x. \<not> is_white x) cs, s) \<in> measure length" by simp
qed simp

declare split_whitespace.simps [simp del]

function rust_lines :: "string \<Rightarrow> string list" where
  "rust_lines s =
     (if s = [] then []
      else
        (case dropWhile (\<lambda>c. c \<noteq> LF) s of
           [] \<Rightarrow> [s]
         | c # rest \<Rightarrow>
             (let l = takeWhile (\<lambda>c. c \<noteq> LF) s
              in (if l \<noteq> [] \<and> last l = CHR 0x0D then butlast l else l) # rust_lines rest)))"
  by pat_completeness auto
termination
proof (relation "measure length")
  fix s :: string and c rest
  assume "dropWhile (\<lambda>c. c \<noteq> LF) s = c # rest"
  then show "(rest, s) \<in> measure length" using length_dropWhile_le [of "\<lambda>c. c \<noteq> LF" s] by simp
qed simp

declare rust_lines.simps [simp del]

text \<open>\<open>parse::<i32>\<close>: an optional sign, digits, and no overflow.\<close>

fun dec_value :: "nat \<Rightarrow> string \<Rightarrow> nat option" where
  "dec_value v [] = Some v"
| "dec_value v (c # cs) = (if digit c then dec_value (v * 10 + (of_char c - 48)) cs else None)"

definition parse_i32 :: "string \<Rightarrow> int option" where
  "parse_i32 s =
     (let neg = (s \<noteq> [] \<and> hd s = CHR ''-''); ds = (if s \<noteq> [] \<and> (hd s = CHR ''-'' \<or> hd s = CHR ''+'') then tl s else s)
      in if ds = [] then None
         else (case dec_value 0 ds of
                 None \<Rightarrow> None
               | Some n \<Rightarrow> (let v = (if neg then - int n else int n) in if - (2 ^ 31) \<le> v \<and> v < 2 ^ 31 then Some v else None)))"

section \<open>The system\<close>

record limits =
  min_apatch :: int
  min_ksu :: int
  max_ksu :: int
  min_magisk :: int

record package_config =
  pc_exclude :: int
  pc_allow :: int
  pc_uid :: int

record root_env =
  re_ksu_version :: int                               \<comment> \<open>what \<open>prctl\<close> left in \<open>version\<close>\<close>
  re_ksu_query :: "nat \<Rightarrow> int \<Rightarrow> bool \<times> u32"        \<comment> \<open>the answer and \<open>result\<close>\<close>
  re_su_path :: "string option"                       \<comment> \<open>first line of \<open>/data/adb/ap/su_path\<close>\<close>
  re_run :: "string \<Rightarrow> string list \<Rightarrow> string option" \<comment> \<open>standard output of a program\<close>
  re_packages :: "package_config option list option"  \<comment> \<open>\<open>package_config\<close>, a record that does not parse is \<^term>\<open>None\<close>\<close>
  re_owner :: "string \<Rightarrow> u32 option"                  \<comment> \<open>owner of a path\<close>

section \<open>KernelSU\<close>

definition KERNEL_SU_OPTION :: u32 where "KERNEL_SU_OPTION = 0xdeadbeef"

definition get_kernel_su :: "limits \<Rightarrow> root_env \<Rightarrow> version option" where
  "get_kernel_su l e =
     (let v = re_ksu_version e
      in if v = 0 then None
         else if min_ksu l \<le> v \<and> v \<le> max_ksu l then Some V_Supported
         else if 1 \<le> v \<and> v \<le> min_ksu l - 1 then Some V_TooOld
         else Some V_Abnormal)"

text \<open>\<open>result\<close> is only logged.\<close>

definition kernelsu_uid_granted_root :: "root_env \<Rightarrow> int \<Rightarrow> bool" where
  "kernelsu_uid_granted_root e uid = fst (re_ksu_query e 12 uid)"

definition kernelsu_uid_should_umount :: "root_env \<Rightarrow> int \<Rightarrow> bool" where
  "kernelsu_uid_should_umount e uid = fst (re_ksu_query e 13 uid)"

definition owned_by :: "root_env \<Rightarrow> string \<Rightarrow> int \<Rightarrow> bool" where
  "owned_by e path uid = (case re_owner e path of Some u \<Rightarrow> u = word_of_int uid | None \<Rightarrow> False)"

definition kernelsu_uid_is_manager :: "root_env \<Rightarrow> int \<Rightarrow> bool" where
  "kernelsu_uid_is_manager e uid = owned_by e ''/data/user_de/0/me.weishu.kernelsu'' uid"

section \<open>APatch\<close>

fun parse_version_lines :: "string list \<Rightarrow> int" where
  "parse_version_lines [] = 0"
| "parse_version_lines (line # ls) =
     (case split_whitespace (trim line) of
        [] \<Rightarrow> parse_version_lines ls
      | w # ws \<Rightarrow> (case parse_i32 (last (w # ws)) of Some v \<Rightarrow> v | None \<Rightarrow> parse_version_lines ls))"

definition parse_version :: "string \<Rightarrow> int" where
  "parse_version output = parse_version_lines (rust_lines output)"

definition read_su_path :: "root_env \<Rightarrow> string option" where
  "read_su_path e = map_option trim (re_su_path e)"

definition get_apatch :: "limits \<Rightarrow> root_env \<Rightarrow> version option" where
  "get_apatch l e =
     (case read_su_path e of
        None \<Rightarrow> None
      | Some su_path \<Rightarrow>
          (case re_run e su_path [''-v''] of
             None \<Rightarrow> None
           | Some stdout \<Rightarrow>
               if \<not> str_contains stdout ''APatch'' then None
               else
                 (case re_run e ''/data/adb/apd'' [''-V''] of
                    None \<Rightarrow> None
                  | Some stdout1 \<Rightarrow>
                      if su_path = ''/system/bin/su''
                      then (let v = parse_version stdout1
                            in if v = 0 then Some V_Abnormal
                               else if min_apatch l \<le> v \<and> v \<le> 999999 then Some V_Supported
                               else if 1 \<le> v \<and> v \<le> min_apatch l - 1 then Some V_TooOld
                               else None)
                      else None)))"

definition read_package_config :: "root_env \<Rightarrow> package_config list option" where
  "read_package_config e = map_option (List.map_filter id) (re_packages e)"

definition apatch_uid_granted_root :: "root_env \<Rightarrow> int \<Rightarrow> bool" where
  "apatch_uid_granted_root e uid =
     (case read_package_config e of
        Some cs \<Rightarrow> (case find (\<lambda>c. pc_uid c = uid) cs of Some c \<Rightarrow> pc_allow c = 1 | None \<Rightarrow> False)
      | None \<Rightarrow> False)"

definition apatch_uid_should_umount :: "root_env \<Rightarrow> int \<Rightarrow> bool" where
  "apatch_uid_should_umount e uid =
     (case read_package_config e of
        Some cs \<Rightarrow> (case find (\<lambda>c. pc_uid c = uid) cs of Some c \<Rightarrow> pc_exclude c = 1 | None \<Rightarrow> False)
      | None \<Rightarrow> False)"

definition apatch_uid_is_manager :: "root_env \<Rightarrow> int \<Rightarrow> bool" where
  "apatch_uid_is_manager e uid = owned_by e ''/data/user_de/0/me.bmax.apatch'' uid"

section \<open>Magisk\<close>

text \<open>\<open>get_magisk\<close> also sets the static \<open>VARIANT\<close>, once and only if \<open>magisk -v\<close> gave an answer.\<close>

definition magisk_variant :: "string \<Rightarrow> string" where
  "magisk_variant version =
     (if str_contains version ''alpha'' then ''io.github.vvb2060.magisk''
      else if str_contains version ''kitsune'' then ''io.github.huskydg.magisk''
      else ''com.topjohnwu.magisk'')"

definition get_magisk :: "limits \<Rightarrow> root_env \<Rightarrow> string option \<Rightarrow> version option \<times> string option" where
  "get_magisk l e variant =
     (let variant' = (if variant = None then map_option magisk_variant (re_run e ''magisk'' [''-v'']) else variant)
      in ((case re_run e ''magisk'' [''-V''] of
             None \<Rightarrow> None
           | Some output \<Rightarrow>
               (case parse_i32 (trim output) of
                  None \<Rightarrow> None
                | Some v \<Rightarrow> Some (if min_magisk l \<le> v then V_Supported else V_TooOld))),
          variant'))"

definition magisk_uid_granted_root :: "root_env \<Rightarrow> int \<Rightarrow> bool" where
  "magisk_uid_granted_root e uid =
     (case re_run e ''magisk'' [''--sqlite'', ''select 1 from policies where uid='' @ show_int uid @ '' and policy=2 limit 1''] of
        Some output \<Rightarrow> output \<noteq> [] | None \<Rightarrow> False)"

definition strip_prefix_str :: "string \<Rightarrow> string \<Rightarrow> string option" where
  "strip_prefix_str p s = (if take (length p) s = p then Some (drop (length p) s) else None)"

definition magisk_uid_should_umount :: "root_env \<Rightarrow> int \<Rightarrow> bool" where
  "magisk_uid_should_umount e uid =
     (case re_run e ''pm'' [''list'', ''packages'', ''--uid'', show_int uid] of
        None \<Rightarrow> False
      | Some line \<Rightarrow>
          (case strip_prefix_str ''package:'' line of
             None \<Rightarrow> False
           | Some rest \<Rightarrow>
               (let pkg = takeWhile (\<lambda>c. c \<noteq> CHR '' '') rest
                in case re_run e ''magisk''
                         [''--sqlite'', ''select 1 from denylist where package_name='' @ [CHR 0x22] @ pkg @ [CHR 0x22] @ '' limit 1''] of
                     Some output \<Rightarrow> output \<noteq> [] | None \<Rightarrow> False)))"

text \<open>The package of the manager is the configured requester, else that of the variant; \<^term>\<open>None\<close> is the panic when no
  variant was found.\<close>

definition magisk_uid_is_manager :: "root_env \<Rightarrow> string option \<Rightarrow> int \<Rightarrow> bool option" where
  "magisk_uid_is_manager e variant uid =
     (case Option.bind (map_option trim (re_run e ''magisk''
             [''--sqlite'', ''select value from strings where key='' @ [CHR 0x22] @ ''requester'' @ [CHR 0x22] @ '' limit 1'']))
             (strip_prefix_str ''value='') of
        Some manager \<Rightarrow> Some (owned_by e (''/data/user_de/0/'' @ manager) uid)
      | None \<Rightarrow> map_option (\<lambda>v. owned_by e (''/data/user_de/0/'' @ v) uid) variant)"

section \<open>Dispatch\<close>

definition setup_root :: "limits \<Rightarrow> root_env \<Rightarrow> string option \<Rightarrow> root_impl \<times> string option" where
  "setup_root l e variant =
     (let (magisk_version, variant') = get_magisk l e variant
      in (root_impl_setup (get_apatch l e) (get_kernel_su l e) magisk_version, variant'))"

definition uid_granted_root :: "root_impl \<Rightarrow> root_env \<Rightarrow> int \<Rightarrow> bool option" where
  "uid_granted_root r e uid =
     (case r of KernelSU \<Rightarrow> Some (kernelsu_uid_granted_root e uid) | Magisk \<Rightarrow> Some (magisk_uid_granted_root e uid)
      | APatch \<Rightarrow> Some (apatch_uid_granted_root e uid) | _ \<Rightarrow> None)"

definition uid_should_umount :: "root_impl \<Rightarrow> root_env \<Rightarrow> int \<Rightarrow> bool option" where
  "uid_should_umount r e uid =
     (case r of KernelSU \<Rightarrow> Some (kernelsu_uid_should_umount e uid) | Magisk \<Rightarrow> Some (magisk_uid_should_umount e uid)
      | APatch \<Rightarrow> Some (apatch_uid_should_umount e uid) | _ \<Rightarrow> None)"

definition uid_is_manager :: "root_impl \<Rightarrow> root_env \<Rightarrow> string option \<Rightarrow> int \<Rightarrow> bool option" where
  "uid_is_manager r e variant uid =
     (case r of KernelSU \<Rightarrow> Some (kernelsu_uid_is_manager e uid) | Magisk \<Rightarrow> magisk_uid_is_manager e variant uid
      | APatch \<Rightarrow> Some (apatch_uid_is_manager e uid) | _ \<Rightarrow> None)"

text \<open>\<open>GetProcessFlags\<close> on the system itself; \<^term>\<open>None\<close> is a panic.\<close>

definition system_flags :: "root_impl \<Rightarrow> root_env \<Rightarrow> string option \<Rightarrow> int \<Rightarrow> u32 option" where
  "system_flags r e variant uid =
     (case uid_is_manager r e variant uid of
        None \<Rightarrow> None
      | Some manager \<Rightarrow>
          (case (if manager then Some PROCESS_IS_MANAGER
                 else
                   (case (uid_granted_root r e uid, uid_should_umount r e uid) of
                      (Some g, Some u) \<Rightarrow>
                        Some ((if g then PROCESS_GRANTED_ROOT else 0) OR (if u then PROCESS_ON_DENYLIST else 0))
                    | _ \<Rightarrow> None)) of
             None \<Rightarrow> None
           | Some flags \<Rightarrow> (case root_flag r of None \<Rightarrow> None | Some rf \<Rightarrow> Some (flags OR rf))))"

section \<open>Numbers that are read\<close>

lemma dec_value_snoc:
  "\<forall>x \<in> set ds. digit x \<Longrightarrow> digit c \<Longrightarrow>
     dec_value v (ds @ [c]) = map_option (\<lambda>n. n * 10 + (of_char c - 48)) (dec_value v ds)"
  by (induction ds arbitrary: v) auto

lemma dec_value_show_nat: "dec_value 0 (show_nat n) = Some n"
proof (induction n rule: show_nat.induct)
  case (1 n)
  show ?case
  proof (cases "n < 10")
    case True
    then show ?thesis by (subst show_nat.simps) (simp add: digit_def)
  next
    case False
    then have "dec_value 0 (show_nat (n div 10)) = Some (n div 10)" using 1 by simp
    moreover have "digit (char_of (48 + n mod 10))" "of_char (char_of (48 + n mod 10) :: char) = 48 + n mod 10"
      by (simp_all add: digit_def)
    ultimately show ?thesis using False
      by (subst show_nat.simps) (simp add: dec_value_snoc digit_show_nat)
  qed
qed

text \<open>\<open>parse::<i32>\<close> reads back every 32-bit number that was printed.\<close>

lemma parse_i32_show_int:
  assumes "- (2 ^ 31) \<le> v" and "v < 2 ^ 31"
  shows "parse_i32 (show_int v) = Some v"
proof (cases "v < 0")
  case True
  then show ?thesis using assms by (simp add: parse_i32_def show_int_def dec_value_show_nat)
next
  case False
  have d: "digit (hd (show_nat (nat v)))" using digit_show_nat [of "nat v"] by simp
  have "hd (show_nat (nat v)) \<noteq> CHR ''-''" "hd (show_nat (nat v)) \<noteq> CHR ''+''" using d by (auto simp: digit_def)
  then show ?thesis using False assms by (simp add: parse_i32_def show_int_def dec_value_show_nat)
qed

section \<open>Which solution is found\<close>

lemma setup_exact:
  "fst (setup_root l e variant) = KernelSU \<longleftrightarrow>
     re_ksu_version e \<noteq> 0 \<and> min_ksu l \<le> re_ksu_version e \<and> re_ksu_version e \<le> max_ksu l \<and>
     get_apatch l e = None \<and> fst (get_magisk l e variant) = None"
  "fst (setup_root l e variant) = APatch \<longleftrightarrow>
     get_apatch l e = Some V_Supported \<and> re_ksu_version e = 0 \<and> fst (get_magisk l e variant) = None"
  "fst (setup_root l e variant) = Magisk \<longleftrightarrow>
     fst (get_magisk l e variant) = Some V_Supported \<and> re_ksu_version e = 0 \<and> get_apatch l e = None"
  by (auto simp: setup_root_def root_impl_setup_def get_kernel_su_def Let_def split: prod.splits option.splits version.splits if_splits)

text \<open>Two solutions at once are reported as none; only all three are \<open>Multiple\<close>.\<close>

lemma two_roots_are_none:
  assumes "get_apatch l e = None" and "get_kernel_su l e \<noteq> None" and "fst (get_magisk l e variant) \<noteq> None"
  shows "fst (setup_root l e variant) = Root_None"
  using assms by (auto simp: setup_root_def root_impl_setup_def split: prod.splits)

text \<open>\<open>VARIANT\<close> is set at most once, and missing only when \<open>magisk -v\<close> gave nothing.\<close>

lemma variant_kept: "snd (setup_root l e (Some v)) = Some v"
  by (simp add: setup_root_def get_magisk_def Let_def)

lemma variant_missing: "snd (setup_root l e None) = None \<longleftrightarrow> re_run e ''magisk'' [''-v''] = None"
  by (simp add: setup_root_def get_magisk_def Let_def)

section \<open>What a solution says of a uid\<close>

text \<open>The contract of a root solution: it is one the clients know, and its two tables answer for every uid.\<close>

locale root_solution =
  fixes impl :: root_impl and env :: root_env
  assumes known: "root_flag impl \<noteq> None"
    and granted_total: "uid_granted_root impl env uid \<noteq> None"
    and umount_total: "uid_should_umount impl env uid \<noteq> None"
begin

lemma root_bits:
  "root_flag r = Some rf \<Longrightarrow> root_flag impl = Some w \<Longrightarrow> w AND rf \<noteq> 0 \<longleftrightarrow> r = impl"
  by (cases impl; cases r) (auto simp: root_flag_def process_flag_defs)

lemma flags_bits:
  assumes "uid_is_manager impl env variant uid = Some m"
  shows "\<exists>f. system_flags impl env variant uid = Some f \<and>
    (f AND PROCESS_IS_MANAGER \<noteq> 0 \<longleftrightarrow> m) \<and>
    (f AND PROCESS_GRANTED_ROOT \<noteq> 0 \<longleftrightarrow> \<not> m \<and> uid_granted_root impl env uid = Some True) \<and>
    (f AND PROCESS_ON_DENYLIST \<noteq> 0 \<longleftrightarrow> \<not> m \<and> uid_should_umount impl env uid = Some True) \<and>
    (\<forall>r rf. root_flag r = Some rf \<longrightarrow> (f AND rf \<noteq> 0 \<longleftrightarrow> r = impl))"
proof -
  obtain g u w where gu: "uid_granted_root impl env uid = Some g" "uid_should_umount impl env uid = Some u"
      "root_flag impl = Some w"
    using granted_total [of uid] umount_total [of uid] known by auto
  let ?f = "(if m then PROCESS_IS_MANAGER
             else (if g then PROCESS_GRANTED_ROOT else 0) OR (if u then PROCESS_ON_DENYLIST else 0)) OR w"
  have f: "system_flags impl env variant uid = Some ?f" by (simp add: system_flags_def assms gu)
  have w: "w \<in> {PROCESS_ROOT_IS_KSU, PROCESS_ROOT_IS_MAGISK, PROCESS_ROOT_IS_APATCH}"
    using gu(3) by (auto simp: root_flag_def split: root_impl.splits)
  have "?f AND PROCESS_IS_MANAGER \<noteq> 0 \<longleftrightarrow> m" using w by (auto simp: process_flag_defs)
  moreover have "?f AND PROCESS_GRANTED_ROOT \<noteq> 0 \<longleftrightarrow> \<not> m \<and> g" using w by (auto simp: process_flag_defs)
  moreover have "?f AND PROCESS_ON_DENYLIST \<noteq> 0 \<longleftrightarrow> \<not> m \<and> u" using w by (auto simp: process_flag_defs)
  moreover have "?f AND rf \<noteq> 0 \<longleftrightarrow> r = impl" if r: "root_flag r = Some rf" for r rf
  proof -
    have "?f AND rf = w AND rf" using r by (auto simp: root_flag_def process_flag_defs bit.conj_disj_distrib2 split: root_impl.splits)
    then show ?thesis using root_bits [OF r gu(3)] by simp
  qed
  ultimately show ?thesis by (simp add: f gu)
qed

end

interpretation kernelsu: root_solution KernelSU e for e
  by unfold_locales (simp_all add: root_flag_def uid_granted_root_def uid_should_umount_def)

interpretation magisk: root_solution Magisk e for e
  by unfold_locales (simp_all add: root_flag_def uid_granted_root_def uid_should_umount_def)

interpretation apatch: root_solution APatch e for e
  by unfold_locales (simp_all add: root_flag_def uid_granted_root_def uid_should_umount_def)

section \<open>The flags an application gets\<close>

text \<open>What the daemon of the protocol asks, answered by the system.\<close>

definition system_query :: "root_impl \<Rightarrow> root_env \<Rightarrow> string option \<Rightarrow> root_query" where
  "system_query impl e variant =
     \<lparr>rq_impl = impl, rq_granted_root = \<lambda>uid. uid_granted_root impl e uid = Some True,
      rq_should_umount = \<lambda>uid. uid_should_umount impl e uid = Some True,
      rq_is_manager = \<lambda>uid. uid_is_manager impl e variant uid = Some True\<rparr>"

lemma process_flags_system:
  "system_flags impl e variant uid = Some f \<Longrightarrow> process_flags (system_query impl e variant) uid = Some f"
  by (auto simp: system_flags_def process_flags_def system_query_def Let_def split: option.splits if_splits)

lemma manager_answered:
  assumes "setup_root l e None = (impl, variant)" and "root_flag impl \<noteq> None"
    and "impl = Magisk \<longrightarrow> re_run e ''magisk'' [''-v''] \<noteq> None"
  obtains m where "uid_is_manager impl e variant uid = Some m"
proof -
  have "variant \<noteq> None" if "impl = Magisk"
    using assms(1,3) that variant_missing [of l e] by simp
  then have "uid_is_manager impl e variant uid \<noteq> None"
    using assms(2) by (auto simp: uid_is_manager_def root_flag_def magisk_uid_is_manager_def split: root_impl.splits option.splits)
  then show thesis using that by blast
qed

lemma solution_flags:
  assumes "root_flag impl \<noteq> None" and "uid_is_manager impl e variant uid = Some m"
  shows "\<exists>f. system_flags impl e variant uid = Some f \<and>
    (f AND PROCESS_IS_MANAGER \<noteq> 0 \<longleftrightarrow> m) \<and>
    (f AND PROCESS_GRANTED_ROOT \<noteq> 0 \<longleftrightarrow> \<not> m \<and> uid_granted_root impl e uid = Some True) \<and>
    (f AND PROCESS_ON_DENYLIST \<noteq> 0 \<longleftrightarrow> \<not> m \<and> uid_should_umount impl e uid = Some True) \<and>
    (\<forall>r rf. root_flag r = Some rf \<longrightarrow> (f AND rf \<noteq> 0 \<longleftrightarrow> r = impl))"
proof -
  consider "impl = KernelSU" | "impl = Magisk" | "impl = APatch"
    using assms(1) by (auto simp: root_flag_def split: root_impl.splits)
  then show ?thesis
    using assms(2) kernelsu.flags_bits magisk.flags_bits apatch.flags_bits by cases (simp_all only:)
qed


text \<open>A device with APatch: one application is granted root, another is on the deny list.\<close>

definition apatch_env :: root_env where
  "apatch_env = \<lparr>re_ksu_version = 0, re_ksu_query = \<lambda>_ _. (False, 0), re_su_path = Some (''/system/bin/su'' @ [CHR 0x0A]),
     re_run = \<lambda>prog args. if prog = ''/system/bin/su'' then Some ''APatch'' else if prog = ''/data/adb/apd'' then Some ''apd 10763''
       else None,
     re_packages = Some [Some \<lparr>pc_exclude = 0, pc_allow = 1, pc_uid = 10100\<rparr>, None, Some \<lparr>pc_exclude = 1, pc_allow = 0, pc_uid = 10200\<rparr>],
     re_owner = \<lambda>path. if path = ''/data/user_de/0/me.bmax.apatch'' then Some 10001 else None\<rparr>"

definition device_limits :: limits where
  "device_limits = \<lparr>min_apatch = 10655, min_ksu = 10940, max_ksu = 20000, min_magisk = 26402\<rparr>"

definition apatch_daemon :: daemon where
  "apatch_daemon = \<lparr>dn_root = system_query APatch apatch_env None, dn_modules = [], dn_pid = 1, dn_companion = \<lambda>_. False,
     dn_module_dir = \<lambda>_. None\<rparr>"

definition apatch_peer :: peer where
  "apatch_peer = \<lparr>daemon_reply = handle_daemon_action apatch_daemon, read_plan = [], write_plan = []\<rparr>"

lemma apatch_found: "setup_root device_limits apatch_env None = (APatch, None)"
  by code_simp

lemma apatch_asked:
  "uid_is_manager APatch apatch_env None 10200 = Some False" "uid_granted_root APatch apatch_env 10200 = Some False"
  "uid_should_umount APatch apatch_env 10200 = Some True"
  by code_simp+


end
