(* ===== verification/Daemon_Main.thy ===== *)
theory Daemon_Main
  imports Companion Root_Impl
begin

text \<open>
  The life of the daemon process, from \<open>main\<close> of \<open>zygiskd/src/zygiskd.rs\<close> and the helpers of \<open>utils.rs\<close>: finding the
  modules, announcing itself to the monitor, its listening socket and the accept loop with every way out of it.

  An error that leaves \<open>main\<close> ends the process (\<open>expect\<close> in \<open>main.rs\<close>), so every \<open>?\<close> is a branch with an error.
\<close>

section \<open>Talking to the monitor\<close>

text \<open>\<open>set_socket_create_context\<close>: the path of the thread, or the one with its number; the state is the context the thread
  creates sockets with.\<close>

definition sockcreate_path :: string where
  "sockcreate_path = ''/proc/thread-self/attr/sockcreate''"

definition sockcreate_tid_path :: "nat \<Rightarrow> string" where
  "sockcreate_tid_path tid = ''/proc/self/task/'' @ show_nat tid @ ''/attr/sockcreate''"

definition zygote_context :: string where
  "zygote_context = ''u:r:zygote:s0''"

definition set_socket_create_context :: "(string \<Rightarrow> bool) \<Rightarrow> nat \<Rightarrow> string \<Rightarrow> string \<Rightarrow> bool \<times> string" where
  "set_socket_create_context writable tid context ctx =
     (if writable sockcreate_path then (True, context)
      else if writable (sockcreate_tid_path tid) then (True, context)
      else (False, ctx))"

text \<open>What the calls of \<open>unix_datagram_sendto\<close> give; \<open>ml_writable2\<close> is about the second change of the context.\<close>

record monitor_link =
  ml_attr :: "string option"
  ml_writable :: "string \<Rightarrow> bool"
  ml_addr :: bool
  ml_socket :: bool
  ml_connect :: bool
  ml_send :: bool
  ml_writable2 :: "string \<Rightarrow> bool"

definition unix_datagram_sendto :: "monitor_link \<Rightarrow> nat \<Rightarrow> string \<Rightarrow> string \<Rightarrow> bool \<times> string list \<times> string" where
  "unix_datagram_sendto l tid buf ctx =
     (case ml_attr l of
        None \<Rightarrow> (False, [], ctx)
      | Some attr \<Rightarrow>
          (case set_socket_create_context (ml_writable l) tid attr ctx of
             (False, ctx1) \<Rightarrow> (False, [], ctx1)
           | (True, ctx1) \<Rightarrow>
               if \<not> (ml_addr l \<and> ml_socket l \<and> ml_connect l \<and> ml_send l) then (False, [], ctx1)
               else (case set_socket_create_context (ml_writable2 l) tid zygote_context ctx1 of
                       (ok, ctx2) \<Rightarrow> (ok, [buf], ctx2))))"

section \<open>The accept loop\<close>

text \<open>A connection: whether \<open>accept\<close> gave one, what its client sends, and how the monitor can be reached then.\<close>

record incoming =
  ic_accept :: bool
  ic_bytes :: string
  ic_link :: monitor_link

datatype daemon_error = Err_Accept | Err_Read | Err_Action | Err_Monitor

record daemon_state =
  ds_slots :: "slot list"
  ds_sent :: "string list"
  ds_threads :: "(daemon_socket_action \<times> string) list"
  ds_ctx :: string

definition notify :: "monitor_link \<Rightarrow> nat \<Rightarrow> string \<Rightarrow> daemon_state \<Rightarrow> daemon_error option \<times> daemon_state" where
  "notify l tid buf st =
     (case unix_datagram_sendto l tid buf (ds_ctx st) of
        (ok, sent, ctx) \<Rightarrow>
          (if ok then None else Some Err_Monitor, st\<lparr>ds_sent := ds_sent st @ sent, ds_ctx := ctx\<rparr>))"

definition accept_one :: "bool \<Rightarrow> nat \<Rightarrow> incoming \<Rightarrow> daemon_state \<Rightarrow> daemon_error option \<times> daemon_state" where
  "accept_one lp64 tid ic st =
     (if \<not> ic_accept ic then (Some Err_Accept, st)
      else
        (case ic_bytes ic of
           [] \<Rightarrow> (Some Err_Read, st)
         | c # args \<Rightarrow>
             (case daemon_socket_action_try_from (of_char c) of
                None \<Rightarrow> (Some Err_Action, st)
              | Some DA_PingHeartbeat \<Rightarrow> notify (ic_link ic) tid (enc_u32 (ZYGOTE_INJECTED lp64)) st
              | Some DA_ZygoteRestart \<Rightarrow> (None, st\<lparr>ds_slots := restart_slots (ds_slots st)\<rparr>)
              | Some DA_SystemServerStarted \<Rightarrow> notify (ic_link ic) tid (enc_u32 SYSTEM_SERVER_STARTED_cmd) st
              | Some a \<Rightarrow> (None, st\<lparr>ds_threads := ds_threads st @ [(a, args)]\<rparr>))))"

fun daemon_loop :: "bool \<Rightarrow> nat \<Rightarrow> incoming list \<Rightarrow> daemon_state \<Rightarrow> daemon_error option \<times> daemon_state" where
  "daemon_loop lp64 tid [] st = (None, st)"
| "daemon_loop lp64 tid (ic # ics) st =
     (case accept_one lp64 tid ic st of
        (Some e, st') \<Rightarrow> (Some e, st')
      | (None, st') \<Rightarrow> daemon_loop lp64 tid ics st')"

section \<open>Finding the modules\<close>

definition get_arch :: "bool \<Rightarrow> string \<Rightarrow> string option" where
  "get_arch lp64 system_arch =
     (if str_contains system_arch ''arm'' then Some (if lp64 then ''arm64-v8a'' else ''armeabi-v7a'')
      else if str_contains system_arch ''x86'' then Some (if lp64 then ''x86_64'' else ''x86'')
      else None)"

text \<open>\<open>create_library_fd\<close>: a memory file with the library's bytes, sealed against every later change.\<close>

datatype seal = SealShrink | SealGrow | SealWrite | SealSeal

record memfd =
  mf_bytes :: string
  mf_seals :: "seal set"

record library_env =
  le_create :: bool
  le_file :: "string option"       \<comment> \<open>\<open>File::open\<close> and its bytes\<close>
  le_copied :: bool
  le_add_seals :: bool

definition create_library_fd :: "library_env \<Rightarrow> memfd option" where
  "create_library_fd e =
     (if \<not> le_create e then None
      else
        (case le_file e of
           None \<Rightarrow> None
         | Some bytes \<Rightarrow>
             if \<not> le_copied e then None
             else if \<not> le_add_seals e then None
             else Some \<lparr>mf_bytes = bytes, mf_seals = {SealShrink, SealGrow, SealWrite, SealSeal}\<rparr>))"

text \<open>An entry of the directory: an error of reading it, a name that is no UTF-8 (\<open>unwrap\<close> panics), or a module.\<close>

record module_entry =
  me_name :: string
  me_exists :: "string \<Rightarrow> bool"
  me_library :: library_env

datatype dir_item = Dir_Error | Dir_Bad_Name | Dir_Entry module_entry

datatype load_error = Load_Err | Load_Panic

definition entry_usable :: "string \<Rightarrow> module_entry \<Rightarrow> bool" where
  "entry_usable arch m \<longleftrightarrow> me_exists m (''zygisk/'' @ arch @ ''.so'') \<and> \<not> me_exists m ''disable''"

fun load_entries :: "string \<Rightarrow> dir_item list \<Rightarrow> (string \<times> memfd) list \<Rightarrow> load_error + (string \<times> memfd) list" where
  "load_entries arch [] modules = Inr modules"
| "load_entries arch (Dir_Error # ds) modules = Inl Load_Err"
| "load_entries arch (Dir_Bad_Name # ds) modules = Inl Load_Panic"
| "load_entries arch (Dir_Entry m # ds) modules =
     (if \<not> entry_usable arch m then load_entries arch ds modules
      else
        (case create_library_fd (me_library m) of
           None \<Rightarrow> load_entries arch ds modules
         | Some fd \<Rightarrow> load_entries arch ds (modules @ [(me_name m, fd)])))"

definition zygiskd_load_modules :: "string \<Rightarrow> dir_item list option \<Rightarrow> load_error + (string \<times> memfd) list" where
  "zygiskd_load_modules arch dir = (case dir of None \<Rightarrow> Inr [] | Some ds \<Rightarrow> load_entries arch ds [])"

section \<open>Starting up\<close>

text \<open>\<open>unix_listener_from_path\<close> and \<open>create_daemon_socket\<close>; removing the old file may fail unnoticed, and the exit status of
  \<open>chcon\<close> is not looked at, only that it could be run.\<close>

record listen_env =
  li_writable :: "string \<Rightarrow> bool"
  li_addr :: bool
  li_socket :: bool
  li_bind :: bool
  li_listen :: bool
  li_chcon :: bool

definition unix_listener_from_path :: "listen_env \<Rightarrow> bool" where
  "unix_listener_from_path e \<longleftrightarrow> li_addr e \<and> li_socket e \<and> li_bind e \<and> li_listen e \<and> li_chcon e"

definition create_daemon_socket :: "listen_env \<Rightarrow> nat \<Rightarrow> string \<Rightarrow> bool \<times> string" where
  "create_daemon_socket e tid ctx =
     (case set_socket_create_context (li_writable e) tid zygote_context ctx of
        (False, ctx1) \<Rightarrow> (False, ctx1)
      | (True, ctx1) \<Rightarrow> (unix_listener_from_path e, ctx1))"

record start_env =
  se_tmp_path :: "string option"
  se_abi :: "string option"
  se_dir :: "dir_item list option"
  se_link :: monitor_link
  se_listen :: listen_env

datatype start_error = No_Tmp_Path | No_Arch | No_Modules load_error | No_Monitor | No_Socket

definition controller_socket :: "string \<Rightarrow> string" where
  "controller_socket tmp = tmp @ ''/init_monitor''"

definition path_cp_name :: "bool \<Rightarrow> string \<Rightarrow> string" where
  "path_cp_name lp64 tmp = tmp @ ''/'' @ (if lp64 then ''/cp64.sock'' else ''/cp32.sock'')"

text \<open>\<open>main\<close>: \<open>d\<close> gives the root implementation and the process id, its modules are those just loaded (a library's
  descriptor is its place in the list); \<open>st\<close> is where the loop starts.\<close>

definition with_modules :: "(string \<times> memfd) list \<Rightarrow> daemon \<Rightarrow> daemon" where
  "with_modules ms d = d\<lparr>dn_modules := map2 (\<lambda>k m. \<lparr>dm_name = fst m, dm_lib_fd = int k\<rparr>) [0..<length ms] ms\<rparr>"

definition daemon_start :: "bool \<Rightarrow> nat \<Rightarrow> start_env \<Rightarrow> daemon \<Rightarrow> start_error + (daemon \<times> daemon_state)" where
  "daemon_start lp64 tid e d =
     (case se_tmp_path e of
        None \<Rightarrow> Inl No_Tmp_Path
      | Some tmp \<Rightarrow>
          (case Option.bind (se_abi e) (get_arch lp64) of
             None \<Rightarrow> Inl No_Arch
           | Some arch \<Rightarrow>
               (case zygiskd_load_modules arch (se_dir e) of
                  Inl er \<Rightarrow> Inl (No_Modules er)
                | Inr ms \<Rightarrow>
                    (let d' = with_modules ms d
                     in case unix_datagram_sendto (se_link e) tid (startup_msg lp64 d') [] of
                          (False, _, _) \<Rightarrow> Inl No_Monitor
                        | (True, sent, ctx) \<Rightarrow>
                            (case create_daemon_socket (se_listen e) tid ctx of
                               (False, _) \<Rightarrow> Inl No_Socket
                             | (True, ctx') \<Rightarrow>
                                 Inr (d', \<lparr>ds_slots = replicate (length ms) None, ds_sent = sent, ds_threads = [],
                                   ds_ctx = ctx'\<rparr>))))))"

text \<open>\<open>start\<close> of \<open>main.rs\<close>: what a command line makes of the process; \<open>parse\<close> failing is a panic.\<close>

datatype start_mode = Run_Companion int | Print_Version | Print_Root | Run_Daemon | Bad_Argument

definition zygiskd_start :: "string list \<Rightarrow> start_mode" where
  "zygiskd_start args =
     (if length args = 3 \<and> args ! 1 = ''companion''
      then (case parse_i32 (args ! 2) of Some fd \<Rightarrow> Run_Companion fd | None \<Rightarrow> Bad_Argument)
      else if length args = 2 \<and> args ! 1 = ''version'' then Print_Version
      else if length args = 2 \<and> args ! 1 = ''root'' then Print_Root
      else Run_Daemon)"

text \<open>The command line of \<open>spawn_companion\<close>: the daemon's own program under the name of the module.\<close>

definition companion_args :: "string \<Rightarrow> string \<Rightarrow> int \<Rightarrow> string list" where
  "companion_args process name fd =
     [rev (takeWhile (\<lambda>c. c \<noteq> CHR ''/'') (rev process)) @ ''-'' @ name, ''companion'', show_int fd]"

section \<open>Module loading\<close>

text \<open>The modules are the usable entries whose library could be copied, in the directory's order.\<close>

definition loadable :: "string \<Rightarrow> dir_item \<Rightarrow> (string \<times> memfd) option" where
  "loadable arch x =
     (case x of Dir_Entry m \<Rightarrow> if entry_usable arch m then map_option (Pair (me_name m)) (create_library_fd (me_library m)) else None
      | _ \<Rightarrow> None)"

lemma load_entries_eq:
  assumes "Dir_Error \<notin> set ds" and "Dir_Bad_Name \<notin> set ds"
  shows "load_entries arch ds ms = Inr (ms @ List.map_filter (loadable arch) ds)"
  using assms
  by (induction arch ds ms rule: load_entries.induct) (auto simp: loadable_def List.map_filter_simps split: option.splits)

lemma load_entries_error:
  "load_entries arch ds ms = Inl e \<Longrightarrow> (e = Load_Err \<and> Dir_Error \<in> set ds) \<or> (e = Load_Panic \<and> Dir_Bad_Name \<in> set ds)"
  by (induction arch ds ms rule: load_entries.induct) (auto split: if_splits option.splits)

text \<open>What is handed to applications cannot be changed by them.\<close>

lemma library_fd_sealed:
  "create_library_fd e = Some m \<Longrightarrow> le_file e = Some (mf_bytes m) \<and> mf_seals m = UNIV"
proof -
  have "{SealShrink, SealGrow, SealWrite, SealSeal} = UNIV" using seal.exhaust by auto
  then show "create_library_fd e = Some m \<Longrightarrow> le_file e = Some (mf_bytes m) \<and> mf_seals m = UNIV"
    by (auto simp: create_library_fd_def split: if_splits option.splits)
qed

section \<open>Starting up\<close>

text \<open>The child that is started for a companion becomes one, with the socket it was given.\<close>

lemma companion_started:
  "0 \<le> fd \<Longrightarrow> fd < 2 ^ 31 \<Longrightarrow> zygiskd_start (companion_args process name fd) = Run_Companion fd"
  by (simp add: zygiskd_start_def companion_args_def parse_i32_show_int)

text \<open>A daemon that starts has told the monitor about itself and its modules, once, and its loop begins in the
  zygote's context with no companion.\<close>

lemma daemon_start_ok:
  assumes "daemon_start lp64 tid e d = Inr (d', st)"
  shows "ds_sent st = [startup_msg lp64 d'] \<and> ds_ctx st = zygote_context \<and> ds_threads st = [] \<and>
    (\<forall>c \<in> set (ds_slots st). c = None) \<and> length (ds_slots st) = length (dn_modules d') \<and>
    (\<exists>arch ms. zygiskd_load_modules arch (se_dir e) = Inr ms \<and> map dm_name (dn_modules d') = map fst ms)"
proof -
  have sent: "sent = [buf]" if "unix_datagram_sendto l tid buf ctx = (True, sent, ctx')" for l buf ctx sent ctx'
    using that by (auto simp: unix_datagram_sendto_def split: option.splits prod.splits bool.splits if_splits)
  have ctx: "ctx' = zygote_context" if "create_daemon_socket x tid ctx = (True, ctx')" for x ctx ctx'
    using that by (auto simp: create_daemon_socket_def set_socket_create_context_def split: if_splits)
  have "map dm_name (dn_modules (with_modules ms d)) = map fst ms \<and> length (dn_modules (with_modules ms d)) = length ms" for ms
    by (auto simp: with_modules_def intro: nth_equalityI)
  then show ?thesis
    using assms by (auto simp: daemon_start_def Let_def dest!: sent ctx split: option.splits sum.splits prod.splits bool.splits)
qed

section \<open>The loop\<close>

definition link_ok :: "nat \<Rightarrow> monitor_link \<Rightarrow> bool" where
  "link_ok tid l \<longleftrightarrow> ml_attr l \<noteq> None \<and> (ml_writable l sockcreate_path \<or> ml_writable l (sockcreate_tid_path tid)) \<and>
     ml_addr l \<and> ml_socket l \<and> ml_connect l \<and> ml_send l \<and>
     (ml_writable2 l sockcreate_path \<or> ml_writable2 l (sockcreate_tid_path tid))"

lemma sendto_ok_iff: "fst (unix_datagram_sendto l tid buf ctx) \<longleftrightarrow> link_ok tid l"
  by (auto simp: unix_datagram_sendto_def link_ok_def set_socket_create_context_def split: option.split)

lemma sendto_ok: "link_ok tid l \<Longrightarrow> unix_datagram_sendto l tid buf ctx = (True, [buf], zygote_context)"
  by (auto simp: unix_datagram_sendto_def link_ok_def set_socket_create_context_def)

lemma notify_eq:
  "link_ok tid l \<Longrightarrow> notify l tid buf st = (None, st\<lparr>ds_sent := ds_sent st @ [buf], ds_ctx := zygote_context\<rparr>)"
  "\<not> link_ok tid l \<Longrightarrow> \<exists>sent ctx. notify l tid buf st = (Some Err_Monitor, st\<lparr>ds_sent := ds_sent st @ sent, ds_ctx := ctx\<rparr>)"
  using sendto_ok_iff [of l tid buf "ds_ctx st"] by (auto simp: notify_def sendto_ok split: prod.split)

text \<open>Which connections the daemon outlives, and what each of them then does.\<close>

definition ic_action :: "incoming \<Rightarrow> daemon_socket_action option" where
  "ic_action ic = (case ic_bytes ic of [] \<Rightarrow> None | c # _ \<Rightarrow> daemon_socket_action_try_from (of_char c))"

definition tells_monitor :: "daemon_socket_action \<Rightarrow> bool" where
  "tells_monitor a \<longleftrightarrow> a \<in> {DA_PingHeartbeat, DA_SystemServerStarted}"

definition survivable :: "nat \<Rightarrow> incoming \<Rightarrow> bool" where
  "survivable tid ic \<longleftrightarrow> ic_accept ic \<and>
     (case ic_action ic of None \<Rightarrow> False | Some a \<Rightarrow> tells_monitor a \<longrightarrow> link_ok tid (ic_link ic))"

definition ic_datagram :: "bool \<Rightarrow> incoming \<Rightarrow> string list" where
  "ic_datagram lp64 ic = (case Option.bind (ic_action ic) (main_loop_datagram lp64) of None \<Rightarrow> [] | Some x \<Rightarrow> [x])"

definition ic_thread :: "incoming \<Rightarrow> (daemon_socket_action \<times> string) list" where
  "ic_thread ic =
     (case ic_action ic of
        Some a \<Rightarrow> if tells_monitor a \<or> a = DA_ZygoteRestart then [] else [(a, tl (ic_bytes ic))]
      | None \<Rightarrow> [])"

lemmas ic_defs = ic_action_def ic_datagram_def ic_thread_def tells_monitor_def main_loop_datagram_def

lemma accept_one_ok:
  assumes "survivable tid ic"
  shows "\<exists>st'. accept_one lp64 tid ic st = (None, st') \<and> ds_sent st' = ds_sent st @ ic_datagram lp64 ic \<and>
    ds_threads st' = ds_threads st @ ic_thread ic \<and>
    ds_slots st' = (if ic_action ic = Some DA_ZygoteRestart then restart_slots (ds_slots st) else ds_slots st) \<and>
    (ds_ctx st = zygote_context \<longrightarrow> ds_ctx st' = zygote_context)"
proof -
  obtain c args a where c: "ic_bytes ic = c # args" "daemon_socket_action_try_from (of_char c) = Some a"
    using assms by (auto simp: survivable_def ic_action_def split: option.splits list.splits)
  then show ?thesis
    using assms by (cases a) (simp_all add: accept_one_def survivable_def ic_defs notify_eq)
qed

lemma accept_one_ends:
  assumes "\<not> survivable tid ic"
  shows "\<exists>e st'. accept_one lp64 tid ic st = (Some e, st') \<and> ds_threads st' = ds_threads st \<and> ds_slots st' = ds_slots st"
proof (cases "ic_accept ic \<and> ic_bytes ic \<noteq> []")
  case True
  then obtain c args where c: "ic_bytes ic = c # args" by (cases "ic_bytes ic") auto
  show ?thesis
  proof (cases "daemon_socket_action_try_from (of_char c)")
    case (Some a)
    have "\<not> link_ok tid (ic_link ic)" "tells_monitor a"
      using assms True Some c by (auto simp: survivable_def ic_action_def)
    then show ?thesis
      using True Some c notify_eq(2) [of tid "ic_link ic" "enc_u32 (ZYGOTE_INJECTED lp64)" st]
        notify_eq(2) [of tid "ic_link ic" "enc_u32 SYSTEM_SERVER_STARTED_cmd" st]
      by (auto simp: accept_one_def tells_monitor_def)
  qed (use True c in \<open>simp add: accept_one_def\<close>)
next
  case False
  then show ?thesis by (auto simp: accept_one_def)
qed

lemma daemon_loop_outcome:
  "\<exists>e st'. daemon_loop lp64 tid ics st = (e, st') \<and> (e = None \<longleftrightarrow> (\<forall>ic \<in> set ics. survivable tid ic)) \<and>
     ds_threads st' = ds_threads st @ concat (map ic_thread (takeWhile (survivable tid) ics)) \<and>
     ds_slots st' = (if \<exists>ic \<in> set (takeWhile (survivable tid) ics). ic_action ic = Some DA_ZygoteRestart
                     then restart_slots (ds_slots st) else ds_slots st) \<and>
     (e = None \<longrightarrow> ds_sent st' = ds_sent st @ concat (map (ic_datagram lp64) ics) \<and>
        (ds_ctx st = zygote_context \<longrightarrow> ds_ctx st' = zygote_context))"
proof (induction ics arbitrary: st)
  case (Cons ic ics)
  show ?case
  proof (cases "survivable tid ic")
    case True
    from accept_one_ok [OF True] obtain st1 where st1: "accept_one lp64 tid ic st = (None, st1)"
        "ds_sent st1 = ds_sent st @ ic_datagram lp64 ic" "ds_threads st1 = ds_threads st @ ic_thread ic"
        "ds_slots st1 = (if ic_action ic = Some DA_ZygoteRestart then restart_slots (ds_slots st) else ds_slots st)"
        "ds_ctx st = zygote_context \<longrightarrow> ds_ctx st1 = zygote_context"
      by metis
    have "restart_slots (restart_slots xs) = restart_slots xs" for xs by (simp add: restart_slots_def)
    then show ?thesis using Cons.IH [of st1] True by (auto simp: st1 split: if_splits)
  next
    case False
    then show ?thesis using accept_one_ends [OF False, of lp64 st] by auto
  qed
qed simp

text \<open>The client library only sends actions the daemon knows.\<close>

lemma client_action_known: "daemon_socket_action_try_from (unat (action_u8 a)) \<noteq> None"
  by (cases a) (simp_all add: action_u8_def daemon_socket_action_try_from_def)


definition working_link :: monitor_link where
  "working_link = \<lparr>ml_attr = Some ''u:r:zygiskd:s0'', ml_writable = \<lambda>_. True, ml_addr = True, ml_socket = True,
     ml_connect = True, ml_send = True, ml_writable2 = \<lambda>_. True\<rparr>"

text \<open>A heartbeat and a restart, then a client that closes at once: the request after it is never answered.\<close>

definition silent_run :: "incoming list" where
  "silent_run =
     [\<lparr>ic_accept = True, ic_bytes = [CHR 0x00], ic_link = working_link\<rparr>,
      \<lparr>ic_accept = True, ic_bytes = [CHR 0x07], ic_link = working_link\<rparr>,
      \<lparr>ic_accept = True, ic_bytes = [], ic_link = working_link\<rparr>,
      \<lparr>ic_accept = True, ic_bytes = [CHR 0x04], ic_link = working_link\<rparr>]"

definition silent_state :: daemon_state where
  "silent_state = \<lparr>ds_slots = [Some (Some 2)], ds_sent = [], ds_threads = [], ds_ctx = zygote_context\<rparr>"

lemma silent_ctx: "ds_ctx silent_state = zygote_context" "ds_threads silent_state = []"
  by (simp_all add: silent_state_def)

lemma silent_run_eq:
  "daemon_loop True 2 silent_run silent_state =
     (Some Err_Read, silent_state\<lparr>ds_slots := [None], ds_sent := [enc_u32 (ZYGOTE_INJECTED True)]\<rparr>)"
proof -
  have "link_ok 2 working_link" by (simp add: link_ok_def working_link_def)
  then show ?thesis
    by (simp add: silent_run_def silent_state_def accept_one_def notify_eq daemon_socket_action_try_from_def restart_slots_def Let_def)
qed


end
