(* ===== verification/Spec2Isabelle.thy ===== *)
theory Spec2Isabelle
  imports Misc_Utils Daemon_Client Event_Registry Tracer_Main Zygisk_Process So_List Jni_Reflect Tracee32 Dl_Logging
    Module_Api Hook_Lock Jni_Wrappers Raii Companion Root_Impl Daemon_Main
begin

text \<open>
  \<^bold>\<open>ReZygisk, the loader\<close>

  ReZygisk injects a library into Android's zygote so that modules can run code in every app.  Its parts are
  a \<^emph>\<open>monitor\<close> that traces \<open>init\<close>, watches for zygotes and starts a tracer on each; the \<^emph>\<open>tracer\<close>, which makes a
  stopped zygote load the library and lets it go; the \<^emph>\<open>injected library\<close>, which asks the daemon about each
  app, runs the modules and reverts the root solution's mounts; and the \<^emph>\<open>daemon\<close> \<open>zygiskd\<close> (Rust), which knows
  the modules and the root solution.  Monitor and tracer are one program, \<open>zygisk-ptrace\<close>; they meet the daemon
  over two sockets: the daemon's own stream socket for requests, and the monitor's datagram socket for
  status messages.

  \<^bold>\<open>What is modelled\<close> (files under \<open>loader/src\<close>, definitions named as in the source)

  \<^item> \<open>Zygisk_Prelude\<close>: words, C strings, little-endian encodings, decimal and hexadecimal text, and the result
    type \<open>res\<close>.  Where C++ leaves the behaviour undefined, or the process ends, the model returns a \<open>fault\<close>.
  \<^item> \<open>Misc_Utils\<close>: \<open>common/misc.cpp\<close>, \<open>include/misc.hpp\<close>.  \<open>split_str\<close> is a \<open>partial_function\<close>: not returning is \<open>None\<close>.
  \<^item> \<open>Raii\<close>: \<open>UniqueFd\<close> of \<open>include/daemon.h\<close> and the pointers \<open>sFILE\<close> and \<open>sDIR\<close> of \<open>include/files.hpp\<close>, by what their members
    do to what they own; the three interpret the locale \<open>owner_class\<close>, over programs that construct, move, assign and
    destroy them.
  \<^item> \<open>Socket_Utils\<close>: \<open>common/socket_utils.cpp\<close> over a connection whose transfers are cut and interrupted by a
    schedule.  The locale \<open>framed\<close> is the contract of a reader for an encoding; each reader interprets it.
  \<^item> \<open>Zygiskd\<close>: the daemon's side of the protocol (\<open>zygiskd/src/zygiskd.rs\<close>, \<open>constants.rs\<close>, \<open>root_impl/mod.rs\<close>).
  \<^item> \<open>Daemon_Client\<close>: \<open>common/daemon.cpp\<close>, every request with the descriptors it opens and closes.
  \<^item> \<open>Root_Impl\<close>: \<open>zygiskd/src/root_impl/\<close>, how the daemon finds the root solution and asks it about a uid.  The programs it
    runs, the files and the kernel are an environment.  The three solutions interpret the locale \<open>root_solution\<close>.
  \<^item> \<open>Companion\<close>: the companions of the modules, from the slot in the daemon (\<open>spawn_companion\<close> and the request in
    \<open>zygiskd.rs\<close>) to the companion's own loop (\<open>companion.rs\<close>), and a world in which requests, crashes and zygote restarts
    follow each other.
  \<^item> \<open>Daemon_Main\<close>: \<open>main\<close> of \<open>zygiskd.rs\<close> and \<open>start\<close> of \<open>main.rs\<close>: finding the modules, the first message to the monitor,
    the listening socket, and the accept loop with every error that leaves it.
  \<^item> \<open>Wait_Status\<close>: the status macros and texts of \<open>ptracer/utils.hpp\<close> and \<open>utils.cpp\<close>.
  \<^item> \<open>Monitor_State\<close>, \<open>Monitor_Socket\<close>, \<open>Monitor_Sigchld\<close>, \<open>Monitor_Loop\<close>: \<open>ptracer/monitor.cpp\<close>.  The globals
    are the record \<open>monitor\<close>, the system calls it makes are a log in it.  The two handlers meet the locale
    \<open>event_handler\<close>, under which the loop's properties are proved once.  \<open>Event_Registry\<close> adds the epoll instance, the
    descriptors and the destructors, and \<open>init_monitor\<close> with them.
  \<^item> \<open>Scanf\<close>: the directives of \<open>sscanf\<close> and \<open>getline\<close> that the parsers of \<open>/proc\<close> files use.
  \<^item> \<open>Proc_Maps\<close>, \<open>Tracee\<close>: \<open>ptracer/utils.cpp\<close>, memory maps, memory, registers and remote calls of a tracee on
    x86-64 and AArch64.  \<open>Tracee32\<close>: the same for the builds for i386 and 32-bit ARM.
  \<^item> \<open>Ptracer\<close>: \<open>ptracer/ptracer.cpp\<close>, the injection, and \<open>switch_mnt_ns\<close>.
  \<^item> \<open>Tracer_Main\<close>: \<open>ptracer/main.cpp\<close>, the command line, composed from the components it calls.
  \<^item> \<open>Mount_Info\<close>, \<open>Unmount\<close>: \<open>common/files.cpp\<close> and \<open>injector/unmount.cpp\<close>.  The two variants with an overlay
    source interpret the locale \<open>overlay_revert\<close>.
  \<^item> \<open>Zygisk_Module\<close>: \<open>injector/module.hpp\<close> and the registration in \<open>injector/hook.cpp\<close>, with the module's side from
    \<open>include/api.hpp\<close>: the versions of the API table, what its slots hold, the calls into a module.
  \<^item> \<open>Zygisk_Context\<close>: \<open>ZygiskContext\<close> of \<open>hook.cpp\<close>, the record \<open>zygote\<close>: fork and descriptors, running the modules before
    and after the specialisation, hiding their traces.  A module's code is a list of actions per function.
    \<open>Zygisk_Run\<close> has the properties of these runs.
  \<^item> \<open>Hook_Lock\<close>: the lists of hooks as modules use them from several threads, one access or call at a time under
    \<open>hook_info_lock\<close> and the \<open>mutex_guard\<close> of \<open>misc.hpp\<close>; a schedule chooses the thread that moves.  Runs of
    a schedule are reasoned about through the locale \<open>interleaving\<close>.
  \<^item> \<open>Jni_Hooks\<close>: the wrappers and method tables of \<open>injector/jni_hooks.hpp\<close> and, from \<open>hook.cpp\<close>, putting them in place
    and taking them out, over a map from class names to classes.
  \<^item> \<open>Zygisk_Hooks\<close>: \<open>injector/entry.cpp\<close> and the rest of \<open>hook.cpp\<close>, the record \<open>zproc\<close>: entry, the functions that replace
    those of the C library, a wrapper's course around the original method, the end of a context, unloading.
    \<open>Zygisk_Process\<close> has the properties of a process with the library in it.
  \<^item> \<open>Elf_Image\<close>, \<open>Elf_Lookup\<close>: \<open>common/elf_util.cpp\<close> over the bytes of a file, and its lookups as a refinement of an
    abstract symbol table; the two hash lookups interpret the locale \<open>symbol_lookup\<close>.
  \<^item> \<open>So_List\<close>: \<open>include/solist.hpp\<close>, the linker's list of libraries in a flat memory.
  \<^item> \<open>Jni_Helper\<close>, \<open>Jni_Calls\<close>: \<open>injector/jni_helper.hpp\<close>.  The virtual machine is a function from the history of calls
    and a new call to its result and whether it throws; the owners of references, of arrays and of texts, and the
    wrappers around \<open>JNI_SafeInvoke\<close> are functions on that history.  \<open>Jni_Balance\<close> and \<open>Jni_Refs\<close> count in it the
    references made, deleted and owned; \<open>Jni_Safe\<close> has the properties of the calls and the faults of the arrays.
    \<open>Jni_Wrappers\<close>: the locale \<open>jni_wrapper\<close> is the contract of a call, which every wrapper interprets, and \<open>jni_seq\<close>
    gives it for calls that follow each other.
  \<^item> \<open>Art_Method\<close>: \<open>injector/art_method.hpp\<close>, how the layout of the runtime's methods is found.  \<open>Jni_Reflect\<close>:
    \<open>hookJniNativeMethods\<close> and the start of \<open>initialize_jni_hook\<close> through these calls, as a refinement of \<open>Jni_Hooks\<close>. The two
    together: the globals that the start sets are those under which the hooks refine the class.
  \<^item> \<open>Module_Api\<close>: what \<open>include/api.hpp\<close> declares against what the loader has, and a module's use of
    \<open>hookJniNativeMethods\<close>.
  \<^item> \<open>Dl_Logging\<close>: \<open>common/logging.cpp\<close> with the daemon's end of the log, and \<open>common/dl.cpp\<close>.

  \<^bold>\<open>Inputs.\<close>  What the kernel, \<open>init\<close>, the dynamic linker and the traced process do is not program text.  It enters as
  arguments: the events of one \<open>waitpid\<close> turn, queues of datagrams, contents of files, schedules of partial
  reads and writes, the state in which a process stops next, the outcome of each call that can fail.  The
  theorems hold for all of them, or name what they need as a hypothesis.

  \<^bold>\<open>Loops.\<close>  Loops over data are structural.  A loop that may run for ever (\<open>split_str\<close>, the socket handler's
  peeking, the scans of a tracee's stack) is a \<open>partial_function (option)\<close>, and where it returns that is
  proved.  The walks along a hash chain and along the linker's list take fuel, one unit per entry; the theorems
  show that more fuel than the table or list has entries is enough.

  \<^bold>\<open>What the theorems show\<close>

  \<^item> Monitor: its invariant and the edges of its state machine on every run; the tracer is started only on a
    tracked \<open>app_process\<close> at its exec with the daemon up; a process given up is detached exactly once; the crash
    counter counts what it says; init is always resumed; exiting is final; the socket handler equals handling
    the messages one by one; with its descriptors the monitor is this loop, and it gives them all back.
  \<^item> Protocols: each request of the client and each message of the daemon and of the command line arrives as it
    was sent, under any schedule of partial transfers without failures; no request leaks a descriptor; log messages
    arrive in order.
  \<^item> Daemon: the flags of a uid are what the root solution found on the system says of it; a module gets its companion
    whenever its library has one, whatever crashed before; the daemon outlives exactly the connections that are as
    the client makes them.
  \<^item> Owners: however descriptors, files and directories are moved around, each is closed once.
  \<^item> Injection: the entry is found, remote calls follow the calling convention, and a successful injection leaves
    the registers of the entry stop.
  \<^item> \<open>/proc\<close> parsers: what the kernel prints is read back; the unmounting removes the root solution's mounts.
  \<^item> Injected library: in the zygote itself nothing of a module runs and nothing changes; in an app the modules run in
    the daemon's order, undeclared descriptors are closed, and an app on the denylist has its mounts reverted;
    tables and wrappers have the types their users expect; the hooks are undone one for one; symbols are found;
    calls for hooks from several threads have the effect of a sequence of calls.
  \<^item> JNI: references are owned and deleted once, a call leaves no exception and no reference but its result's, hooking
    through JNI does what the model of classes says, and a module can hook and take back its hooks.
  \<^item> Faults: the theorems at the end of the property list describe inputs on which the code crashes, overflows a
    buffer, misses an event or unhooks the zygote.

  \<^bold>\<open>What is not modelled\<close>: the 32-bit ELF structs and the entry search on a 32-bit stack; the allocator template of
  \<open>include/misc.hpp\<close> and \<open>default_new\<close>, which nothing uses and which hold no logic of the program; the daemon's library
  for properties and security contexts beyond the calls above; \<open>dlopen\<close> of \<open>zygiskd/src/dl.rs\<close>, whose C++ twin is in
  \<open>Dl_Logging\<close>; declarations; the installer scripts.

  This theory holds the properties that span components: the status file of the monitor, the daemon's messages in it, and
  the way of a heartbeat from the zygote over the daemon to the monitor.
\<close>

section \<open>The status file\<close>

lemma prepare_environment_file:
  assumes "prepare_environment tmp (Some (p @ NL # field_name @ rest)) m = Inr (ok, m')"
    and "\<not> sublist field_name (p @ [NL])" and "NUL \<notin> set p" and "NUL \<notin> set rest"
  shows "ok \<and> prop_file m' = p @ NL # field_name @ ''['' @ status_text m' @ ''] '' @ rest"
proof -
  have pre: "c_str (p @ NL # field_name) = p @ NL # field_name"
    by (rule c_str_no_nul) (use assms(3) in \<open>auto simp: field_name_def\<close>)
  have rest: "c_str rest = rest" by (rule c_str_no_nul [OF assms(4)])
  let ?m1 = "m\<lparr>prop_path := prop_path m @ tmp @ ''/module.prop'', prop_file := [],
                pre_section := p @ NL # field_name, post_section := rest\<rparr>"
  have "prepare_environment tmp (Some (p @ NL # field_name @ rest)) m =
      (if length (p @ NL # field_name) \<ge> 1024 \<or> length rest \<ge> 1024 then Inl Out_Of_Bounds
       else bind_r (updateStatus ?m1) (\<lambda>m2. Inr (True, m2)))"
    unfolding prepare_environment_def Let_def option.case scan_finds_line [OF assms(2)] prod.case ..
  from if_Inl_eq_Inr [OF trans [OF sym [OF this] assms(1)]]
  have "bind_r (updateStatus ?m1) (\<lambda>m2. Inr (True, m2)) = Inr (ok, m')" .
  then obtain x where x: "updateStatus ?m1 = Inr x" and "(Inr (True, x) :: (bool \<times> monitor) res) = Inr (ok, m')"
    unfolding bind_r_eq_Inr by blast
  then have ok: "ok" and "x = m'" by simp_all
  with x have m1: "updateStatus ?m1 = Inr m'" by (simp only:)
  from m1 have "prop_file m' = c_str (p @ NL # field_name) @ ''['' @ status_text ?m1 @ ''] '' @ c_str rest"
    by (auto simp: updateStatus_def split: if_splits)
  moreover have "status_text m' = status_text ?m1"
    by (simp add: status_text_def updateStatus_keeps [OF m1])
  ultimately show ?thesis using ok by (simp add: pre rest)
qed

text \<open>C20: \<open>prepare_environment\<close> finds the \<open>description=\<close> line of \<open>module.prop\<close>, and the file it writes is the
  original with the status text in brackets put in front of the description, everything else unchanged.\<close>

theorem status_file_layout:
  assumes "prepare_environment tmp (Some (p @ NL # field_name @ rest)) m = Inr (ok, m')"
    and "\<not> sublist field_name (p @ [NL])" and "NUL \<notin> set p" and "NUL \<notin> set rest"
  shows "ok \<and> prop_file m' = p @ NL # field_name @ ''['' @ status_text m' @ ''] '' @ rest"
  by (rule prepare_environment_file [OF assms])

theorem status_file_layout_witness:
  "\<exists>ok m'. prepare_environment ''/t'' (Some (''id=z'' @ NL # field_name @ ''x'')) monitor_init = Inr (ok, m') \<and>
     prop_file m' = ''id=z'' @ NL # field_name @ ''['' @ status_text m' @ ''] '' @ ''x''"
proof -
  have "case prepare_environment ''/t'' (Some (''id=z'' @ NL # field_name @ ''x'')) monitor_init of
      Inl _ \<Rightarrow> False | Inr _ \<Rightarrow> True" by code_simp
  then obtain ok m' where p: "prepare_environment ''/t'' (Some (''id=z'' @ NL # field_name @ ''x'')) monitor_init = Inr (ok, m')"
    by (auto split: sum.splits)
  have "\<not> sublist field_name (''id=z'' @ [NL])" by (simp add: field_name_def sublist_code)
  from status_file_layout [OF p this] have "prop_file m' = ''id=z'' @ NL # field_name @ ''['' @ status_text m' @ ''] '' @ ''x''"
    by simp
  with p show ?thesis by blast
qed

text \<open>A \<open>d\<close> right in front of the field makes the scanner miss it: it restarts behind the mismatch, so the
  whole file ends up in \<open>pre_section\<close> and the status text is appended at its end.\<close>

lemma scanner_misses_after_d:
  "scan_outer (CHR ''d'' # field_name @ [CHR ''x'']) [] = (CHR ''d'' # field_name @ [CHR ''x''], [])"
  by (simp add: field_name_def)

section \<open>The daemon's messages to the monitor\<close>

lemma one_body_message:
  assumes "\<not> bare c" and "length s + 1 < 2 ^ 31"
  shows "socket_HandleEvent [Rx_Dgram (body_msg c s)] m =
    Some (handle_command c (int (length s + 1)) (s @ [NUL]) m)"
  unfolding socket_HandleEvent_reference
  using recv_body(1) [OF assms] recv_body(2) [OF assms, of m]
  by (cases "handle_command c (int (length s + 1)) (s @ [NUL]) m") simp_all

lemma startup_msg_body:
  "startup_msg lp64 d =
    body_msg (if root_flag (rq_impl (dn_root d)) \<noteq> None
              then (if lp64 then DAEMON64_SET_INFO else DAEMON32_SET_INFO)
              else (if lp64 then DAEMON64_SET_ERROR_INFO else DAEMON32_SET_ERROR_INFO)) (startup_info d)"
  by (simp add: startup_msg_def body_msg_def Command_u32_def DAEMON_SET_INFO_def DAEMON_SET_ERROR_INFO_def
      add.commute [of 1])

text \<open>The message a daemon sends when it starts reaches the monitor's record of its ABI: a supported root
  implementation is stored as its info text, any other marks the daemon as not running with the error
  text; in both cases the status file is written anew.\<close>

lemma startup_message_stored:
  assumes "length (startup_info d) + 1 < 2 ^ 31"
  shows "socket_HandleEvent [Rx_Dgram (startup_msg lp64 d)] m =
    Some (updateStatus (set_status lp64
      (if root_flag (rq_impl (dn_root d)) \<noteq> None
       then (get_status lp64 m)\<lparr>daemon_info := Some (startup_info d @ [NUL])\<rparr>
       else (get_status lp64 m)\<lparr>daemon_running := False, daemon_error_info := Some (startup_info d @ [NUL])\<rparr>) m))"
  unfolding startup_msg_body
  using one_body_message [OF _ assms, of _ m] copy_text_body [of "startup_info d"]
  by (simp add: bare_def handle_command_def set_daemon_info_def set_daemon_error_info_def)

lemma startup_message_stored_witness:
  "\<exists>m'. socket_HandleEvent [Rx_Dgram (startup_msg True
      \<lparr>dn_root = \<lparr>rq_impl = KernelSU, rq_granted_root = \<lambda>u. False, rq_should_umount = \<lambda>u. False,
        rq_is_manager = \<lambda>u. False\<rparr>, dn_modules = [], dn_pid = 1, dn_companion = \<lambda>_. False,
        dn_module_dir = \<lambda>_. None\<rparr>)] monitor_init = Some (Inr m') \<and>
     daemon_info (status64 m') = Some (''Root: KernelSU,module(0): '' @ [NUL])"
proof -
  let ?d = "\<lparr>dn_root = \<lparr>rq_impl = KernelSU, rq_granted_root = \<lambda>u. False, rq_should_umount = \<lambda>u. False,
        rq_is_manager = \<lambda>u. False\<rparr>, dn_modules = [], dn_pid = 1, dn_companion = \<lambda>_. False,
        dn_module_dir = \<lambda>_. None\<rparr>"
  have i: "startup_info ?d = ''Root: KernelSU,module(0): ''" by code_simp
  have "case updateStatus (set_status True (Status_init\<lparr>daemon_info := Some (''Root: KernelSU,module(0): '' @ [NUL])\<rparr>)
      monitor_init) of Inl _ \<Rightarrow> False | Inr _ \<Rightarrow> True" by code_simp
  then obtain m' where m': "updateStatus (set_status True (Status_init\<lparr>daemon_info :=
      Some (''Root: KernelSU,module(0): '' @ [NUL])\<rparr>) monitor_init) = Inr m'" by (auto split: sum.splits)
  have g: "get_status True monitor_init = Status_init" by (simp add: get_status_def monitor_init_def)
  show ?thesis
    using startup_message_stored [of ?d True monitor_init] m' updateStatus_keeps(3) [OF m']
    by (simp add: i g root_flag_def set_status_def)
qed

text \<open>The heartbeat of an injected zygote and the notice of a started system server, as the daemon relays
  them, set the injection flag of the daemon's ABI and bind the status file over \<open>module.prop\<close>.\<close>

lemma relayed_notices:
  "main_loop_datagram lp64 DA_PingHeartbeat = Some hb \<Longrightarrow>
   main_loop_datagram lp64 DA_SystemServerStarted = Some ss \<Longrightarrow>
   socket_HandleEvent [Rx_Dgram hb, Rx_Dgram ss] m =
     Some (bind_r (updateStatus (set_status lp64 ((get_status lp64 m)\<lparr>zygote_injected := True\<rparr>) m))
       (\<lambda>m'. Inr (call Mount_Prop m')))"
proof -
  assume "main_loop_datagram lp64 DA_PingHeartbeat = Some hb"
    and "main_loop_datagram lp64 DA_SystemServerStarted = Some ss"
  then have d: "hb = enc_u32 (Command_u32 (if lp64 then ZYGOTE64_INJECTED else ZYGOTE32_INJECTED))"
    "ss = enc_u32 (Command_u32 SYSTEM_SERVER_STARTED)"
    by (auto simp: main_loop_datagram_def Command_u32_def ZYGOTE_INJECTED_def SYSTEM_SERVER_STARTED_cmd_def)
  have b: "bare (if lp64 then ZYGOTE64_INJECTED else ZYGOTE32_INJECTED)" "bare SYSTEM_SERVER_STARTED"
    by (auto simp: bare_def)
  have wf: "wf_rx (Rx_Dgram hb)" "wf_rx (Rx_Dgram ss)"
    by (simp_all add: d peek_size_bare [OF b(1)] peek_size_bare [OF b(2)])
  have h: "handle_all [Rx_Dgram hb, Rx_Dgram ss] m =
      bind_r (updateStatus (set_status lp64 ((get_status lp64 m)\<lparr>zygote_injected := True\<rparr>) m))
       (\<lambda>m'. Inr (call Mount_Prop m'))"
    unfolding d handle_bare [OF b(1)] handle_bare [OF b(2)]
    by (cases lp64) (simp_all add: handle_command_def set_status_def get_status_def)
  show ?thesis unfolding socket_HandleEvent_reference using wf h by (simp split: sum.split)
qed

lemma relayed_notices_witness:
  "\<exists>hb ss m'. main_loop_datagram True DA_PingHeartbeat = Some hb \<and>
     main_loop_datagram True DA_SystemServerStarted = Some ss \<and>
     socket_HandleEvent [Rx_Dgram hb, Rx_Dgram ss] monitor_init = Some (Inr m') \<and> calls m' = [Mount_Prop]"
proof -
  obtain hb ss where d: "main_loop_datagram True DA_PingHeartbeat = Some hb"
    "main_loop_datagram True DA_SystemServerStarted = Some ss" by (simp add: main_loop_datagram_def)
  have "case updateStatus (set_status True ((get_status True monitor_init)\<lparr>zygote_injected := True\<rparr>) monitor_init) of
      Inl _ \<Rightarrow> False | Inr _ \<Rightarrow> True" by code_simp
  then obtain m' where m': "updateStatus (set_status True ((get_status True monitor_init)\<lparr>zygote_injected := True\<rparr>)
      monitor_init) = Inr m'" by (auto split: sum.splits)
  have "calls m' = []" using updateStatus_keeps(7) [OF m'] by (simp add: set_status_def monitor_init_def)
  with relayed_notices [OF d, of monitor_init] d m' show ?thesis by simp
qed

section \<open>From the zygote over the daemon to the monitor\<close>

text \<open>The heartbeat as the client sends it, and the connection the daemon accepts for it.\<close>

lemma PingHeartbeat_sent:
  assumes "Fail \<notin> set (write_plan p)" and "reachable_daemon c"
  shows "\<exists>s c'. PingHeartbeat p c = Inr ((True, s), c') \<and> outq s = [CHR 0x00] \<and> open_fds c' = open_fds c"
proof -
  obtain c1 where c1: "Connect 5 c = Inr (next_fd c, c1)" "open_fds c1 = next_fd c # open_fds c" "next_fd c \<noteq> -1"
    using Connect_reachable [OF assms(2), of 5] by auto
  have "Fail \<notin> set (wsched (new_sock p))" using assms(1) by (simp add: new_sock_def)
  then obtain s where "write_exact (enc_u8 (action_u8 SA_PingHeartBeat)) (new_sock p) = (True, s)"
      "outq s = outq (new_sock p) @ enc_u8 (action_u8 SA_PingHeartBeat)"
    by (rule write_exact_all)
  then have "write_u8 (action_u8 SA_PingHeartBeat) (new_sock p) = (True, s)" "outq s = [CHR 0x00]"
    by (simp_all add: write_u8_def new_sock_def enc_u8_def action_u8_def char_of_def)
  then show ?thesis
    using c1 drop_UniqueFd_fds [OF c1(2)] assms(2) by (simp add: PingHeartbeat_def reachable_daemon_def)
qed

lemma heartbeat_relayed:
  assumes "link_ok tid l"
  shows "daemon_loop lp64 tid [\<lparr>ic_accept = True, ic_bytes = [CHR 0x00], ic_link = l\<rparr>] st =
    (None, st\<lparr>ds_sent := ds_sent st @ [enc_u32 (ZYGOTE_INJECTED lp64)], ds_ctx := zygote_context\<rparr>)"
  using assms by (simp add: accept_one_def daemon_socket_action_try_from_def notify_eq Let_def)

text \<open>The monitor on the two messages.\<close>

lemma handle_body:
  assumes "\<not> bare c" and "length s + 1 < 2 ^ 31"
  shows "handle_all (Rx_Dgram (body_msg c s) # q) m =
    bind_r (handle_command c (int (length s + 1)) (s @ [NUL]) m) (handle_all q)"
  using recv_body(1) [OF assms] recv_body(2) [OF assms, of m] by simp

lemma handle_startup:
  assumes "length (startup_info d) + 1 < 2 ^ 31"
  shows "handle_all (Rx_Dgram (startup_msg lp64 d) # q) m =
    bind_r (updateStatus (set_status lp64
      (if root_flag (rq_impl (dn_root d)) \<noteq> None
       then (get_status lp64 m)\<lparr>daemon_info := Some (startup_info d @ [NUL])\<rparr>
       else (get_status lp64 m)\<lparr>daemon_running := False, daemon_error_info := Some (startup_info d @ [NUL])\<rparr>) m))
    (handle_all q)"
  unfolding startup_msg_body
  using handle_body [OF _ assms, of _ q m] copy_text_body [of "startup_info d"]
  by (simp add: bare_def handle_command_def set_daemon_info_def set_daemon_error_info_def)

lemma handle_heartbeat:
  "handle_all [Rx_Dgram (enc_u32 (ZYGOTE_INJECTED lp64))] m =
     updateStatus (set_status lp64 ((get_status lp64 m)\<lparr>zygote_injected := True\<rparr>) m)"
proof -
  have b: "bare (if lp64 then ZYGOTE64_INJECTED else ZYGOTE32_INJECTED)" by (simp add: bare_def)
  have z: "ZYGOTE_INJECTED lp64 = Command_u32 (if lp64 then ZYGOTE64_INJECTED else ZYGOTE32_INJECTED)"
    by (simp add: ZYGOTE_INJECTED_def Command_u32_def)
  show ?thesis
    unfolding z handle_bare [OF b]
    by (cases lp64) (simp_all add: handle_command_def set_status_def get_status_def bind_r_def split: sum.split)
qed

lemma start_and_heartbeat_handled:
  assumes "length (startup_info d) + 1 < 2 ^ 31"
  shows "socket_HandleEvent [Rx_Dgram (startup_msg lp64 d), Rx_Dgram (enc_u32 (ZYGOTE_INJECTED lp64))] m =
    Some (bind_r (updateStatus (set_status lp64
        (if root_flag (rq_impl (dn_root d)) \<noteq> None
         then (get_status lp64 m)\<lparr>daemon_info := Some (startup_info d @ [NUL])\<rparr>
         else (get_status lp64 m)\<lparr>daemon_running := False, daemon_error_info := Some (startup_info d @ [NUL])\<rparr>) m))
      (\<lambda>m1. updateStatus (set_status lp64 ((get_status lp64 m1)\<lparr>zygote_injected := True\<rparr>) m1)))"
proof -
  have "wf_rx (Rx_Dgram (startup_msg lp64 d))"
    unfolding startup_msg_body using recv_body(1) [OF _ assms] by (simp add: bare_def)
  moreover have "bare (if lp64 then ZYGOTE64_INJECTED else ZYGOTE32_INJECTED)" by (simp add: bare_def)
  from peek_size_bare [OF this] have "wf_rx (Rx_Dgram (enc_u32 (ZYGOTE_INJECTED lp64)))"
    by (simp add: ZYGOTE_INJECTED_def Command_u32_def split: if_splits)
  ultimately show ?thesis
    unfolding socket_HandleEvent_reference using handle_startup [OF assms, of lp64 "[Rx_Dgram (enc_u32 (ZYGOTE_INJECTED lp64))]" m]
    by (simp add: handle_heartbeat [abs_def] split: sum.split)
qed


text \<open>A device with one usable module and one that is disabled.\<close>

definition sample_start :: start_env where
  "sample_start = \<lparr>se_tmp_path = Some ''/data/adb/rezygisk'', se_abi = Some ''arm64-v8a'',
     se_dir = Some [Dir_Entry \<lparr>me_name = ''lsp'', me_exists = \<lambda>f. f = ''zygisk/arm64-v8a.so'',
         me_library = \<lparr>le_create = True, le_file = Some ''ELF'', le_copied = True, le_add_seals = True\<rparr>\<rparr>,
       Dir_Entry \<lparr>me_name = ''off'', me_exists = \<lambda>_. True,
         me_library = \<lparr>le_create = True, le_file = Some ''ELF'', le_copied = True, le_add_seals = True\<rparr>\<rparr>],
     se_link = working_link,
     se_listen = \<lparr>li_writable = \<lambda>_. True, li_addr = True, li_socket = True, li_bind = True, li_listen = True, li_chcon = True\<rparr>\<rparr>"

definition sample_ksu_daemon :: daemon where
  "sample_ksu_daemon = \<lparr>dn_root = \<lparr>rq_impl = KernelSU, rq_granted_root = \<lambda>u. False, rq_should_umount = \<lambda>u. False,
     rq_is_manager = \<lambda>u. False\<rparr>, dn_modules = [], dn_pid = 1, dn_companion = \<lambda>_. False, dn_module_dir = \<lambda>_. None\<rparr>"

lemma sample_started:
  "\<exists>d' st. daemon_start True 2 sample_start sample_ksu_daemon = Inr (d', st) \<and>
     startup_info d' = ''Root: KernelSU,module(1): lsp'' \<and> root_flag (rq_impl (dn_root d')) \<noteq> None"
proof -
  have "case daemon_start True 2 sample_start sample_ksu_daemon of
      Inr (d', st) \<Rightarrow> startup_info d' = ''Root: KernelSU,module(1): lsp'' \<and> root_flag (rq_impl (dn_root d')) \<noteq> None
    | Inl _ \<Rightarrow> False" by code_simp
  then show ?thesis by (auto split: sum.splits)
qed




end
